(* ===== verification/Prelude.thy ===== *)
theory Prelude
  imports Main "HOL-Library.Word" "HOL-Library.Multiset"
begin

text \<open>
  The shared vocabulary of the development: Rust's machine integers, \<open>Result\<close> and
  \<open>Option\<close> combinators, byte strings and UTF-8, and the generic lemmas that the
  component theories use.

  Integers. An \<open>i64\<close> is an \<^typ>\<open>int\<close>, a \<open>u64\<close> or \<open>usize\<close> a
  \<^typ>\<open>nat\<close> (\<open>usize\<close> is 64 bits wide). The checked, saturating and casting operations
  of the source carry their range explicitly; where the source uses a plain \<open>+\<close> or
  \<open>-\<close>, the model does too, and the invariants of the component show that the result
  stays in range. Wrapping counters are \<^typ>\<open>64 word\<close>.

  Strings. A Rust \<open>String\<close> is its UTF-8 byte sequence; the model uses
  \<^typ>\<open>string\<close> with one \<^typ>\<open>char\<close> per byte, so that \<open>length\<close> is \<open>str::len\<close>. What
  the source asks of the Unicode characters of a string goes through the UTF-8 decoder
  below, which follows \<open>core::str::from_utf8\<close>.
\<close>

section \<open>Automation shared by the components\<close>

named_theorems arith_defs \<open>definitions of the machine arithmetic\<close>
named_theorems result_simps \<open>evaluation of Result and Option combinators\<close>

section \<open>Machine integers\<close>

type_synonym byte = "8 word"
type_synonym i64 = int
type_synonym u64 = nat
type_synonym usize = nat

definition i64_max :: i64 where
  "i64_max = 9223372036854775807"

definition i64_min :: i64 where
  "i64_min = - 9223372036854775808"

definition i32_max :: i64 where
  "i32_max = 2147483647"

definition u32_max :: i64 where
  "u32_max = 4294967295"

definition u64_max :: u64 where
  "u64_max = 18446744073709551615"

definition in_i64 :: "int \<Rightarrow> bool" where
  "in_i64 x \<longleftrightarrow> i64_min \<le> x \<and> x \<le> i64_max"

definition checked_add_i64 :: "i64 \<Rightarrow> i64 \<Rightarrow> i64 option" where
  "checked_add_i64 a b = (if in_i64 (a + b) then Some (a + b) else None)"

definition checked_mul_i64 :: "i64 \<Rightarrow> i64 \<Rightarrow> i64 option" where
  "checked_mul_i64 a b = (if in_i64 (a * b) then Some (a * b) else None)"

definition saturating_add_i64 :: "i64 \<Rightarrow> i64 \<Rightarrow> i64" where
  "saturating_add_i64 a b = max i64_min (min i64_max (a + b))"

definition checked_add_u64 :: "u64 \<Rightarrow> u64 \<Rightarrow> u64 option" where
  "checked_add_u64 a b = (if a + b \<le> u64_max then Some (a + b) else None)"

definition checked_mul_u64 :: "u64 \<Rightarrow> u64 \<Rightarrow> u64 option" where
  "checked_mul_u64 a b = (if a * b \<le> u64_max then Some (a * b) else None)"

definition saturating_add_u64 :: "u64 \<Rightarrow> u64 \<Rightarrow> u64" where
  "saturating_add_u64 a b = min u64_max (a + b)"

text \<open>\<open>saturating_sub\<close> on unsigned values is \<^typ>\<open>nat\<close> subtraction.\<close>

abbreviation (input) saturating_sub_u64 :: "u64 \<Rightarrow> u64 \<Rightarrow> u64" where
  "saturating_sub_u64 a b \<equiv> a - b"

text \<open>The cast \<open>x as usize\<close> of an \<open>i64\<close> keeps the two's complement bits.\<close>

definition i64_as_usize :: "i64 \<Rightarrow> usize" where
  "i64_as_usize x = nat (x mod 18446744073709551616)"

declare i64_max_def [arith_defs] i64_min_def [arith_defs] i32_max_def [arith_defs]
  u32_max_def [arith_defs] u64_max_def [arith_defs] in_i64_def [arith_defs]
  checked_add_i64_def [arith_defs] saturating_add_i64_def [arith_defs]
  checked_add_u64_def [arith_defs] checked_mul_u64_def [arith_defs]
  saturating_add_u64_def [arith_defs] checked_mul_i64_def [arith_defs]

section \<open>Result and Option combinators\<close>

text \<open>
  \<open>Result<T, E>\<close> is \<open>'e + 'a\<close>: \<^const>\<open>Inl\<close> carries the error. \<open>and_then\<close> is the
  \<open>?\<close> operator followed by the rest of the function.
\<close>

definition and_then :: "'e + 'a \<Rightarrow> ('a \<Rightarrow> 'e + 'b) \<Rightarrow> 'e + 'b" where
  "and_then r f = (case r of Inl e \<Rightarrow> Inl e | Inr x \<Rightarrow> f x)"

definition map_err :: "('e \<Rightarrow> 'f) \<Rightarrow> 'e + 'a \<Rightarrow> 'f + 'a" where
  "map_err g r = (case r of Inl e \<Rightarrow> Inl (g e) | Inr x \<Rightarrow> Inr x)"

definition ok_or :: "'e \<Rightarrow> 'a option \<Rightarrow> 'e + 'a" where
  "ok_or e r = (case r of None \<Rightarrow> Inl e | Some x \<Rightarrow> Inr x)"

text \<open>\<open>if bad { return Err(e); }\<close>\<close>

definition refuse_if :: "bool \<Rightarrow> 'e \<Rightarrow> 'e + unit" where
  "refuse_if bad e = (if bad then Inl e else Inr ())"

definition is_ok :: "'e + 'a \<Rightarrow> bool" where
  "is_ok r = (case r of Inl _ \<Rightarrow> False | Inr _ \<Rightarrow> True)"

text \<open>\<open>Option::is_some_and\<close>, \<open>Option::is_none_or\<close>, \<open>Option::is_some\<close>.\<close>

definition is_some_and :: "('a \<Rightarrow> bool) \<Rightarrow> 'a option \<Rightarrow> bool" where
  "is_some_and p r = (case r of None \<Rightarrow> False | Some x \<Rightarrow> p x)"

definition is_none_or :: "('a \<Rightarrow> bool) \<Rightarrow> 'a option \<Rightarrow> bool" where
  "is_none_or p r = (case r of None \<Rightarrow> True | Some x \<Rightarrow> p x)"

definition is_some :: "'a option \<Rightarrow> bool" where
  "is_some r = (r \<noteq> None)"

text \<open>The smallest present value: \<open>[a, b, ..].into_iter().flatten().min()\<close>.\<close>

definition opt_min :: "nat option \<Rightarrow> nat option \<Rightarrow> nat option" where
  "opt_min a b = (case a of None \<Rightarrow> b | Some x \<Rightarrow>
     (case b of None \<Rightarrow> Some x | Some y \<Rightarrow> Some (min x y)))"

section \<open>UTF-8\<close>

text \<open>
  \<open>utf8_scan\<close> reads a byte sequence the way \<open>core::str::from_utf8\<close> does: the code
  points of a valid sequence, \<open>Utf8_Invalid\<close> where the error has a length
  (\<open>error_len()\<close> is \<open>Some\<close>) and \<open>Utf8_Incomplete\<close> where the input ends inside a
  character.
\<close>

datatype utf8_result = Utf8_Ok "nat list" | Utf8_Invalid | Utf8_Incomplete

definition utf8_cont :: "nat \<Rightarrow> bool" where
  "utf8_cont b \<longleftrightarrow> 128 \<le> b \<and> b \<le> 191"

text \<open>The range of the second byte of a multi-byte character, by its first byte.\<close>

definition utf8_second :: "nat \<Rightarrow> nat \<Rightarrow> bool" where
  "utf8_second a b \<longleftrightarrow>
     (if a = 224 then 160 \<le> b \<and> b \<le> 191
      else if a = 237 then 128 \<le> b \<and> b \<le> 159
      else if a = 240 then 144 \<le> b \<and> b \<le> 191
      else if a = 244 then 128 \<le> b \<and> b \<le> 143
      else utf8_cont b)"

definition utf8_width :: "nat \<Rightarrow> nat" where
  "utf8_width a =
     (if a < 128 then 1
      else if 194 \<le> a \<and> a \<le> 223 then 2
      else if 224 \<le> a \<and> a \<le> 239 then 3
      else if 240 \<le> a \<and> a \<le> 244 then 4
      else 0)"

definition utf8_push :: "nat \<Rightarrow> utf8_result \<Rightarrow> utf8_result" where
  "utf8_push c r = (case r of Utf8_Ok cs \<Rightarrow> Utf8_Ok (c # cs) | _ \<Rightarrow> r)"

fun utf8_scan :: "nat list \<Rightarrow> utf8_result" where
  "utf8_scan [] = Utf8_Ok []"
| "utf8_scan (a # rest) =
     (if utf8_width a = 1 then utf8_push a (utf8_scan rest)
      else if utf8_width a = 0 then Utf8_Invalid
      else (case rest of
        [] \<Rightarrow> Utf8_Incomplete
      | b # rest2 \<Rightarrow>
          if \<not> utf8_second a b then Utf8_Invalid
          else if utf8_width a = 2 then
            utf8_push ((a - 192) * 64 + (b - 128)) (utf8_scan rest2)
          else (case rest2 of
            [] \<Rightarrow> Utf8_Incomplete
          | c # rest3 \<Rightarrow>
              if \<not> utf8_cont c then Utf8_Invalid
              else if utf8_width a = 3 then
                utf8_push ((a - 224) * 4096 + (b - 128) * 64 + (c - 128)) (utf8_scan rest3)
              else (case rest3 of
                [] \<Rightarrow> Utf8_Incomplete
              | d # rest4 \<Rightarrow>
                  if \<not> utf8_cont d then Utf8_Invalid
                  else utf8_push
                    ((a - 240) * 262144 + (b - 128) * 4096 + (c - 128) * 64 + (d - 128))
                    (utf8_scan rest4)))))"

definition str_bytes :: "string \<Rightarrow> nat list" where
  "str_bytes s = map of_char s"

definition utf8_valid :: "string \<Rightarrow> bool" where
  "utf8_valid s \<longleftrightarrow> (case utf8_scan (str_bytes s) of Utf8_Ok _ \<Rightarrow> True | _ \<Rightarrow> False)"

text \<open>A character cut short: every non-empty prefix is incomplete.\<close>

definition partial_char :: "nat list \<Rightarrow> bool" where
  "partial_char buf \<longleftrightarrow> (\<forall>k. 0 < k \<longrightarrow> k \<le> length buf \<longrightarrow> utf8_scan (take k buf) = Utf8_Incomplete)"

text \<open>\<open>str::chars\<close>: the code points of a string.\<close>

definition str_chars :: "string \<Rightarrow> nat list" where
  "str_chars s = (case utf8_scan (str_bytes s) of Utf8_Ok cs \<Rightarrow> cs | _ \<Rightarrow> [])"

definition char_is_control :: "nat \<Rightarrow> bool" where
  "char_is_control c \<longleftrightarrow> c < 32 \<or> (127 \<le> c \<and> c \<le> 159)"

definition char_is_whitespace :: "nat \<Rightarrow> bool" where
  "char_is_whitespace c \<longleftrightarrow>
     (9 \<le> c \<and> c \<le> 13) \<or> c \<in> {32, 133, 160, 5760, 8232, 8233, 8239, 8287, 12288}
     \<or> (8192 \<le> c \<and> c \<le> 8202)"

definition byte_is_ascii_control :: "nat \<Rightarrow> bool" where
  "byte_is_ascii_control b \<longleftrightarrow> b < 32 \<or> b = 127"

definition byte_is_ascii_whitespace :: "nat \<Rightarrow> bool" where
  "byte_is_ascii_whitespace b \<longleftrightarrow> b \<in> {9, 10, 12, 13, 32}"

definition byte_is_ascii_digit :: "nat \<Rightarrow> bool" where
  "byte_is_ascii_digit b \<longleftrightarrow> 48 \<le> b \<and> b \<le> 57"

definition byte_is_ascii_alphanumeric :: "nat \<Rightarrow> bool" where
  "byte_is_ascii_alphanumeric b \<longleftrightarrow>
     byte_is_ascii_digit b \<or> (65 \<le> b \<and> b \<le> 90) \<or> (97 \<le> b \<and> b \<le> 122)"

definition byte_is_ascii_hexdigit :: "nat \<Rightarrow> bool" where
  "byte_is_ascii_hexdigit b \<longleftrightarrow>
     byte_is_ascii_digit b \<or> (65 \<le> b \<and> b \<le> 70) \<or> (97 \<le> b \<and> b \<le> 102)"

text \<open>\<open>usize::to_string().len()\<close> and \<open>i64::to_string().len()\<close> for a non-negative value.\<close>

fun decimal_len :: "nat \<Rightarrow> nat" where
  "decimal_len n = (if n < 10 then 1 else Suc (decimal_len (n div 10)))"

declare decimal_len.simps [simp del]

section \<open>Lemmas on results and options\<close>

lemma and_then_Inl [simp, result_simps]: "and_then (Inl e) f = Inl e"
  by (simp add: and_then_def)

lemma and_then_Inr [simp, result_simps]: "and_then (Inr x) f = f x"
  by (simp add: and_then_def)

lemma and_then_eq_Inr: "and_then r f = Inr y \<longleftrightarrow> (\<exists>x. r = Inr x \<and> f x = Inr y)"
  by (cases r) simp_all

lemma and_then_eq_Inl: "and_then r f = Inl e \<longleftrightarrow> r = Inl e \<or> (\<exists>x. r = Inr x \<and> f x = Inl e)"
  by (cases r) auto

lemma and_then_assoc: "and_then (and_then r f) g = and_then r (\<lambda>x. and_then (f x) g)"
  by (cases r) simp_all

lemma and_then_Inr_right [simp]: "and_then r Inr = r"
  by (cases r) simp_all

lemma and_then_cong [fundef_cong]:
  "r = r' \<Longrightarrow> (\<And>x. r' = Inr x \<Longrightarrow> f x = f' x) \<Longrightarrow> and_then r f = and_then r' f'"
  by (cases r') simp_all

lemma map_err_Inl [simp, result_simps]: "map_err g (Inl e) = Inl (g e)"
  by (simp add: map_err_def)

lemma map_err_Inr [simp, result_simps]: "map_err g (Inr x) = Inr x"
  by (simp add: map_err_def)

lemma map_err_eq_Inr [simp]: "map_err g r = Inr x \<longleftrightarrow> r = Inr x"
  by (cases r) simp_all

lemma ok_or_None [simp, result_simps]: "ok_or e None = Inl e"
  by (simp add: ok_or_def)

lemma ok_or_Some [simp, result_simps]: "ok_or e (Some x) = Inr x"
  by (simp add: ok_or_def)

lemma ok_or_eq_Inr [simp]: "ok_or e r = Inr x \<longleftrightarrow> r = Some x"
  by (cases r) simp_all

lemma refuse_if_True [simp, result_simps]: "refuse_if True e = Inl e"
  by (simp add: refuse_if_def)

lemma refuse_if_False [simp, result_simps]: "refuse_if False e = Inr ()"
  by (simp add: refuse_if_def)

lemma refuse_if_eq_Inr [simp]: "refuse_if b e = Inr u \<longleftrightarrow> \<not> b"
  by (cases b) simp_all

lemma is_ok_simps [simp, result_simps]: "is_ok (Inl e) = False" "is_ok (Inr x) = True"
  by (simp_all add: is_ok_def)

lemma is_ok_iff: "is_ok r \<longleftrightarrow> (\<exists>x. r = Inr x)"
  by (cases r) simp_all

lemma is_some_and_simps [simp, result_simps]:
  "is_some_and p None = False" "is_some_and p (Some x) = p x"
  by (simp_all add: is_some_and_def)

lemma is_none_or_simps [simp, result_simps]:
  "is_none_or p None = True" "is_none_or p (Some x) = p x"
  by (simp_all add: is_none_or_def)

lemma is_some_simps [simp, result_simps]: "is_some None = False" "is_some (Some x) = True"
  by (simp_all add: is_some_def)

lemma is_some_iff: "is_some r \<longleftrightarrow> (\<exists>x. r = Some x)"
  by (cases r) simp_all

section \<open>Lemmas on machine integers\<close>

lemma i64_as_usize_nonneg: "0 \<le> x \<Longrightarrow> x \<le> i64_max \<Longrightarrow> i64_as_usize x = nat x"
  by (simp add: i64_as_usize_def i64_max_def)

lemma checked_add_i64_eq_Some [simp]:
  "checked_add_i64 a b = Some c \<longleftrightarrow> c = a + b \<and> in_i64 (a + b)"
  by (auto simp: checked_add_i64_def)

lemma checked_add_i64_eq_None [simp]: "checked_add_i64 a b = None \<longleftrightarrow> \<not> in_i64 (a + b)"
  by (simp add: checked_add_i64_def)

lemma checked_add_u64_eq_Some [simp]:
  "checked_add_u64 a b = Some c \<longleftrightarrow> c = a + b \<and> a + b \<le> u64_max"
  by (auto simp: checked_add_u64_def)

lemma saturating_add_u64_ge: "a \<le> u64_max \<Longrightarrow> a \<le> saturating_add_u64 a b"
  by (simp add: saturating_add_u64_def)

lemma saturating_add_i64_mono:
  "a \<le> a' \<Longrightarrow> saturating_add_i64 a b \<le> saturating_add_i64 a' b"
  by (simp add: saturating_add_i64_def min_def max_def)

lemma saturating_add_i64_le: "0 \<le> a \<Longrightarrow> 0 \<le> b \<Longrightarrow> saturating_add_i64 a b \<le> a + b"
  by (simp add: saturating_add_i64_def i64_min_def)

lemma saturating_add_i64_ge:
  "in_i64 a \<Longrightarrow> 0 \<le> b \<Longrightarrow> a \<le> saturating_add_i64 a b"
  by (simp add: saturating_add_i64_def in_i64_def)

lemma saturating_add_i64_in: "in_i64 (saturating_add_i64 a b)"
  by (simp add: saturating_add_i64_def in_i64_def i64_min_def i64_max_def)

lemma i64_as_usize_le: "i64_as_usize x \<le> u64_max"
proof -
  have "x mod 18446744073709551616 < 18446744073709551616" by simp
  then show ?thesis by (simp add: i64_as_usize_def u64_max_def)
qed

lemma i64_as_usize_numeral:
  "numeral n < (18446744073709551616 :: int) \<Longrightarrow> i64_as_usize (numeral n) = numeral n"
  by (simp only: i64_as_usize_def mod_pos_pos_trivial zero_le_numeral nat_numeral)

lemma i64_as_usize_one: "i64_as_usize 1 = 1"
  by (simp add: i64_as_usize_def)

section \<open>Lemmas on lists\<close>

lemma sum_list_sort_key: "sum_list (map f (sort_key k xs)) = (sum_list (map f xs) :: nat)"
  by (metis mset_map mset_sort sum_mset_sum_list)

lemma filter_one_unique:
  assumes "length (filter P xs) = 1" "i < length xs" "P (xs ! i)" "j < length xs" "P (xs ! j)"
  shows "i = j"
proof -
  have "card {k. k < length xs \<and> P (xs ! k)} = 1"
    using assms(1) by (simp add: length_filter_conv_card)
  then obtain a where "{k. k < length xs \<and> P (xs ! k)} = {a}" by (auto simp: card_1_singleton_iff)
  then have "i \<in> {a}" "j \<in> {a}" using assms(2-) by blast+
  then show ?thesis by simp
qed

section \<open>Lemmas on UTF-8\<close>

lemma utf8_push_simps [simp]:
  "utf8_push c (Utf8_Ok cs) = Utf8_Ok (c # cs)"
  "utf8_push c Utf8_Invalid = Utf8_Invalid" "utf8_push c Utf8_Incomplete = Utf8_Incomplete"
  by (simp_all add: utf8_push_def)

lemma utf8_push_eq [simp]:
  "utf8_push c r = Utf8_Ok cs \<longleftrightarrow> (\<exists>cs'. r = Utf8_Ok cs' \<and> cs = c # cs')"
  "utf8_push c r = Utf8_Invalid \<longleftrightarrow> r = Utf8_Invalid"
  "utf8_push c r = Utf8_Incomplete \<longleftrightarrow> r = Utf8_Incomplete"
  by (auto simp: utf8_push_def split: utf8_result.splits)

declare utf8_scan.simps(2) [simp del]

lemma utf8_scan_append_ok:
  "utf8_scan a = Utf8_Ok cs \<Longrightarrow> utf8_scan (a @ r) = foldr utf8_push cs (utf8_scan r)"
proof (induction a arbitrary: cs rule: utf8_scan.induct)
  case (2 a rest)
  then show ?case
    unfolding append_Cons utf8_scan.simps(2) [of a rest] utf8_scan.simps(2) [of a "rest @ r"]
    by (auto split: list.split_asm if_split_asm)
qed simp

lemma utf8_scan_append_invalid:
  "utf8_scan a = Utf8_Invalid \<Longrightarrow> utf8_scan (a @ r) = Utf8_Invalid"
proof (induction a rule: utf8_scan.induct)
  case (2 a rest)
  then show ?case
    unfolding append_Cons utf8_scan.simps(2) [of a rest] utf8_scan.simps(2) [of a "rest @ r"]
    by (auto split: list.split_asm if_split_asm)
qed simp

lemma foldr_push:
  "foldr utf8_push cs r = (case r of Utf8_Ok ds \<Rightarrow> Utf8_Ok (cs @ ds) | _ \<Rightarrow> r)"
  by (induction cs) (auto split: utf8_result.splits)

lemma partial_char_Nil [simp]: "partial_char []"
  by (simp add: partial_char_def)

lemma partial_char_snoc:
  "partial_char (buf @ [b]) \<longleftrightarrow> partial_char buf \<and> utf8_scan (buf @ [b]) = Utf8_Incomplete"
  by (auto simp: partial_char_def le_Suc_eq)

lemma partial_char_scan: "partial_char buf \<Longrightarrow> buf \<noteq> [] \<Longrightarrow> utf8_scan buf = Utf8_Incomplete"
  by (auto simp: partial_char_def dest: spec [of _ "length buf"])

lemma partial_char_short: "partial_char buf \<Longrightarrow> length buf \<le> 3"
proof (rule ccontr)
  assume p: "partial_char buf" and "\<not> length buf \<le> 3"
  then obtain a b c d r where buf: "buf = a # b # c # d # r"
    by (cases buf; cases "tl buf"; cases "tl (tl buf)"; cases "tl (tl (tl buf))") auto
  have "utf8_scan [a] = Utf8_Incomplete" "utf8_scan [a, b] = Utf8_Incomplete"
    "utf8_scan [a, b, c] = Utf8_Incomplete" "utf8_scan [a, b, c, d] = Utf8_Incomplete"
    using p [unfolded partial_char_def, rule_format, of 1] p [unfolded partial_char_def, rule_format, of 2]
      p [unfolded partial_char_def, rule_format, of 3] p [unfolded partial_char_def, rule_format, of 4]
    by (simp_all add: buf numeral_eq_Suc)
  then show False
    by (auto simp: utf8_scan.simps utf8_width_def split: if_splits)
qed

lemma and_then_InrE:
  assumes "and_then r f = Inr y" obtains x where "r = Inr x" "f x = Inr y"
  using assms by (auto simp: and_then_eq_Inr)

lemma is_some_eq: "is_some x \<longleftrightarrow> x \<noteq> None"
  by (cases x) simp_all

lemma sum_list_le_times:
  fixes f :: "'a \<Rightarrow> nat"
  assumes "\<And>x. x \<in> set xs \<Longrightarrow> f x \<le> c"
  shows "sum_list (map f xs) \<le> c * length xs"
  using assms by (induction xs) (auto intro: add_mono)

section \<open>Systems with an invariant\<close>

text \<open>
  The contract of a state machine: what holds at the start and is kept by every step holds in
  every reachable state.
\<close>

locale invariant_system =
  fixes start :: "'s \<Rightarrow> bool"
    and step :: "'s \<Rightarrow> 's \<Rightarrow> bool"
    and inv :: "'s \<Rightarrow> bool"
  assumes start_inv: "start s \<Longrightarrow> inv s"
    and step_inv: "inv s \<Longrightarrow> step s s' \<Longrightarrow> inv s'"
begin

lemma run_inv: "step\<^sup>*\<^sup>* s s' \<Longrightarrow> inv s \<Longrightarrow> inv s'"
  by (induction rule: rtranclp_induct) (auto intro: step_inv)

lemma reachable_inv: "start s \<Longrightarrow> step\<^sup>*\<^sup>* s s' \<Longrightarrow> inv s'"
  using run_inv start_inv by blast

end

lemma rtranclp_stable:
  assumes "r\<^sup>*\<^sup>* s s'" "P s" "\<And>s s'. P s \<Longrightarrow> r s s' \<Longrightarrow> P s' \<and> f s' = f s"
  shows "f s' = f s"
proof -
  have "P s' \<and> f s' = f s" using assms(1) by (induction rule: rtranclp_induct) (use assms(2,3) in auto)
  then show ?thesis by simp
qed

end
