(* ===== verification/Cbor.thy ===== *)
theory Cbor
  imports Prelude
begin

text \<open>
  The deterministic CBOR runtime, \<open>src/cbor.rs\<close>: the value type, its fallible
  accessors, the encoder and the bounded, fail-closed decoder.

  A byte is an \<^typ>\<open>8 word\<close>. An \<open>f64\<close> is its 64 bits: the source compares floats by
  \<open>to_bits\<close>, and the conversions between widths are defined on the bits. The
  encoder's output buffer is the concatenation of what each call pushes. The decoder
  keeps the source's whole input and offset.
\<close>

section \<open>Values and errors\<close>

datatype map_key = MK_Int i64 | MK_Text string | MK_Bool bool

datatype decode_error =
    Truncated
  | TrailingBytes
  | InvalidUtf8
  | UnsupportedInfo nat
  | UnsupportedMajor nat
  | NonIntegerMapKey
  | DuplicateMapKey map_key
  | IntOverflow
  | NonCanonicalInt u64
  | NegativeMapKey i64
  | MissingKey i64
  | WrongType string
  | UnknownEnum string i64
  | TooDeep usize
  | TooLarge usize usize

datatype cbor =
    CInt i64
  | CFloat "64 word"
  | CBytes "byte list"
  | CText string
  | CArray "cbor list"
  | CMap "(i64 \<times> cbor) list"
  | CBool bool
  | CNull

definition default_max_depth :: usize where
  "default_max_depth = 32"

definition max_depth_ceiling :: usize where
  "max_depth_ceiling = 128"

section \<open>Accessors\<close>

fun is_map :: "cbor \<Rightarrow> bool" where
  "is_map (CMap _) = True"
| "is_map _ = False"

fun is_null :: "cbor \<Rightarrow> bool" where
  "is_null CNull = True"
| "is_null _ = False"

fun map_entries :: "cbor \<Rightarrow> (i64 \<times> cbor) list" where
  "map_entries (CMap m) = m"
| "map_entries _ = []"

fun try_get :: "cbor \<Rightarrow> i64 \<Rightarrow> decode_error + cbor" where
  "try_get (CMap m) key = (case map_of m key of Some v \<Rightarrow> Inr v | None \<Rightarrow> Inl (MissingKey key))"
| "try_get _ key = Inl (WrongType ''map'')"

fun try_get_opt :: "cbor \<Rightarrow> i64 \<Rightarrow> decode_error + cbor option" where
  "try_get_opt (CMap m) key = Inr (map_of m key)"
| "try_get_opt _ key = Inl (WrongType ''map'')"

fun try_int :: "cbor \<Rightarrow> decode_error + i64" where
  "try_int (CInt n) = Inr n"
| "try_int _ = Inl (WrongType ''int'')"

fun try_float :: "cbor \<Rightarrow> decode_error + 64 word" where
  "try_float (CFloat x) = Inr x"
| "try_float _ = Inl (WrongType ''float'')"

fun try_text :: "cbor \<Rightarrow> decode_error + string" where
  "try_text (CText s) = Inr s"
| "try_text _ = Inl (WrongType ''text'')"

fun try_bytes :: "cbor \<Rightarrow> decode_error + byte list" where
  "try_bytes (CBytes b) = Inr b"
| "try_bytes _ = Inl (WrongType ''bytes'')"

fun try_bool :: "cbor \<Rightarrow> decode_error + bool" where
  "try_bool (CBool b) = Inr b"
| "try_bool _ = Inl (WrongType ''bool'')"

fun try_array :: "cbor \<Rightarrow> decode_error + cbor list" where
  "try_array (CArray a) = Inr a"
| "try_array _ = Inl (WrongType ''array'')"

section \<open>Values of the Rust type\<close>

text \<open>
  The trees that are values of the Rust type: every integer is an \<open>i64\<close> and every text
  is UTF-8.
\<close>

fun rust_cbor :: "cbor \<Rightarrow> bool" where
  "rust_cbor (CInt n) \<longleftrightarrow> in_i64 n"
| "rust_cbor (CText s) \<longleftrightarrow> utf8_valid s"
| "rust_cbor (CArray a) \<longleftrightarrow> list_all rust_cbor a"
| "rust_cbor (CMap m) \<longleftrightarrow> list_all (\<lambda>e. in_i64 (fst e) \<and> rust_cbor (snd e)) m"
| "rust_cbor _ \<longleftrightarrow> True"

section \<open>Big-endian integers and heads\<close>

text \<open>\<open>to_be_bytes\<close> of a \<open>k\<close>-byte integer and \<open>from_be_bytes\<close>.\<close>

fun be_bytes :: "nat \<Rightarrow> nat \<Rightarrow> byte list" where
  "be_bytes 0 n = []"
| "be_bytes (Suc k) n = be_bytes k (n div 256) @ [of_nat (n mod 256)]"

definition be_value :: "byte list \<Rightarrow> nat" where
  "be_value bs = foldl (\<lambda>a b. a * 256 + unat b) 0 bs"

text \<open>\<open>mt | x\<close> is an addition: \<open>mt\<close> is the major type in the top three bits.\<close>

definition head :: "nat \<Rightarrow> u64 \<Rightarrow> byte list" where
  "head major n =
     (let mt = major * 32 in
      if n < 24 then [of_nat (mt + n)]
      else if n < 256 then of_nat (mt + 24) # be_bytes 1 n
      else if n < 65536 then of_nat (mt + 25) # be_bytes 2 n
      else if n < 4294967296 then of_nat (mt + 26) # be_bytes 4 n
      else of_nat (mt + 27) # be_bytes 8 n)"

section \<open>Floats by their bits\<close>

definition round_shift_right :: "nat \<Rightarrow> nat \<Rightarrow> nat" where
  "round_shift_right value shift =
     (if shift = 0 then value
      else if shift \<ge> 128 then 0
      else
        let quotient = value div 2 ^ shift;
            remainder = value mod 2 ^ shift;
            halfway = 2 ^ (shift - 1)
        in if remainder > halfway \<or> (remainder = halfway \<and> odd quotient)
           then quotient + 1 else quotient)"

text \<open>The sign bit, the biased exponent and the fraction of an \<open>f64\<close>.\<close>

definition f64_sign :: "64 word \<Rightarrow> nat" where
  "f64_sign v = unat v div 2 ^ 63"

definition f64_exp :: "64 word \<Rightarrow> nat" where
  "f64_exp v = unat v div 2 ^ 52 mod 2 ^ 11"

definition f64_frac :: "64 word \<Rightarrow> nat" where
  "f64_frac v = unat v mod 2 ^ 52"

definition f64_is_nan :: "64 word \<Rightarrow> bool" where
  "f64_is_nan v \<longleftrightarrow> f64_exp v = 2047 \<and> f64_frac v \<noteq> 0"

text \<open>\<open>f64::NAN\<close>\<close>

definition f64_nan :: "64 word" where
  "f64_nan = 9221120237041090560"

definition f64_to_f16_bits :: "64 word \<Rightarrow> nat option" where
  "f64_to_f16_bits v =
     (let sign = f64_sign v * 32768; exp = f64_exp v; frac = f64_frac v in
      if exp = 2047 then Some (if frac = 0 then sign + 31744 else 32256)
      else if exp = 0 then Some sign
      else
        let e = int exp - 1023; mant = 2 ^ 52 + frac in
        if e < - 14 then
          let sub = round_shift_right mant (nat (28 - e)) in
          if sub = 0 then Some sign
          else if sub \<ge> 1024 then Some (sign + 1024)
          else Some (sign + sub)
        else if e > 15 then None
        else
          let sig = round_shift_right mant 42 in
          if sig = 2048 then
            (if e + 16 \<ge> 31 then None else Some (sign + nat (e + 16) * 1024))
          else Some (sign + nat (e + 15) * 1024 + (sig - 1024)))"

text \<open>
  The double equal to \<open>m * 2 ^ e\<close>, for \<open>m\<close> of at most 53 bits and a value in the
  normal range: what the source's exact \<open>f64\<close> products and quotients compute.
\<close>

definition floor_log2 :: "nat \<Rightarrow> nat" where
  "floor_log2 m = length (takeWhile (\<lambda>i. 2 ^ Suc i \<le> m) [0..<64])"

definition f64_scaled :: "nat \<Rightarrow> int \<Rightarrow> nat" where
  "f64_scaled m e =
     (let p = floor_log2 m in
      nat (int p + e + 1023) * 2 ^ 52 + (m - 2 ^ p) * 2 ^ (52 - p))"

definition f16_bits_to_f64 :: "nat \<Rightarrow> 64 word" where
  "f16_bits_to_f64 bits =
     (let sign = bits div 32768 mod 2 * 2 ^ 63; exp = bits div 1024 mod 32; frac = bits mod 1024 in
      if exp = 0 then
        (if frac = 0 then of_nat sign else of_nat (sign + f64_scaled frac (- 24)))
      else if exp = 31 then
        (if frac = 0 then of_nat (sign + 9218868437227405312) else f64_nan)
      else of_nat (sign + f64_scaled (1024 + frac) (int exp - 25)))"

text \<open>
  The casts \<open>value as f32\<close> (round to nearest, ties to even) and \<open>single as f64\<close>. The
  language leaves the sign and payload of a NaN that a cast produces open; the model takes the
  quiet NaN, and no property depends on the choice.
\<close>

definition f64_to_f32_bits :: "64 word \<Rightarrow> nat" where
  "f64_to_f32_bits v =
     (let sign = f64_sign v * 2 ^ 31; exp = f64_exp v; frac = f64_frac v in
      if exp = 2047 then sign + (if frac = 0 then 2139095040 else 2143289344)
      else if exp = 0 then sign
      else
        let e = int exp - 1023; mant = 2 ^ 52 + frac in
        if e < - 126 then sign + round_shift_right mant (nat (- 97 - e))
        else
          let mag = nat (e + 127) * 2 ^ 23 + (round_shift_right mant 29 - 2 ^ 23) in
          sign + (if mag \<ge> 2139095040 then 2139095040 else mag))"

definition f32_bits_to_f64 :: "nat \<Rightarrow> 64 word" where
  "f32_bits_to_f64 bits =
     (let sign = bits div 2 ^ 31 mod 2 * 2 ^ 63; exp = bits div 2 ^ 23 mod 256; frac = bits mod 2 ^ 23 in
      if exp = 0 then
        (if frac = 0 then of_nat sign else of_nat (sign + f64_scaled frac (- 149)))
      else if exp = 255 then
        (if frac = 0 then of_nat (sign + 9218868437227405312) else f64_nan)
      else of_nat (sign + (exp + 896) * 2 ^ 52 + frac * 2 ^ 29))"

definition enc_float :: "64 word \<Rightarrow> byte list" where
  "enc_float v =
     (if f64_is_nan v then [0xf9, 0x7e, 0x00]
      else
        let wide =
          (let single = f64_to_f32_bits v in
           if f32_bits_to_f64 single = v then 0xfa # be_bytes 4 single
           else 0xfb # be_bytes 8 (unat v))
        in case f64_to_f16_bits v of
          Some bits \<Rightarrow> if f16_bits_to_f64 bits = v then 0xf9 # be_bytes 2 bits else wide
        | None \<Rightarrow> wide)"

section \<open>Encoder\<close>

definition string_bytes :: "string \<Rightarrow> byte list" where
  "string_bytes s = map of_char s"

definition string_of_bytes :: "byte list \<Rightarrow> string" where
  "string_of_bytes bs = map (\<lambda>b. char_of (unat b)) bs"

text \<open>\<open>entries.sort_by_key\<close> is a stable ascending sort by key.\<close>

function enc :: "cbor \<Rightarrow> byte list" where
  "enc (CInt n) = (if n \<ge> 0 then head 0 (i64_as_usize n) else head 1 (i64_as_usize (- 1 - n)))"
| "enc (CFloat x) = enc_float x"
| "enc (CBytes b) = head 2 (length b) @ b"
| "enc (CText s) = head 3 (length (string_bytes s)) @ string_bytes s"
| "enc (CArray a) = head 4 (length a) @ concat (map enc a)"
| "enc (CMap m) =
     head 5 (length m) @
     concat (map (\<lambda>e. head 0 (i64_as_usize (fst e)) @ enc (snd e)) (sort_key fst m))"
| "enc (CBool b) = [if b then 0xf5 else 0xf4]"
| "enc CNull = [0xf6]"
  by pat_completeness auto
termination
proof (relation "measure size", goal_cases)
  case (3 m e)
  then have "e \<in> set m" by simp
  then have "size (snd e) < Suc (size_list (size_prod (\<lambda>_. 0) size) m)"
    by (induction m) (auto simp: prod.size_gen split: prod.splits)
  then show ?case by simp
qed (auto simp: less_Suc_eq_le size_list_estimation')

definition encode :: "cbor \<Rightarrow> byte list" where
  "encode v = enc v"

section \<open>Decoder\<close>

definition take_at :: "byte list \<Rightarrow> usize \<Rightarrow> usize \<Rightarrow> decode_error + byte list" where
  "take_at data off len =
     and_then (ok_or Truncated (checked_add_u64 off len))
       (\<lambda>end. if end \<le> length data then Inr (take len (drop off data)) else Inl Truncated)"

definition read_arg :: "byte list \<Rightarrow> usize \<Rightarrow> nat \<Rightarrow> decode_error + (u64 \<times> usize)" where
  "read_arg data off info =
     (if info < 24 then Inr (info, off)
      else
        and_then
          (if info = 24 then
             and_then (take_at data off 1) (\<lambda>b. Inr (be_value b, off + 1))
           else if info = 25 then
             and_then (take_at data off 2) (\<lambda>b. Inr (be_value b, off + 2))
           else if info = 26 then
             and_then (take_at data off 4) (\<lambda>b. Inr (be_value b, off + 4))
           else if info = 27 then
             and_then (take_at data off 8) (\<lambda>b. Inr (be_value b, off + 8))
           else Inl (UnsupportedInfo info))
          (\<lambda>(value, next).
             let fits_shorter =
               (if info = 24 then value < 24
                else if info = 25 then value \<le> 255
                else if info = 26 then value \<le> 65535
                else if info = 27 then value \<le> 4294967295
                else False)
             in if fits_shorter then Inl (NonCanonicalInt value) else Inr (value, next)))"

definition enter :: "usize \<Rightarrow> usize \<Rightarrow> decode_error + unit" where
  "enter depth limit = (if depth \<ge> limit then Inl (TooDeep limit) else Inr ())"

definition i64_try_from :: "u64 \<Rightarrow> decode_error + i64" where
  "i64_try_from n = (if int n \<le> i64_max then Inr (int n) else Inl IntOverflow)"

definition map_key_of :: "cbor \<Rightarrow> decode_error + i64" where
  "map_key_of k = (case k of
     CInt i \<Rightarrow> if i < 0 then Inl (NegativeMapKey i) else Inr i
   | _ \<Rightarrow> Inl NonIntegerMapKey)"

text \<open>
  \<open>dec\<close> reads one item; \<open>dec_items\<close> and \<open>dec_entries\<close> are the loops of the array and the
  map case, with the number of items left and, for a map, the set of keys read so far.
  The recursion is bounded by the depth limit, and each loop by its count.
\<close>

function (sequential) dec ::
    "byte list \<Rightarrow> usize \<Rightarrow> usize \<Rightarrow> usize \<Rightarrow> decode_error + (cbor \<times> usize)"
  and dec_items ::
    "byte list \<Rightarrow> nat \<Rightarrow> usize \<Rightarrow> usize \<Rightarrow> usize \<Rightarrow> decode_error + (cbor list \<times> usize)"
  and dec_entries ::
    "byte list \<Rightarrow> nat \<Rightarrow> i64 list \<Rightarrow> usize \<Rightarrow> usize \<Rightarrow> usize
       \<Rightarrow> decode_error + ((i64 \<times> cbor) list \<times> usize)"
where
  "dec data off0 depth limit =
     (if off0 \<ge> length data then Inl Truncated
      else
        let initial = unat (data ! off0);
            major = initial div 32;
            info = initial mod 32;
            off = off0 + 1
        in
        if major = 0 then
          and_then (read_arg data off info) (\<lambda>(n, o1).
            and_then (i64_try_from n) (\<lambda>i. Inr (CInt i, o1)))
        else if major = 1 then
          and_then (read_arg data off info) (\<lambda>(n, o1).
            and_then (i64_try_from n) (\<lambda>i. Inr (CInt (- 1 - i), o1)))
        else if major = 2 then
          and_then (read_arg data off info) (\<lambda>(n, o1).
            and_then (take_at data o1 n) (\<lambda>b. Inr (CBytes b, o1 + n)))
        else if major = 3 then
          and_then (read_arg data off info) (\<lambda>(n, o1).
            and_then (take_at data o1 n) (\<lambda>b.
              if utf8_valid (string_of_bytes b) then Inr (CText (string_of_bytes b), o1 + n)
              else Inl InvalidUtf8))
        else if major = 4 then
          and_then (read_arg data off info) (\<lambda>(n, o1).
            and_then (enter depth limit) (\<lambda>_.
              and_then (dec_items data n o1 (depth + 1) limit) (\<lambda>(a, o2). Inr (CArray a, o2))))
        else if major = 5 then
          and_then (read_arg data off info) (\<lambda>(n, o1).
            and_then (enter depth limit) (\<lambda>_.
              and_then (dec_entries data n [] o1 (depth + 1) limit) (\<lambda>(m, o2). Inr (CMap m, o2))))
        else if major = 7 then
          (if info = 20 then Inr (CBool False, off)
           else if info = 21 then Inr (CBool True, off)
           else if info = 22 then Inr (CNull, off)
           else if info = 25 then
             and_then (take_at data off 2) (\<lambda>b. Inr (CFloat (f16_bits_to_f64 (be_value b)), off + 2))
           else if info = 26 then
             and_then (take_at data off 4) (\<lambda>b. Inr (CFloat (f32_bits_to_f64 (be_value b)), off + 4))
           else if info = 27 then
             and_then (take_at data off 8) (\<lambda>b. Inr (CFloat (of_nat (be_value b)), off + 8))
           else Inl (UnsupportedInfo info))
        else Inl (UnsupportedMajor major))"
| "dec_items data n o1 depth limit =
     (if n = 0 then Inr ([], o1)
      else and_then (dec data o1 depth limit) (\<lambda>(v, o2).
        and_then (dec_items data (n - 1) o2 depth limit) (\<lambda>(vs, o3). Inr (v # vs, o3))))"
| "dec_entries data n seen o1 depth limit =
     (if n = 0 then Inr ([], o1)
      else and_then (dec data o1 depth limit) (\<lambda>(k, o2).
        and_then (map_key_of k) (\<lambda>ki.
          if ki \<in> set seen then Inl (DuplicateMapKey (MK_Int ki))
          else and_then (dec data o2 depth limit) (\<lambda>(v, o3).
            and_then (dec_entries data (n - 1) (ki # seen) o3 depth limit)
              (\<lambda>(m, o4). Inr ((ki, v) # m, o4))))))"
  by pat_completeness auto
termination
  by (relation "measures
      [\<lambda>x. case x of Inl (data, off, depth, limit) \<Rightarrow> limit - depth
        | Inr (Inl (data, n, off, depth, limit)) \<Rightarrow> limit - depth
        | Inr (Inr (data, n, seen, off, depth, limit)) \<Rightarrow> limit - depth,
       \<lambda>x. case x of Inl _ \<Rightarrow> 0 | Inr (Inl _) \<Rightarrow> 1 | Inr (Inr _) \<Rightarrow> 1,
       \<lambda>x. case x of Inl _ \<Rightarrow> 0
        | Inr (Inl (data, n, off, depth, limit)) \<Rightarrow> n
        | Inr (Inr (data, n, seen, off, depth, limit)) \<Rightarrow> n]")
    (auto simp: enter_def split: if_splits)

declare dec.simps [simp del] dec_items.simps [simp del] dec_entries.simps [simp del]

text \<open>The source asserts that \<open>max_depth\<close> is at least 1; \<^const>\<open>None\<close> is that panic.\<close>

definition try_decode_with ::
    "byte list \<Rightarrow> usize \<Rightarrow> usize option \<Rightarrow> (decode_error + cbor) option" where
  "try_decode_with data max_depth max_encoded_len =
     (if max_depth < 1 then None
      else Some (
        let limit = min max_depth max_depth_ceiling in
        case max_encoded_len of
          Some bound \<Rightarrow>
            if length data > bound then Inl (TooLarge (length data) bound)
            else and_then (dec data 0 0 limit)
              (\<lambda>(v, off). if off \<noteq> length data then Inl TrailingBytes else Inr v)
        | None \<Rightarrow>
            and_then (dec data 0 0 limit)
              (\<lambda>(v, off). if off \<noteq> length data then Inl TrailingBytes else Inr v)))"

definition try_decode :: "byte list \<Rightarrow> decode_error + cbor" where
  "try_decode data = the (try_decode_with data default_max_depth None)"

definition try_decode_max :: "byte list \<Rightarrow> usize \<Rightarrow> decode_error + cbor" where
  "try_decode_max data max_encoded_len =
     the (try_decode_with data default_max_depth (Some max_encoded_len))"

section \<open>Canonical values and nesting\<close>

text \<open>
  The values the decoder gives back as they were: map keys in ascending order without
  duplicates, and not-a-number only in the one form the encoder writes. A plain value has
  neither floats nor byte strings. \<open>depth_ok\<close> says that the containers nest less deep than
  the limit.
\<close>

fun canonical :: "cbor \<Rightarrow> bool" where
  "canonical (CFloat x) \<longleftrightarrow> f64_is_nan x \<longrightarrow> x = f64_nan"
| "canonical (CArray a) \<longleftrightarrow> list_all canonical a"
| "canonical (CMap m) \<longleftrightarrow>
     sorted (map fst m) \<and> distinct (map fst m)
     \<and> list_all (\<lambda>e. 0 \<le> fst e \<and> canonical (snd e)) m"
| "canonical _ \<longleftrightarrow> True"

fun plain :: "cbor \<Rightarrow> bool" where
  "plain (CFloat x) \<longleftrightarrow> False"
| "plain (CBytes b) \<longleftrightarrow> False"
| "plain (CArray a) \<longleftrightarrow> list_all plain a"
| "plain (CMap m) \<longleftrightarrow> list_all (\<lambda>e. plain (snd e)) m"
| "plain _ \<longleftrightarrow> True"

fun depth_ok :: "usize \<Rightarrow> usize \<Rightarrow> cbor \<Rightarrow> bool" where
  "depth_ok d limit (CArray a) \<longleftrightarrow> d < limit \<and> list_all (depth_ok (d + 1) limit) a"
| "depth_ok d limit (CMap m) \<longleftrightarrow> d < limit \<and> list_all (\<lambda>e. depth_ok (d + 1) limit (snd e)) m"
| "depth_ok d limit _ \<longleftrightarrow> True"

abbreviation enc_entry :: "i64 \<times> cbor \<Rightarrow> byte list" where
  "enc_entry e \<equiv> head 0 (i64_as_usize (fst e)) @ enc (snd e)"

section \<open>Big-endian integers and strings\<close>

lemma be_bytes_length [simp]: "length (be_bytes k n) = k"
  by (induction k arbitrary: n) auto

lemma be_value_append [simp]: "be_value (bs @ [b]) = be_value bs * 256 + unat b"
  by (simp add: be_value_def)

lemma be_value_be_bytes: "n < 256 ^ k \<Longrightarrow> be_value (be_bytes k n) = n"
proof (induction k arbitrary: n)
  case 0
  then show ?case by (simp add: be_value_def)
next
  case (Suc k)
  have "n div 256 < 256 ^ k" using Suc.prems by (simp add: less_mult_imp_div_less)
  moreover have "unat (of_nat (n mod 256) :: byte) = n mod 256"
    by (simp add: unat_of_nat)
  ultimately show ?case using Suc.IH by simp
qed

section \<open>Reading a head\<close>

lemma take_at_append:
  "length pre + length b \<le> u64_max \<Longrightarrow> take_at (pre @ b @ post) (length pre) (length b) = Inr b"
  by (simp add: take_at_def checked_add_u64_def)

lemma unat_byte: "n < 256 \<Longrightarrow> unat (of_nat n :: byte) = n"
  by (simp add: unat_of_nat)

lemma head_initial:
  assumes "major < 8"
  obtains x rest where "head major n = x # rest" "unat x div 32 = major"
    "unat x mod 32 = (if n < 24 then n else if n < 256 then 24 else if n < 65536 then 25
       else if n < 4294967296 then 26 else 27)"
proof -
  have r: "unat (of_nat (major * 32 + k) :: byte) = major * 32 + k" if "k < 32" for k
    using assms that by (intro unat_byte) simp
  show ?thesis
    by (rule that [of "hd (head major n)" "tl (head major n)"])
      (auto simp: head_def Let_def r simp del: of_nat_add of_nat_mult)
qed

lemma read_arg_head:
  assumes "n \<le> u64_max" "length pre + length (head major n) \<le> u64_max"
  shows "read_arg (pre @ head major n @ post) (length pre + 1)
     (if n < 24 then n else if n < 256 then 24 else if n < 65536 then 25
       else if n < 4294967296 then 26 else 27)
   = Inr (n, length pre + length (head major n))"
proof -
  have t: "take_at (pre @ (x # be_bytes k n) @ post) (length pre + 1) k = Inr (be_bytes k n)"
    if "length pre + 1 + k \<le> u64_max" for x k
    using take_at_append [of "pre @ [x]" "be_bytes k n" post] that by simp
  have v: "n < 256 \<Longrightarrow> be_value (be_bytes 1 n) = n" "n < 65536 \<Longrightarrow> be_value (be_bytes 2 n) = n"
    "n < 4294967296 \<Longrightarrow> be_value (be_bytes 4 n) = n" "be_value (be_bytes 8 n) = n"
    using assms(1) be_value_be_bytes [of n 1] by (simp_all add: be_value_be_bytes u64_max_def)
  consider "n < 24" | "24 \<le> n" "n < 256" | "256 \<le> n" "n < 65536" | "65536 \<le> n" "n < 4294967296"
    | "4294967296 \<le> n" by linarith
  then show ?thesis
  proof cases
    case 1 then show ?thesis by (simp add: read_arg_def head_def Let_def)
  next
    case 2 then show ?thesis using assms(2) t [of 1] v
      by (simp add: read_arg_def head_def Let_def del: be_bytes.simps)
  next
    case 3 then show ?thesis using assms(2) t [of 2] v
      by (simp add: read_arg_def head_def Let_def del: be_bytes.simps)
  next
    case 4 then show ?thesis using assms(2) t [of 4] v
      by (simp add: read_arg_def head_def Let_def del: be_bytes.simps)
  next
    case 5 then show ?thesis using assms(2) t [of 8] v
      by (simp add: read_arg_def head_def Let_def del: be_bytes.simps)
  qed
qed


text \<open>A head in front of the decoder: its major type and argument decide the rest.\<close>

lemma dec_head:
  assumes data: "data = pre @ head major n @ post" and "length data \<le> u64_max"
    and "n \<le> u64_max" and major: "major < 6"
  shows "dec data (length pre) depth limit =
    (let o1 = length pre + length (head major n) in
     if major = 0 then and_then (i64_try_from n) (\<lambda>i. Inr (CInt i, o1))
     else if major = 1 then and_then (i64_try_from n) (\<lambda>i. Inr (CInt (- 1 - i), o1))
     else if major = 2 then and_then (take_at data o1 n) (\<lambda>b. Inr (CBytes b, o1 + n))
     else if major = 3 then and_then (take_at data o1 n) (\<lambda>b.
         if utf8_valid (string_of_bytes b) then Inr (CText (string_of_bytes b), o1 + n)
         else Inl InvalidUtf8)
     else if major = 4 then and_then (enter depth limit) (\<lambda>_.
         and_then (dec_items data n o1 (depth + 1) limit) (\<lambda>(a, o2). Inr (CArray a, o2)))
     else and_then (enter depth limit) (\<lambda>_.
         and_then (dec_entries data n [] o1 (depth + 1) limit) (\<lambda>(m, o2). Inr (CMap m, o2))))"
proof -
  obtain x rest where h: "head major n = x # rest" "unat x div 32 = major"
    "unat x mod 32 = (if n < 24 then n else if n < 256 then 24 else if n < 65536 then 25
       else if n < 4294967296 then 26 else 27)"
    using major by (auto intro: head_initial [of major n])
  have r: "read_arg data (length pre + 1) (unat x mod 32) = Inr (n, length pre + length (head major n))"
    using read_arg_head [of n pre major post] assms h(3) by simp
  have x: "data ! length pre = x" "\<not> length data \<le> length pre"
    using h(1) data by simp_all
  show ?thesis
    unfolding dec.simps [of data] Let_def x h(2) r using x(2) major by auto
qed

lemma string_bytes_inverse [simp]: "string_of_bytes (string_bytes s) = s"
proof -
  have "unat (of_char c :: byte) = of_char c" for c
    using unat_byte [of "of_char c"] by (simp add: of_nat_of_char)
  then show ?thesis by (simp add: string_of_bytes_def string_bytes_def comp_def)
qed

lemma string_bytes_length [simp]: "length (string_bytes s) = length s"
  by (simp add: string_bytes_def)

section \<open>Decoding what was encoded\<close>

lemma enc_not_Nil: "enc t \<noteq> []"
  by (cases t) (auto simp: head_def enc_float_def Let_def split: option.splits)

lemma length_le_concat: "(\<And>x. f x \<noteq> []) \<Longrightarrow> length xs \<le> length (concat (map f xs))"
proof (induction xs)
  case (Cons x xs)
  have "0 < length (f x)" using Cons.prems [of x] by simp
  then show ?case
    using Cons.IH [OF Cons.prems] unfolding list.map concat.simps length_append list.size by linarith
qed simp

lemma dec_CInt:
  assumes "in_i64 n" "length (pre @ enc (CInt n) @ post) \<le> u64_max"
  shows "dec (pre @ enc (CInt n) @ post) (length pre) depth limit
    = Inr (CInt n, length pre + length (enc (CInt n)))"
proof (cases "0 \<le> n")
  case True
  then have "enc (CInt n) = head 0 (nat n)" using assms(1) by (simp add: i64_as_usize_nonneg arith_defs)
  then show ?thesis
    using True assms dec_head [of _ pre 0 "nat n" post depth limit]
    by (simp add: i64_try_from_def arith_defs)
next
  case False
  then have "enc (CInt n) = head 1 (nat (- 1 - n))"
    using assms(1) by (simp add: i64_as_usize_nonneg arith_defs)
  then show ?thesis
    using False assms dec_head [of _ pre 1 "nat (- 1 - n)" post depth limit]
    by (simp add: i64_try_from_def arith_defs)
qed

lemma dec_items_enc:
  assumes "\<And>t pre post. t \<in> set a \<Longrightarrow> length (pre @ enc t @ post) \<le> u64_max \<Longrightarrow>
      dec (pre @ enc t @ post) (length pre) depth limit = Inr (t, length pre + length (enc t))"
    and "data = pre @ concat (map enc a) @ post" "length data \<le> u64_max"
  shows "dec_items data (length a) (length pre) depth limit
    = Inr (a, length pre + length (concat (map enc a)))"
  using assms
proof (induction a arbitrary: pre)
  case Nil
  then show ?case by (simp add: dec_items.simps)
next
  case (Cons t a)
  let ?pre = "pre @ enc t"
  have "dec data (length pre) depth limit = Inr (t, length ?pre)"
    using Cons.prems(1) [of t pre "concat (map enc a) @ post"] Cons.prems(2,3) by simp
  moreover have "dec_items data (length a) (length ?pre) depth limit
      = Inr (a, length ?pre + length (concat (map enc a)))"
    using Cons.IH [of ?pre] Cons.prems by simp
  ultimately show ?case by (simp add: dec_items.simps [of data "Suc (length a)"])
qed

lemma dec_entries_enc:
  assumes "\<And>e pre post. e \<in> set m \<Longrightarrow> length (pre @ enc (snd e) @ post) \<le> u64_max \<Longrightarrow>
      dec (pre @ enc (snd e) @ post) (length pre) depth limit
        = Inr (snd e, length pre + length (enc (snd e)))"
    and "data = pre @ concat (map enc_entry m) @ post" "length data \<le> u64_max"
    and "list_all (\<lambda>e. 0 \<le> fst e \<and> in_i64 (fst e)) m"
    and "distinct (map fst m)" "set (map fst m) \<inter> set seen = {}"
  shows "dec_entries data (length m) seen (length pre) depth limit
    = Inr (m, length pre + length (concat (map enc_entry m)))"
  using assms
proof (induction m arbitrary: pre seen)
  case Nil
  then show ?case by (simp add: dec_entries.simps)
next
  case (Cons e m)
  obtain k t where e: "e = (k, t)" by fastforce
  let ?head = "head 0 (i64_as_usize k)"
  let ?k = "pre @ ?head" and ?pre = "pre @ enc_entry e"
  have "0 \<le> k" "in_i64 k" using Cons.prems(4) e by simp_all
  then have "dec data (length pre) depth limit = Inr (CInt k, length ?k)"
    using dec_CInt [of k pre "enc t @ concat (map enc_entry m) @ post"] Cons.prems(2,3) e by simp
  moreover have "dec data (length ?k) depth limit = Inr (t, length ?pre)"
    using Cons.prems(1) [of e ?k "concat (map enc_entry m) @ post"] Cons.prems(2,3) e by simp
  moreover have "dec_entries data (length m) (k # seen) (length ?pre) depth limit
      = Inr (m, length ?pre + length (concat (map enc_entry m)))"
    using Cons.IH [of ?pre "k # seen"] Cons.prems e by auto
  ultimately show ?case
    using \<open>0 \<le> k\<close> Cons.prems(6) e
    by (simp add: dec_entries.simps [of data "Suc (length m)"] map_key_of_def)
qed


section \<open>Floats\<close>

lemma round_shift_right_le: "shift > 0 \<Longrightarrow> round_shift_right v shift \<le> v div 2 ^ shift + 1"
  by (simp add: round_shift_right_def Let_def)

lemma f64_parts: "f64_sign v < 2" "f64_exp v < 2048" "f64_frac v < 4503599627370496"
proof -
  have "unat v < 2 ^ 64" using unsigned_less [of v] by simp
  then show "f64_sign v < 2" by (simp add: f64_sign_def less_mult_imp_div_less)
qed (simp_all add: f64_exp_def f64_frac_def)

lemma f64_to_f16_bits_bound:
  assumes "f64_to_f16_bits v = Some bits"
  shows "bits < 65536"
proof -
  have sig: "round_shift_right (4503599627370496 + f64_frac v) 42 \<le> 2048"
  proof -
    have "(4503599627370496 + f64_frac v) div 2 ^ 42 < 2048"
      using f64_parts(3) [of v] by (intro less_mult_imp_div_less) simp
    then show ?thesis using round_shift_right_le [of 42 "4503599627370496 + f64_frac v"] by simp
  qed
  show ?thesis
    using assms sig f64_parts [of v]
    by (auto simp: f64_to_f16_bits_def Let_def less_2_cases_iff split: if_splits)
qed

lemma f64_to_f32_bits_bound: "f64_to_f32_bits v < 4294967296"
proof -
  have sub: "round_shift_right (4503599627370496 + f64_frac v) (nat (- 97 - e)) < 2139095040"
    if "e < - 126" for e
  proof -
    have "(4503599627370496 + f64_frac v) div 2 ^ nat (- 97 - e) \<le> (4503599627370496 + f64_frac v) div 2 ^ 30"
      using that power_increasing [of 30 "nat (- 97 - e)" "2 :: nat"] by (intro div_le_mono2) simp_all
    also have "\<dots> < 8388608"
      using f64_parts(3) [of v] by (intro less_mult_imp_div_less) simp
    finally show ?thesis
      using round_shift_right_le [of "nat (- 97 - e)" "4503599627370496 + f64_frac v"] that by simp
  qed
  show ?thesis
    using sub [of "int (f64_exp v) - 1023"] f64_parts [of v]
    by (auto simp: f64_to_f32_bits_def Let_def less_2_cases_iff intro: less_trans)
qed

lemma enc_float_cases:
  "f64_is_nan v
   \<or> (\<exists>bits < 65536. enc_float v = 0xf9 # be_bytes 2 bits \<and> f16_bits_to_f64 bits = v)
   \<or> enc_float v = 0xfa # be_bytes 4 (f64_to_f32_bits v) \<and> f32_bits_to_f64 (f64_to_f32_bits v) = v
   \<or> enc_float v = 0xfb # be_bytes 8 (unat v)"
  using f64_to_f16_bits_bound [of v]
  by (cases "f64_to_f16_bits v"; cases "f32_bits_to_f64 (f64_to_f32_bits v) = v")
    (auto simp: enc_float_def Let_def)

lemma dec_float:
  assumes "canonical (CFloat v)" "length (pre @ enc_float v @ post) \<le> u64_max"
  shows "dec (pre @ enc_float v @ post) (length pre) depth limit
    = Inr (CFloat v, length pre + length (enc_float v))"
proof -
  have step: "dec (pre @ (x # be_bytes k n) @ post) (length pre) depth limit
      = Inr (CFloat (conv n), length pre + (1 + k))"
    if "(x, k, conv) \<in> {(0xf9, 2, f16_bits_to_f64), (0xfa, 4, f32_bits_to_f64), (0xfb, 8, of_nat)}"
      and "n < 256 ^ k" "length (pre @ (x # be_bytes k n) @ post) \<le> u64_max" for x k n conv
  proof -
    have "take_at (pre @ (x # be_bytes k n) @ post) (length pre + 1) k = Inr (be_bytes k n)"
      using take_at_append [of "pre @ [x]" "be_bytes k n" post] that(3) by simp
    then show ?thesis
      using that be_value_be_bytes [OF that(2)] by (auto simp: dec.simps Let_def)
  qed
  have wide: "unat v < 256 ^ 8" using unsigned_less [of v] by simp
  have "be_bytes 2 32256 = [126, 0]" by (simp add: numeral_2_eq_2)
  then have nan: "enc_float f64_nan = 0xf9 # be_bytes 2 32256" "f16_bits_to_f64 32256 = f64_nan"
    by (simp_all add: enc_float_def f64_is_nan_def f64_exp_def f64_frac_def f64_nan_def
        f16_bits_to_f64_def)
  consider "v = f64_nan"
    | bits where "enc_float v = 0xf9 # be_bytes 2 bits" "bits < 65536" "f16_bits_to_f64 bits = v"
    | "enc_float v = 0xfa # be_bytes 4 (f64_to_f32_bits v)" "f32_bits_to_f64 (f64_to_f32_bits v) = v"
    | "enc_float v = 0xfb # be_bytes 8 (unat v)"
    using assms(1) enc_float_cases [of v] by auto
  then show ?thesis
  proof cases
    case 1
    then show ?thesis using step [of "0xf9" 2 f16_bits_to_f64 32256] assms(2) nan by simp
  next
    case 2
    then show ?thesis using step [of "0xf9" 2 f16_bits_to_f64 bits] assms(2) by simp
  next
    case 3
    then show ?thesis
      using step [of "0xfa" 4 f32_bits_to_f64 "f64_to_f32_bits v"] f64_to_f32_bits_bound [of v] assms(2)
      by simp
  next
    case 4
    then show ?thesis using step [of "0xfb" 8 of_nat "unat v"] wide assms(2) by simp
  qed
qed

section \<open>The round trip\<close>

lemma dec_enc:
  "rust_cbor t \<Longrightarrow> canonical t \<Longrightarrow> depth_ok depth limit t \<Longrightarrow> length (pre @ enc t @ post) \<le> u64_max
    \<Longrightarrow> dec (pre @ enc t @ post) (length pre) depth limit = Inr (t, length pre + length (enc t))"
proof (induction t arbitrary: pre post depth rule: enc.induct)
  case (1 n)
  then show ?case using dec_CInt by simp
next
  case (2 x)
  then show ?case using dec_float by simp
next
  case (3 b)
  then show ?case
    using dec_head [of _ pre 2 "length b" "b @ post" depth limit]
      take_at_append [of "pre @ head 2 (length b)" b post] by simp
next
  case (4 s)
  then show ?case
    using dec_head [of _ pre 3 "length s" "string_bytes s @ post" depth limit]
      take_at_append [of "pre @ head 3 (length s)" "string_bytes s" post] by simp
next
  case (5 a)
  have "length a \<le> length (concat (map enc a))" by (rule length_le_concat) (rule enc_not_Nil)
  then have "dec (pre @ enc (CArray a) @ post) (length pre) depth limit =
      and_then (enter depth limit) (\<lambda>_. and_then (dec_items (pre @ enc (CArray a) @ post) (length a)
        (length (pre @ head 4 (length a))) (depth + 1) limit) (\<lambda>(a, o2). Inr (CArray a, o2)))"
    using dec_head [of _ pre 4 "length a" "concat (map enc a) @ post" depth limit] 5(5) by simp
  also have "\<dots> = Inr (CArray a, length pre + length (enc (CArray a)))"
    using 5 dec_items_enc [of a "depth + 1" limit _ "pre @ head 4 (length a)" post]
    by (simp add: enter_def list_all_iff)
  finally show ?case .
next
  case (6 m)
  have sort: "sort_key fst m = m" using 6(3) by (simp add: sorted_sort_id sort_key_id_if_sorted)
  have "length m \<le> length (concat (map enc_entry m))"
    by (rule length_le_concat) (simp add: enc_not_Nil)
  then have "dec (pre @ enc (CMap m) @ post) (length pre) depth limit =
      and_then (enter depth limit) (\<lambda>_. and_then (dec_entries (pre @ enc (CMap m) @ post) (length m) []
        (length (pre @ head 5 (length m))) (depth + 1) limit) (\<lambda>(m, o2). Inr (CMap m, o2)))"
    using dec_head [of _ pre 5 "length m" "concat (map enc_entry m) @ post" depth limit] 6(5) sort by simp
  also have "\<dots> = Inr (CMap m, length pre + length (enc (CMap m)))"
    using 6 sort dec_entries_enc [of m "depth + 1" limit _ "pre @ head 5 (length m)" post "[]"]
    by (simp add: enter_def list_all_iff)
  finally show ?case .
qed (simp_all add: dec.simps Let_def)

section \<open>Properties\<close>

text \<open>
  C4: decoding is the inverse of encoding. Every canonical value of the Rust type (map keys
  ascending, distinct and non-negative) that nests within the decoder's depth limit is read
  back from its encoding as the very same value, and the whole encoding is consumed.
\<close>

theorem cbor_roundtrip:
  assumes "rust_cbor t" "canonical t" "depth_ok 0 (min d max_depth_ceiling) t" "1 \<le> d"
    "length (encode t) \<le> u64_max"
  shows "try_decode_with (encode t) d None = Some (Inr t)"
  using dec_enc [OF assms(1,2,3), of "[]" "[]"] assms(4,5)
  by (simp add: try_decode_with_def encode_def)

theorem cbor_roundtrip_witness:
  "try_decode_with (encode (CMap [(1, CInt (- 5)), (2, CArray [CText ''a'', CBool True])])) 2 None
    = Some (Inr (CMap [(1, CInt (- 5)), (2, CArray [CText ''a'', CBool True])]))"
  by (rule cbor_roundtrip)
    (simp_all add: arith_defs max_depth_ceiling_def utf8_valid_def str_bytes_def utf8_scan.simps
      utf8_width_def encode_def head_def string_bytes_def)

end
