(* ===== verification/Protocol.thy ===== *)
theory Protocol
  imports Cbor
begin

text \<open>
  The transport protocol's types, \<open>src/protocol.rs\<close>: one \<^theory_text>\<open>datatype\<close> per enum with its
  wire numbers, one \<^theory_text>\<open>record\<close> per struct. The constructors carry the enum as a
  prefix (\<open>MessageKind::Open\<close> is \<open>Kind_Open\<close>), the fields a short form of the struct's
  name (\<open>Envelope::kind\<close> is \<open>env_kind\<close>). The codec of these types is in
  \<open>Protocol_Codec\<close>.

  What every enum promises its users, that its wire number is a single CBOR byte and reads
  back, is the locale \<open>wire_enum\<close>.
\<close>

section \<open>Enums\<close>

datatype message_kind =
    Kind_Bind
  | Kind_Bound
  | Kind_BindRejected
  | Kind_Open
  | Kind_Opened
  | Kind_OpenFailed
  | Kind_Data
  | Kind_Window
  | Kind_Flush
  | Kind_Flushed
  | Kind_EndWrite
  | Kind_Close
  | Kind_Closed
  | Kind_Cancel
  | Kind_Failed
  | Kind_CheckIdentity
  | Kind_IdentityChecked
  | Kind_IdentityCheckFailed

fun message_kind_wire :: "message_kind \<Rightarrow> i64" where
  "message_kind_wire Kind_Bind = 1"
| "message_kind_wire Kind_Bound = 2"
| "message_kind_wire Kind_BindRejected = 3"
| "message_kind_wire Kind_Open = 4"
| "message_kind_wire Kind_Opened = 5"
| "message_kind_wire Kind_OpenFailed = 6"
| "message_kind_wire Kind_Data = 7"
| "message_kind_wire Kind_Window = 8"
| "message_kind_wire Kind_Flush = 9"
| "message_kind_wire Kind_Flushed = 10"
| "message_kind_wire Kind_EndWrite = 11"
| "message_kind_wire Kind_Close = 12"
| "message_kind_wire Kind_Closed = 13"
| "message_kind_wire Kind_Cancel = 14"
| "message_kind_wire Kind_Failed = 15"
| "message_kind_wire Kind_CheckIdentity = 16"
| "message_kind_wire Kind_IdentityChecked = 17"
| "message_kind_wire Kind_IdentityCheckFailed = 18"

definition message_kind_from_wire :: "i64 \<Rightarrow> decode_error + message_kind" where
  "message_kind_from_wire v =
     (if v = 1 then Inr Kind_Bind
      else if v = 2 then Inr Kind_Bound
      else if v = 3 then Inr Kind_BindRejected
      else if v = 4 then Inr Kind_Open
      else if v = 5 then Inr Kind_Opened
      else if v = 6 then Inr Kind_OpenFailed
      else if v = 7 then Inr Kind_Data
      else if v = 8 then Inr Kind_Window
      else if v = 9 then Inr Kind_Flush
      else if v = 10 then Inr Kind_Flushed
      else if v = 11 then Inr Kind_EndWrite
      else if v = 12 then Inr Kind_Close
      else if v = 13 then Inr Kind_Closed
      else if v = 14 then Inr Kind_Cancel
      else if v = 15 then Inr Kind_Failed
      else if v = 16 then Inr Kind_CheckIdentity
      else if v = 17 then Inr Kind_IdentityChecked
      else if v = 18 then Inr Kind_IdentityCheckFailed
      else Inl (UnknownEnum ''MessageKind'' v))"

datatype endpoint_role =
    Role_Local
  | Role_Driver

fun endpoint_role_wire :: "endpoint_role \<Rightarrow> i64" where
  "endpoint_role_wire Role_Local = 1"
| "endpoint_role_wire Role_Driver = 2"

definition endpoint_role_from_wire :: "i64 \<Rightarrow> decode_error + endpoint_role" where
  "endpoint_role_from_wire v =
     (if v = 1 then Inr Role_Local
      else if v = 2 then Inr Role_Driver
      else Inl (UnknownEnum ''EndpointRole'' v))"

datatype scheme =
    Scheme_Ssh
  | Scheme_Https

fun scheme_wire :: "scheme \<Rightarrow> i64" where
  "scheme_wire Scheme_Ssh = 1"
| "scheme_wire Scheme_Https = 2"

definition scheme_from_wire :: "i64 \<Rightarrow> decode_error + scheme" where
  "scheme_from_wire v =
     (if v = 1 then Inr Scheme_Ssh
      else if v = 2 then Inr Scheme_Https
      else Inl (UnknownEnum ''Scheme'' v))"

datatype auth_policy =
    Policy_SshAmbient
  | Policy_SshExplicit
  | Policy_Anonymous
  | Policy_Gh
  | Policy_WindowsConfigured
  | Policy_WindowsDefault

fun auth_policy_wire :: "auth_policy \<Rightarrow> i64" where
  "auth_policy_wire Policy_SshAmbient = 1"
| "auth_policy_wire Policy_SshExplicit = 2"
| "auth_policy_wire Policy_Anonymous = 3"
| "auth_policy_wire Policy_Gh = 4"
| "auth_policy_wire Policy_WindowsConfigured = 5"
| "auth_policy_wire Policy_WindowsDefault = 6"

definition auth_policy_from_wire :: "i64 \<Rightarrow> decode_error + auth_policy" where
  "auth_policy_from_wire v =
     (if v = 1 then Inr Policy_SshAmbient
      else if v = 2 then Inr Policy_SshExplicit
      else if v = 3 then Inr Policy_Anonymous
      else if v = 4 then Inr Policy_Gh
      else if v = 5 then Inr Policy_WindowsConfigured
      else if v = 6 then Inr Policy_WindowsDefault
      else Inl (UnknownEnum ''AuthPolicy'' v))"

datatype git_service =
    Service_UploadPackAdvertisement
  | Service_UploadPackExchange
  | Service_ReceivePackAdvertisement
  | Service_ReceivePackExchange

fun git_service_wire :: "git_service \<Rightarrow> i64" where
  "git_service_wire Service_UploadPackAdvertisement = 1"
| "git_service_wire Service_UploadPackExchange = 2"
| "git_service_wire Service_ReceivePackAdvertisement = 3"
| "git_service_wire Service_ReceivePackExchange = 4"

definition git_service_from_wire :: "i64 \<Rightarrow> decode_error + git_service" where
  "git_service_from_wire v =
     (if v = 1 then Inr Service_UploadPackAdvertisement
      else if v = 2 then Inr Service_UploadPackExchange
      else if v = 3 then Inr Service_ReceivePackAdvertisement
      else if v = 4 then Inr Service_ReceivePackExchange
      else Inl (UnknownEnum ''GitService'' v))"

datatype identity_mode =
    Identity_Ambient
  | Identity_ExplicitKey
  | Identity_CredentialsDisabled

fun identity_mode_wire :: "identity_mode \<Rightarrow> i64" where
  "identity_mode_wire Identity_Ambient = 1"
| "identity_mode_wire Identity_ExplicitKey = 2"
| "identity_mode_wire Identity_CredentialsDisabled = 3"

definition identity_mode_from_wire :: "i64 \<Rightarrow> decode_error + identity_mode" where
  "identity_mode_from_wire v =
     (if v = 1 then Inr Identity_Ambient
      else if v = 2 then Inr Identity_ExplicitKey
      else if v = 3 then Inr Identity_CredentialsDisabled
      else Inl (UnknownEnum ''IdentityMode'' v))"

datatype error_code =
    Code_UnsupportedVersion
  | Code_UnsupportedOperation
  | Code_Unavailable
  | Code_InvalidRequest
  | Code_Capacity
  | Code_Timeout
  | Code_Cancelled
  | Code_Authentication
  | Code_Trust
  | Code_Io
  | Code_Protocol
  | Code_CarrierLost
  | Code_RepositoryRefused

fun error_code_wire :: "error_code \<Rightarrow> i64" where
  "error_code_wire Code_UnsupportedVersion = 1"
| "error_code_wire Code_UnsupportedOperation = 2"
| "error_code_wire Code_Unavailable = 3"
| "error_code_wire Code_InvalidRequest = 4"
| "error_code_wire Code_Capacity = 5"
| "error_code_wire Code_Timeout = 6"
| "error_code_wire Code_Cancelled = 7"
| "error_code_wire Code_Authentication = 8"
| "error_code_wire Code_Trust = 9"
| "error_code_wire Code_Io = 10"
| "error_code_wire Code_Protocol = 11"
| "error_code_wire Code_CarrierLost = 12"
| "error_code_wire Code_RepositoryRefused = 13"

definition error_code_from_wire :: "i64 \<Rightarrow> decode_error + error_code" where
  "error_code_from_wire v =
     (if v = 1 then Inr Code_UnsupportedVersion
      else if v = 2 then Inr Code_UnsupportedOperation
      else if v = 3 then Inr Code_Unavailable
      else if v = 4 then Inr Code_InvalidRequest
      else if v = 5 then Inr Code_Capacity
      else if v = 6 then Inr Code_Timeout
      else if v = 7 then Inr Code_Cancelled
      else if v = 8 then Inr Code_Authentication
      else if v = 9 then Inr Code_Trust
      else if v = 10 then Inr Code_Io
      else if v = 11 then Inr Code_Protocol
      else if v = 12 then Inr Code_CarrierLost
      else if v = 13 then Inr Code_RepositoryRefused
      else Inl (UnknownEnum ''ErrorCode'' v))"

datatype setup_failure_cause =
    Setup_Stall
  | Setup_Aggregate
  | Setup_Interaction
  | Setup_Allocation
  | Setup_ConnectionRefused
  | Setup_NotFound
  | Setup_AddressNotAvailable

fun setup_failure_cause_wire :: "setup_failure_cause \<Rightarrow> i64" where
  "setup_failure_cause_wire Setup_Stall = 1"
| "setup_failure_cause_wire Setup_Aggregate = 2"
| "setup_failure_cause_wire Setup_Interaction = 3"
| "setup_failure_cause_wire Setup_Allocation = 4"
| "setup_failure_cause_wire Setup_ConnectionRefused = 5"
| "setup_failure_cause_wire Setup_NotFound = 6"
| "setup_failure_cause_wire Setup_AddressNotAvailable = 7"

definition setup_failure_cause_from_wire :: "i64 \<Rightarrow> decode_error + setup_failure_cause" where
  "setup_failure_cause_from_wire v =
     (if v = 1 then Inr Setup_Stall
      else if v = 2 then Inr Setup_Aggregate
      else if v = 3 then Inr Setup_Interaction
      else if v = 4 then Inr Setup_Allocation
      else if v = 5 then Inr Setup_ConnectionRefused
      else if v = 6 then Inr Setup_NotFound
      else if v = 7 then Inr Setup_AddressNotAvailable
      else Inl (UnknownEnum ''SetupFailureCause'' v))"

datatype helper_failure_cause =
    Helper_PipeFailure
  | Helper_OutputLimit
  | Helper_ControlCharacter
  | Helper_UsernameColon
  | Helper_NotUtf8
  | Helper_MissingNewline
  | Helper_MissingField
  | Helper_MalformedOutput
  | Helper_NoHelper
  | Helper_Declined
  | Helper_ConfigurationRefused

fun helper_failure_cause_wire :: "helper_failure_cause \<Rightarrow> i64" where
  "helper_failure_cause_wire Helper_PipeFailure = 1"
| "helper_failure_cause_wire Helper_OutputLimit = 2"
| "helper_failure_cause_wire Helper_ControlCharacter = 3"
| "helper_failure_cause_wire Helper_UsernameColon = 4"
| "helper_failure_cause_wire Helper_NotUtf8 = 5"
| "helper_failure_cause_wire Helper_MissingNewline = 6"
| "helper_failure_cause_wire Helper_MissingField = 7"
| "helper_failure_cause_wire Helper_MalformedOutput = 8"
| "helper_failure_cause_wire Helper_NoHelper = 9"
| "helper_failure_cause_wire Helper_Declined = 10"
| "helper_failure_cause_wire Helper_ConfigurationRefused = 11"

definition helper_failure_cause_from_wire :: "i64 \<Rightarrow> decode_error + helper_failure_cause" where
  "helper_failure_cause_from_wire v =
     (if v = 1 then Inr Helper_PipeFailure
      else if v = 2 then Inr Helper_OutputLimit
      else if v = 3 then Inr Helper_ControlCharacter
      else if v = 4 then Inr Helper_UsernameColon
      else if v = 5 then Inr Helper_NotUtf8
      else if v = 6 then Inr Helper_MissingNewline
      else if v = 7 then Inr Helper_MissingField
      else if v = 8 then Inr Helper_MalformedOutput
      else if v = 9 then Inr Helper_NoHelper
      else if v = 10 then Inr Helper_Declined
      else if v = 11 then Inr Helper_ConfigurationRefused
      else Inl (UnknownEnum ''HelperFailureCause'' v))"

datatype capacity_cause =
    CapCause_ServerThrottle
  | CapCause_ServerRetryAfter
  | CapCause_Local

fun capacity_cause_wire :: "capacity_cause \<Rightarrow> i64" where
  "capacity_cause_wire CapCause_ServerThrottle = 1"
| "capacity_cause_wire CapCause_ServerRetryAfter = 2"
| "capacity_cause_wire CapCause_Local = 3"

definition capacity_cause_from_wire :: "i64 \<Rightarrow> decode_error + capacity_cause" where
  "capacity_cause_from_wire v =
     (if v = 1 then Inr CapCause_ServerThrottle
      else if v = 2 then Inr CapCause_ServerRetryAfter
      else if v = 3 then Inr CapCause_Local
      else Inl (UnknownEnum ''CapacityCause'' v))"

datatype capacity_signal =
    Signal_Http429
  | Signal_Http503

fun capacity_signal_wire :: "capacity_signal \<Rightarrow> i64" where
  "capacity_signal_wire Signal_Http429 = 1"
| "capacity_signal_wire Signal_Http503 = 2"

definition capacity_signal_from_wire :: "i64 \<Rightarrow> decode_error + capacity_signal" where
  "capacity_signal_from_wire v =
     (if v = 1 then Inr Signal_Http429
      else if v = 2 then Inr Signal_Http503
      else Inl (UnknownEnum ''CapacitySignal'' v))"

datatype effect =
    Effect_None
  | Effect_Possible

fun effect_wire :: "effect \<Rightarrow> i64" where
  "effect_wire Effect_None = 1"
| "effect_wire Effect_Possible = 2"

definition effect_from_wire :: "i64 \<Rightarrow> decode_error + effect" where
  "effect_from_wire v =
     (if v = 1 then Inr Effect_None
      else if v = 2 then Inr Effect_Possible
      else Inl (UnknownEnum ''Effect'' v))"

datatype disposition =
    Disp_Reusable
  | Disp_Discarded

fun disposition_wire :: "disposition \<Rightarrow> i64" where
  "disposition_wire Disp_Reusable = 1"
| "disposition_wire Disp_Discarded = 2"

definition disposition_from_wire :: "i64 \<Rightarrow> decode_error + disposition" where
  "disposition_from_wire v =
     (if v = 1 then Inr Disp_Reusable
      else if v = 2 then Inr Disp_Discarded
      else Inl (UnknownEnum ''Disposition'' v))"

datatype auth_method =
    Method_None
  | Method_SshAgent
  | Method_SshKey
  | Method_Gh
  | Method_Sspi

fun auth_method_wire :: "auth_method \<Rightarrow> i64" where
  "auth_method_wire Method_None = 1"
| "auth_method_wire Method_SshAgent = 2"
| "auth_method_wire Method_SshKey = 3"
| "auth_method_wire Method_Gh = 4"
| "auth_method_wire Method_Sspi = 5"

definition auth_method_from_wire :: "i64 \<Rightarrow> decode_error + auth_method" where
  "auth_method_from_wire v =
     (if v = 1 then Inr Method_None
      else if v = 2 then Inr Method_SshAgent
      else if v = 3 then Inr Method_SshKey
      else if v = 4 then Inr Method_Gh
      else if v = 5 then Inr Method_Sspi
      else Inl (UnknownEnum ''AuthMethod'' v))"

datatype native_source =
    NSource_Configured
  | NSource_CurrentLogon

fun native_source_wire :: "native_source \<Rightarrow> i64" where
  "native_source_wire NSource_Configured = 1"
| "native_source_wire NSource_CurrentLogon = 2"

definition native_source_from_wire :: "i64 \<Rightarrow> decode_error + native_source" where
  "native_source_from_wire v =
     (if v = 1 then Inr NSource_Configured
      else if v = 2 then Inr NSource_CurrentLogon
      else Inl (UnknownEnum ''NativeSource'' v))"

datatype native_scheme =
    NScheme_Negotiate
  | NScheme_Ntlm
  | NScheme_Digest

fun native_scheme_wire :: "native_scheme \<Rightarrow> i64" where
  "native_scheme_wire NScheme_Negotiate = 1"
| "native_scheme_wire NScheme_Ntlm = 2"
| "native_scheme_wire NScheme_Digest = 3"

definition native_scheme_from_wire :: "i64 \<Rightarrow> decode_error + native_scheme" where
  "native_scheme_from_wire v =
     (if v = 1 then Inr NScheme_Negotiate
      else if v = 2 then Inr NScheme_Ntlm
      else if v = 3 then Inr NScheme_Digest
      else Inl (UnknownEnum ''NativeScheme'' v))"

datatype native_observation =
    NObs_NotStarted
  | NObs_Unresolved
  | NObs_Selected

fun native_observation_wire :: "native_observation \<Rightarrow> i64" where
  "native_observation_wire NObs_NotStarted = 1"
| "native_observation_wire NObs_Unresolved = 2"
| "native_observation_wire NObs_Selected = 3"

definition native_observation_from_wire :: "i64 \<Rightarrow> decode_error + native_observation" where
  "native_observation_from_wire v =
     (if v = 1 then Inr NObs_NotStarted
      else if v = 2 then Inr NObs_Unresolved
      else if v = 3 then Inr NObs_Selected
      else Inl (UnknownEnum ''NativeObservation'' v))"

datatype native_mechanism =
    NMech_Kerberos
  | NMech_Ntlm

fun native_mechanism_wire :: "native_mechanism \<Rightarrow> i64" where
  "native_mechanism_wire NMech_Kerberos = 1"
| "native_mechanism_wire NMech_Ntlm = 2"

definition native_mechanism_from_wire :: "i64 \<Rightarrow> decode_error + native_mechanism" where
  "native_mechanism_from_wire v =
     (if v = 1 then Inr NMech_Kerberos
      else if v = 2 then Inr NMech_Ntlm
      else Inl (UnknownEnum ''NativeMechanism'' v))"

section \<open>Messages\<close>

record native_facts =
  nf_source :: native_source
  nf_scheme :: native_scheme
  nf_observation :: native_observation
  nf_mechanism :: "native_mechanism option"
  nf_authoritative :: bool

record limits =
  lim_encoded_frame :: i64
  lim_data_payload :: i64
  lim_metadata_bytes :: i64
  lim_nesting :: i64
  lim_collection_entries :: i64
  lim_decode_allocation :: i64
  lim_queued_bytes :: i64
  lim_queued_frames :: i64
  lim_receive_window :: i64
  lim_control_reserve_bytes :: i64
  lim_control_reserve_frames :: i64

record bind_msg =
  bind_versions :: "i64 list"
  bind_role :: endpoint_role
  bind_schemes :: "scheme list"
  bind_policies :: "auth_policy list"
  bind_receive_limits :: limits

record bound_msg =
  bound_version :: i64
  bound_endpoint_id :: string
  bound_role :: endpoint_role
  bound_schemes :: "scheme list"
  bound_policies :: "auth_policy list"
  bound_receive_limits :: limits
  bound_trust_owner :: string

record retry_attempt =
  ra_attempt :: i64
  ra_attempts :: i64

record capacity_detail =
  cap_cause :: capacity_cause
  cap_scheme :: "scheme option"
  cap_host :: "string option"
  cap_port :: "i64 option"
  cap_limit_applied :: "i64 option"
  cap_max_per_host :: "i64 option"
  cap_elapsed_ms :: "i64 option"
  cap_last_signal :: "capacity_signal option"
  cap_retry_after_ms :: "i64 option"

record failure_detail =
  fd_helper_cause :: "helper_failure_cause option"
  fd_pipe_kind :: "string option"
  fd_schemes :: "string list option"
  fd_retry_attempt :: "retry_attempt option"
  fd_helper_budget_ms :: "i64 option"
  fd_capacity :: "capacity_detail option"

record facts =
  facts_method :: auth_method
  facts_credential_offered :: bool
  facts_authenticated :: "bool option"
  facts_key_fingerprint :: "string option"
  facts_http_status :: "i64 option"
  facts_ssh_exit_status :: "i64 option"
  facts_native :: "native_facts option"

record failure =
  fail_code :: error_code
  fail_effect :: effect
  fail_facts :: "facts option"
  fail_setup_cause :: "setup_failure_cause option"
  fail_detail :: "failure_detail option"

record destination =
  dest_scheme :: scheme
  dest_host :: string
  dest_port :: i64
  dest_path :: string
  dest_ssh_username :: "string option"
  dest_https_username :: "string option"

record identity =
  ident_mode :: identity_mode
  ident_key_path :: "string option"
  ident_path_base :: "string option"

record deadlines =
  dl_allocation_ms :: i64
  dl_connect_ms :: i64
  dl_io_ms :: i64
  dl_interaction_ms :: i64
  dl_cleanup_ms :: i64

record open_msg =
  open_endpoint_id :: string
  open_operation_id :: string
  open_destination :: destination
  open_service :: git_service
  open_identity :: identity
  open_policy :: auth_policy
  open_deadlines :: deadlines
  open_receive_limits :: limits

record check_identity_msg =
  check_endpoint_id :: string
  check_operation_id :: string
  check_identity :: identity
  check_timeout_ms :: i64

datatype identity_checked_msg = IdentityChecked

record opened_msg =
  opened_connection_id :: string
  opened_reused :: bool
  opened_endpoint_id :: string
  opened_trust_owner :: string
  opened_facts :: facts
  opened_receive_limits :: limits

record data_msg =
  data_offset :: i64
  data_payload :: "byte list"

record window_msg =
  window_max_offset :: i64

record barrier =
  barrier_barrier_id :: i64
  barrier_offset :: i64

record end_write_msg =
  endw_final_offset :: i64

record close_msg =
  close_final_offset :: i64

record closed_msg =
  closed_disposition :: disposition
  closed_unread_response_discarded :: bool
  closed_facts :: facts
  closed_failure :: "failure option"

record cancel_msg =
  cancel_reason :: error_code

record envelope =
  env_version :: i64
  env_session_id :: string
  env_stream_id :: i64
  env_kind :: message_kind
  env_message_seq :: "i64 option"
  env_bind :: "bind_msg option"
  env_bound :: "bound_msg option"
  env_bind_rejected :: "failure option"
  env_open :: "open_msg option"
  env_opened :: "opened_msg option"
  env_open_failed :: "failure option"
  env_data :: "data_msg option"
  env_window :: "window_msg option"
  env_flush :: "barrier option"
  env_flushed :: "barrier option"
  env_end_write :: "end_write_msg option"
  env_close :: "close_msg option"
  env_closed :: "closed_msg option"
  env_cancel :: "cancel_msg option"
  env_failed :: "failure option"
  env_check_identity :: "check_identity_msg option"
  env_identity_checked :: "identity_checked_msg option"
  env_identity_check_failed :: "failure option"

text \<open>\<open>Envelope::default()\<close>: every body absent.\<close>

definition default_envelope :: envelope where
  "default_envelope =
     \<lparr>env_version = 0, env_session_id = [], env_stream_id = 0, env_kind = Kind_Bind,
      env_message_seq = None, env_bind = None, env_bound = None, env_bind_rejected = None,
      env_open = None, env_opened = None, env_open_failed = None, env_data = None,
      env_window = None, env_flush = None, env_flushed = None, env_end_write = None,
      env_close = None, env_closed = None, env_cancel = None, env_failed = None,
      env_check_identity = None, env_identity_checked = None,
      env_identity_check_failed = None\<rparr>"

section \<open>The contract of an enum\<close>

locale wire_enum =
  fixes wire :: "'a \<Rightarrow> i64"
    and from_wire :: "i64 \<Rightarrow> decode_error + 'a"
  assumes from_wire_wire [simp]: "from_wire (wire x) = Inr x"
    and wire_from_wire: "from_wire v = Inr x \<Longrightarrow> wire x = v"
    and wire_small: "1 \<le> wire x \<and> wire x < 24"
begin

lemma wire_inject: "wire x = wire y \<longleftrightarrow> x = y"
  by (metis from_wire_wire sum.inject(2))

lemma wire_in_i64: "in_i64 (wire x)"
  using wire_small [of x] by (simp add: in_i64_def i64_min_def i64_max_def)

lemma from_wire_total: "from_wire v = Inr x \<longleftrightarrow> v = wire x"
  by (metis from_wire_wire wire_from_wire)

end

interpretation message_kind_enum: wire_enum message_kind_wire message_kind_from_wire
proof
  fix x :: message_kind and v :: i64
  show "message_kind_from_wire (message_kind_wire x) = Inr x" and "1 \<le> message_kind_wire x \<and> message_kind_wire x < 24"
    by (cases x; simp add: message_kind_from_wire_def)+
  show "message_kind_wire x = v" if "message_kind_from_wire v = Inr x"
    using that by (auto simp: message_kind_from_wire_def split: if_splits)
qed

interpretation endpoint_role_enum: wire_enum endpoint_role_wire endpoint_role_from_wire
proof
  fix x :: endpoint_role and v :: i64
  show "endpoint_role_from_wire (endpoint_role_wire x) = Inr x" and "1 \<le> endpoint_role_wire x \<and> endpoint_role_wire x < 24"
    by (cases x; simp add: endpoint_role_from_wire_def)+
  show "endpoint_role_wire x = v" if "endpoint_role_from_wire v = Inr x"
    using that by (auto simp: endpoint_role_from_wire_def split: if_splits)
qed

interpretation scheme_enum: wire_enum scheme_wire scheme_from_wire
proof
  fix x :: scheme and v :: i64
  show "scheme_from_wire (scheme_wire x) = Inr x" and "1 \<le> scheme_wire x \<and> scheme_wire x < 24"
    by (cases x; simp add: scheme_from_wire_def)+
  show "scheme_wire x = v" if "scheme_from_wire v = Inr x"
    using that by (auto simp: scheme_from_wire_def split: if_splits)
qed

interpretation auth_policy_enum: wire_enum auth_policy_wire auth_policy_from_wire
proof
  fix x :: auth_policy and v :: i64
  show "auth_policy_from_wire (auth_policy_wire x) = Inr x" and "1 \<le> auth_policy_wire x \<and> auth_policy_wire x < 24"
    by (cases x; simp add: auth_policy_from_wire_def)+
  show "auth_policy_wire x = v" if "auth_policy_from_wire v = Inr x"
    using that by (auto simp: auth_policy_from_wire_def split: if_splits)
qed

interpretation git_service_enum: wire_enum git_service_wire git_service_from_wire
proof
  fix x :: git_service and v :: i64
  show "git_service_from_wire (git_service_wire x) = Inr x" and "1 \<le> git_service_wire x \<and> git_service_wire x < 24"
    by (cases x; simp add: git_service_from_wire_def)+
  show "git_service_wire x = v" if "git_service_from_wire v = Inr x"
    using that by (auto simp: git_service_from_wire_def split: if_splits)
qed

interpretation identity_mode_enum: wire_enum identity_mode_wire identity_mode_from_wire
proof
  fix x :: identity_mode and v :: i64
  show "identity_mode_from_wire (identity_mode_wire x) = Inr x" and "1 \<le> identity_mode_wire x \<and> identity_mode_wire x < 24"
    by (cases x; simp add: identity_mode_from_wire_def)+
  show "identity_mode_wire x = v" if "identity_mode_from_wire v = Inr x"
    using that by (auto simp: identity_mode_from_wire_def split: if_splits)
qed

interpretation error_code_enum: wire_enum error_code_wire error_code_from_wire
proof
  fix x :: error_code and v :: i64
  show "error_code_from_wire (error_code_wire x) = Inr x" and "1 \<le> error_code_wire x \<and> error_code_wire x < 24"
    by (cases x; simp add: error_code_from_wire_def)+
  show "error_code_wire x = v" if "error_code_from_wire v = Inr x"
    using that by (auto simp: error_code_from_wire_def split: if_splits)
qed

interpretation setup_failure_cause_enum: wire_enum setup_failure_cause_wire setup_failure_cause_from_wire
proof
  fix x :: setup_failure_cause and v :: i64
  show "setup_failure_cause_from_wire (setup_failure_cause_wire x) = Inr x" and "1 \<le> setup_failure_cause_wire x \<and> setup_failure_cause_wire x < 24"
    by (cases x; simp add: setup_failure_cause_from_wire_def)+
  show "setup_failure_cause_wire x = v" if "setup_failure_cause_from_wire v = Inr x"
    using that by (auto simp: setup_failure_cause_from_wire_def split: if_splits)
qed

interpretation helper_failure_cause_enum: wire_enum helper_failure_cause_wire helper_failure_cause_from_wire
proof
  fix x :: helper_failure_cause and v :: i64
  show "helper_failure_cause_from_wire (helper_failure_cause_wire x) = Inr x" and "1 \<le> helper_failure_cause_wire x \<and> helper_failure_cause_wire x < 24"
    by (cases x; simp add: helper_failure_cause_from_wire_def)+
  show "helper_failure_cause_wire x = v" if "helper_failure_cause_from_wire v = Inr x"
    using that by (auto simp: helper_failure_cause_from_wire_def split: if_splits)
qed

interpretation capacity_cause_enum: wire_enum capacity_cause_wire capacity_cause_from_wire
proof
  fix x :: capacity_cause and v :: i64
  show "capacity_cause_from_wire (capacity_cause_wire x) = Inr x" and "1 \<le> capacity_cause_wire x \<and> capacity_cause_wire x < 24"
    by (cases x; simp add: capacity_cause_from_wire_def)+
  show "capacity_cause_wire x = v" if "capacity_cause_from_wire v = Inr x"
    using that by (auto simp: capacity_cause_from_wire_def split: if_splits)
qed

interpretation capacity_signal_enum: wire_enum capacity_signal_wire capacity_signal_from_wire
proof
  fix x :: capacity_signal and v :: i64
  show "capacity_signal_from_wire (capacity_signal_wire x) = Inr x" and "1 \<le> capacity_signal_wire x \<and> capacity_signal_wire x < 24"
    by (cases x; simp add: capacity_signal_from_wire_def)+
  show "capacity_signal_wire x = v" if "capacity_signal_from_wire v = Inr x"
    using that by (auto simp: capacity_signal_from_wire_def split: if_splits)
qed

interpretation effect_enum: wire_enum effect_wire effect_from_wire
proof
  fix x :: effect and v :: i64
  show "effect_from_wire (effect_wire x) = Inr x" and "1 \<le> effect_wire x \<and> effect_wire x < 24"
    by (cases x; simp add: effect_from_wire_def)+
  show "effect_wire x = v" if "effect_from_wire v = Inr x"
    using that by (auto simp: effect_from_wire_def split: if_splits)
qed

interpretation disposition_enum: wire_enum disposition_wire disposition_from_wire
proof
  fix x :: disposition and v :: i64
  show "disposition_from_wire (disposition_wire x) = Inr x" and "1 \<le> disposition_wire x \<and> disposition_wire x < 24"
    by (cases x; simp add: disposition_from_wire_def)+
  show "disposition_wire x = v" if "disposition_from_wire v = Inr x"
    using that by (auto simp: disposition_from_wire_def split: if_splits)
qed

interpretation auth_method_enum: wire_enum auth_method_wire auth_method_from_wire
proof
  fix x :: auth_method and v :: i64
  show "auth_method_from_wire (auth_method_wire x) = Inr x" and "1 \<le> auth_method_wire x \<and> auth_method_wire x < 24"
    by (cases x; simp add: auth_method_from_wire_def)+
  show "auth_method_wire x = v" if "auth_method_from_wire v = Inr x"
    using that by (auto simp: auth_method_from_wire_def split: if_splits)
qed

interpretation native_source_enum: wire_enum native_source_wire native_source_from_wire
proof
  fix x :: native_source and v :: i64
  show "native_source_from_wire (native_source_wire x) = Inr x" and "1 \<le> native_source_wire x \<and> native_source_wire x < 24"
    by (cases x; simp add: native_source_from_wire_def)+
  show "native_source_wire x = v" if "native_source_from_wire v = Inr x"
    using that by (auto simp: native_source_from_wire_def split: if_splits)
qed

interpretation native_scheme_enum: wire_enum native_scheme_wire native_scheme_from_wire
proof
  fix x :: native_scheme and v :: i64
  show "native_scheme_from_wire (native_scheme_wire x) = Inr x" and "1 \<le> native_scheme_wire x \<and> native_scheme_wire x < 24"
    by (cases x; simp add: native_scheme_from_wire_def)+
  show "native_scheme_wire x = v" if "native_scheme_from_wire v = Inr x"
    using that by (auto simp: native_scheme_from_wire_def split: if_splits)
qed

interpretation native_observation_enum: wire_enum native_observation_wire native_observation_from_wire
proof
  fix x :: native_observation and v :: i64
  show "native_observation_from_wire (native_observation_wire x) = Inr x" and "1 \<le> native_observation_wire x \<and> native_observation_wire x < 24"
    by (cases x; simp add: native_observation_from_wire_def)+
  show "native_observation_wire x = v" if "native_observation_from_wire v = Inr x"
    using that by (auto simp: native_observation_from_wire_def split: if_splits)
qed

interpretation native_mechanism_enum: wire_enum native_mechanism_wire native_mechanism_from_wire
proof
  fix x :: native_mechanism and v :: i64
  show "native_mechanism_from_wire (native_mechanism_wire x) = Inr x" and "1 \<le> native_mechanism_wire x \<and> native_mechanism_wire x < 24"
    by (cases x; simp add: native_mechanism_from_wire_def)+
  show "native_mechanism_wire x = v" if "native_mechanism_from_wire v = Inr x"
    using that by (auto simp: native_mechanism_from_wire_def split: if_splits)
qed

end
