(* ===== verification/Protocol_Codec.thy ===== *)
theory Protocol_Codec
  imports Protocol
begin

text \<open>
  The codec of the protocol types, \<open>to_cbor\<close> and \<open>from_cbor\<close> of every struct of
  \<open>src/protocol.rs\<close>. Each struct is a map from its field tags; an absent optional field is
  written as null, and read as absent from null or, for the fields added later, from a
  missing key.

  The contract of a message codec is the locale \<open>cbor_message\<close>: reading back what was
  written gives the message, no message is written as null, so that an optional message can
  be told from an absent one, and the map written has its keys in canonical order. A
  \<open>plain_message\<close> also carries no byte string; only \<open>Data\<close> does.
\<close>

section \<open>Field access\<close>

text \<open>\<open>match &self.f { Some(v) => .., None => Cbor::Null }\<close>\<close>

definition opt_cbor :: "('a \<Rightarrow> cbor) \<Rightarrow> 'a option \<Rightarrow> cbor" where
  "opt_cbor f x = (case x of Some v \<Rightarrow> f v | None \<Rightarrow> CNull)"

text \<open>\<open>T::from_cbor(c.try_get(k)?)?\<close>\<close>

definition field :: "cbor \<Rightarrow> i64 \<Rightarrow> (cbor \<Rightarrow> decode_error + 'a) \<Rightarrow> decode_error + 'a" where
  "field c k g = and_then (try_get c k) g"

text \<open>A nullable field whose key must be present, and one whose key may be missing.\<close>

definition field_opt ::
    "cbor \<Rightarrow> i64 \<Rightarrow> (cbor \<Rightarrow> decode_error + 'a) \<Rightarrow> decode_error + 'a option" where
  "field_opt c k g =
     and_then (try_get c k) (\<lambda>v. if is_null v then Inr None else and_then (g v) (\<lambda>x. Inr (Some x)))"

definition field_opt_absent ::
    "cbor \<Rightarrow> i64 \<Rightarrow> (cbor \<Rightarrow> decode_error + 'a) \<Rightarrow> decode_error + 'a option" where
  "field_opt_absent c k g =
     and_then (try_get_opt c k) (\<lambda>r. case r of None \<Rightarrow> Inr None
       | Some v \<Rightarrow> if is_null v then Inr None else and_then (g v) (\<lambda>x. Inr (Some x)))"

text \<open>\<open>iter().map(g).collect::<Result<Vec<_>, _>>()\<close>\<close>

fun collect :: "(cbor \<Rightarrow> decode_error + 'a) \<Rightarrow> cbor list \<Rightarrow> decode_error + 'a list" where
  "collect g [] = Inr []"
| "collect g (x # xs) = and_then (g x) (\<lambda>y. and_then (collect g xs) (\<lambda>ys. Inr (y # ys)))"

section \<open>Codecs\<close>

definition native_facts_to_cbor :: "native_facts \<Rightarrow> cbor" where
  "native_facts_to_cbor m = CMap
     [(1, CInt (native_source_wire (nf_source m))),
      (2, CInt (native_scheme_wire (nf_scheme m))),
      (3, CInt (native_observation_wire (nf_observation m))),
      (4, opt_cbor (\<lambda>v. CInt (native_mechanism_wire v)) (nf_mechanism m)),
      (5, CBool (nf_authoritative m))]"

definition native_facts_from_cbor :: "cbor \<Rightarrow> decode_error + native_facts" where
  "native_facts_from_cbor c =
     and_then (field c 1 (\<lambda>v. and_then (try_int v) native_source_from_wire)) (\<lambda>x_source.
     and_then (field c 2 (\<lambda>v. and_then (try_int v) native_scheme_from_wire)) (\<lambda>x_scheme.
     and_then (field c 3 (\<lambda>v. and_then (try_int v) native_observation_from_wire)) (\<lambda>x_observation.
     and_then (field_opt c 4 (\<lambda>v. and_then (try_int v) native_mechanism_from_wire)) (\<lambda>x_mechanism.
     and_then (field c 5 try_bool) (\<lambda>x_authoritative.
     Inr \<lparr>nf_source = x_source,
       nf_scheme = x_scheme,
       nf_observation = x_observation,
       nf_mechanism = x_mechanism,
       nf_authoritative = x_authoritative\<rparr>)))))"

definition limits_to_cbor :: "limits \<Rightarrow> cbor" where
  "limits_to_cbor m = CMap
     [(1, CInt (lim_encoded_frame m)),
      (2, CInt (lim_data_payload m)),
      (3, CInt (lim_metadata_bytes m)),
      (4, CInt (lim_nesting m)),
      (5, CInt (lim_collection_entries m)),
      (6, CInt (lim_decode_allocation m)),
      (7, CInt (lim_queued_bytes m)),
      (8, CInt (lim_queued_frames m)),
      (9, CInt (lim_receive_window m)),
      (10, CInt (lim_control_reserve_bytes m)),
      (11, CInt (lim_control_reserve_frames m))]"

definition limits_from_cbor :: "cbor \<Rightarrow> decode_error + limits" where
  "limits_from_cbor c =
     and_then (field c 1 try_int) (\<lambda>x_encoded_frame.
     and_then (field c 2 try_int) (\<lambda>x_data_payload.
     and_then (field c 3 try_int) (\<lambda>x_metadata_bytes.
     and_then (field c 4 try_int) (\<lambda>x_nesting.
     and_then (field c 5 try_int) (\<lambda>x_collection_entries.
     and_then (field c 6 try_int) (\<lambda>x_decode_allocation.
     and_then (field c 7 try_int) (\<lambda>x_queued_bytes.
     and_then (field c 8 try_int) (\<lambda>x_queued_frames.
     and_then (field c 9 try_int) (\<lambda>x_receive_window.
     and_then (field c 10 try_int) (\<lambda>x_control_reserve_bytes.
     and_then (field c 11 try_int) (\<lambda>x_control_reserve_frames.
     Inr \<lparr>lim_encoded_frame = x_encoded_frame,
       lim_data_payload = x_data_payload,
       lim_metadata_bytes = x_metadata_bytes,
       lim_nesting = x_nesting,
       lim_collection_entries = x_collection_entries,
       lim_decode_allocation = x_decode_allocation,
       lim_queued_bytes = x_queued_bytes,
       lim_queued_frames = x_queued_frames,
       lim_receive_window = x_receive_window,
       lim_control_reserve_bytes = x_control_reserve_bytes,
       lim_control_reserve_frames = x_control_reserve_frames\<rparr>)))))))))))"

definition bind_msg_to_cbor :: "bind_msg \<Rightarrow> cbor" where
  "bind_msg_to_cbor m = CMap
     [(1, CArray (map (CInt) (bind_versions m))),
      (2, CInt (endpoint_role_wire (bind_role m))),
      (3, CArray (map (\<lambda>v. CInt (scheme_wire v)) (bind_schemes m))),
      (4, CArray (map (\<lambda>v. CInt (auth_policy_wire v)) (bind_policies m))),
      (5, limits_to_cbor (bind_receive_limits m))]"

definition bind_msg_from_cbor :: "cbor \<Rightarrow> decode_error + bind_msg" where
  "bind_msg_from_cbor c =
     and_then (field c 1 (\<lambda>v. and_then (try_array v) (collect (try_int)))) (\<lambda>x_versions.
     and_then (field c 2 (\<lambda>v. and_then (try_int v) endpoint_role_from_wire)) (\<lambda>x_role.
     and_then (field c 3 (\<lambda>v. and_then (try_array v) (collect (\<lambda>v. and_then (try_int v) scheme_from_wire)))) (\<lambda>x_schemes.
     and_then (field c 4 (\<lambda>v. and_then (try_array v) (collect (\<lambda>v. and_then (try_int v) auth_policy_from_wire)))) (\<lambda>x_policies.
     and_then (field c 5 limits_from_cbor) (\<lambda>x_receive_limits.
     Inr \<lparr>bind_versions = x_versions,
       bind_role = x_role,
       bind_schemes = x_schemes,
       bind_policies = x_policies,
       bind_receive_limits = x_receive_limits\<rparr>)))))"

definition bound_msg_to_cbor :: "bound_msg \<Rightarrow> cbor" where
  "bound_msg_to_cbor m = CMap
     [(1, CInt (bound_version m)),
      (2, CText (bound_endpoint_id m)),
      (3, CInt (endpoint_role_wire (bound_role m))),
      (4, CArray (map (\<lambda>v. CInt (scheme_wire v)) (bound_schemes m))),
      (5, CArray (map (\<lambda>v. CInt (auth_policy_wire v)) (bound_policies m))),
      (6, limits_to_cbor (bound_receive_limits m)),
      (7, CText (bound_trust_owner m))]"

definition bound_msg_from_cbor :: "cbor \<Rightarrow> decode_error + bound_msg" where
  "bound_msg_from_cbor c =
     and_then (field c 1 try_int) (\<lambda>x_version.
     and_then (field c 2 try_text) (\<lambda>x_endpoint_id.
     and_then (field c 3 (\<lambda>v. and_then (try_int v) endpoint_role_from_wire)) (\<lambda>x_role.
     and_then (field c 4 (\<lambda>v. and_then (try_array v) (collect (\<lambda>v. and_then (try_int v) scheme_from_wire)))) (\<lambda>x_schemes.
     and_then (field c 5 (\<lambda>v. and_then (try_array v) (collect (\<lambda>v. and_then (try_int v) auth_policy_from_wire)))) (\<lambda>x_policies.
     and_then (field c 6 limits_from_cbor) (\<lambda>x_receive_limits.
     and_then (field c 7 try_text) (\<lambda>x_trust_owner.
     Inr \<lparr>bound_version = x_version,
       bound_endpoint_id = x_endpoint_id,
       bound_role = x_role,
       bound_schemes = x_schemes,
       bound_policies = x_policies,
       bound_receive_limits = x_receive_limits,
       bound_trust_owner = x_trust_owner\<rparr>)))))))"

definition retry_attempt_to_cbor :: "retry_attempt \<Rightarrow> cbor" where
  "retry_attempt_to_cbor m = CMap
     [(1, CInt (ra_attempt m)),
      (2, CInt (ra_attempts m))]"

definition retry_attempt_from_cbor :: "cbor \<Rightarrow> decode_error + retry_attempt" where
  "retry_attempt_from_cbor c =
     and_then (field c 1 try_int) (\<lambda>x_attempt.
     and_then (field c 2 try_int) (\<lambda>x_attempts.
     Inr \<lparr>ra_attempt = x_attempt,
       ra_attempts = x_attempts\<rparr>))"

definition capacity_detail_to_cbor :: "capacity_detail \<Rightarrow> cbor" where
  "capacity_detail_to_cbor m = CMap
     [(1, CInt (capacity_cause_wire (cap_cause m))),
      (2, opt_cbor (\<lambda>v. CInt (scheme_wire v)) (cap_scheme m)),
      (3, opt_cbor (CText) (cap_host m)),
      (4, opt_cbor (CInt) (cap_port m)),
      (5, opt_cbor (CInt) (cap_limit_applied m)),
      (6, opt_cbor (CInt) (cap_max_per_host m)),
      (7, opt_cbor (CInt) (cap_elapsed_ms m)),
      (8, opt_cbor (\<lambda>v. CInt (capacity_signal_wire v)) (cap_last_signal m)),
      (9, opt_cbor (CInt) (cap_retry_after_ms m))]"

definition capacity_detail_from_cbor :: "cbor \<Rightarrow> decode_error + capacity_detail" where
  "capacity_detail_from_cbor c =
     and_then (field c 1 (\<lambda>v. and_then (try_int v) capacity_cause_from_wire)) (\<lambda>x_cause.
     and_then (field_opt_absent c 2 (\<lambda>v. and_then (try_int v) scheme_from_wire)) (\<lambda>x_scheme.
     and_then (field_opt_absent c 3 try_text) (\<lambda>x_host.
     and_then (field_opt_absent c 4 try_int) (\<lambda>x_port.
     and_then (field_opt_absent c 5 try_int) (\<lambda>x_limit_applied.
     and_then (field_opt_absent c 6 try_int) (\<lambda>x_max_per_host.
     and_then (field_opt_absent c 7 try_int) (\<lambda>x_elapsed_ms.
     and_then (field_opt_absent c 8 (\<lambda>v. and_then (try_int v) capacity_signal_from_wire)) (\<lambda>x_last_signal.
     and_then (field_opt_absent c 9 try_int) (\<lambda>x_retry_after_ms.
     Inr \<lparr>cap_cause = x_cause,
       cap_scheme = x_scheme,
       cap_host = x_host,
       cap_port = x_port,
       cap_limit_applied = x_limit_applied,
       cap_max_per_host = x_max_per_host,
       cap_elapsed_ms = x_elapsed_ms,
       cap_last_signal = x_last_signal,
       cap_retry_after_ms = x_retry_after_ms\<rparr>)))))))))"

definition failure_detail_to_cbor :: "failure_detail \<Rightarrow> cbor" where
  "failure_detail_to_cbor m = CMap
     [(1, opt_cbor (\<lambda>v. CInt (helper_failure_cause_wire v)) (fd_helper_cause m)),
      (2, opt_cbor (CText) (fd_pipe_kind m)),
      (3, opt_cbor (\<lambda>v. CArray (map (CText) (v))) (fd_schemes m)),
      (4, opt_cbor (retry_attempt_to_cbor) (fd_retry_attempt m)),
      (5, opt_cbor (CInt) (fd_helper_budget_ms m)),
      (6, opt_cbor (capacity_detail_to_cbor) (fd_capacity m))]"

definition failure_detail_from_cbor :: "cbor \<Rightarrow> decode_error + failure_detail" where
  "failure_detail_from_cbor c =
     and_then (field_opt_absent c 1 (\<lambda>v. and_then (try_int v) helper_failure_cause_from_wire)) (\<lambda>x_helper_cause.
     and_then (field_opt_absent c 2 try_text) (\<lambda>x_pipe_kind.
     and_then (field_opt_absent c 3 (\<lambda>v. and_then (try_array v) (collect (try_text)))) (\<lambda>x_schemes.
     and_then (field_opt_absent c 4 retry_attempt_from_cbor) (\<lambda>x_retry_attempt.
     and_then (field_opt_absent c 5 try_int) (\<lambda>x_helper_budget_ms.
     and_then (field_opt_absent c 6 capacity_detail_from_cbor) (\<lambda>x_capacity.
     Inr \<lparr>fd_helper_cause = x_helper_cause,
       fd_pipe_kind = x_pipe_kind,
       fd_schemes = x_schemes,
       fd_retry_attempt = x_retry_attempt,
       fd_helper_budget_ms = x_helper_budget_ms,
       fd_capacity = x_capacity\<rparr>))))))"

definition facts_to_cbor :: "facts \<Rightarrow> cbor" where
  "facts_to_cbor m = CMap
     [(1, CInt (auth_method_wire (facts_method m))),
      (2, CBool (facts_credential_offered m)),
      (3, opt_cbor (CBool) (facts_authenticated m)),
      (4, opt_cbor (CText) (facts_key_fingerprint m)),
      (5, opt_cbor (CInt) (facts_http_status m)),
      (6, opt_cbor (CInt) (facts_ssh_exit_status m)),
      (7, opt_cbor (native_facts_to_cbor) (facts_native m))]"

definition facts_from_cbor :: "cbor \<Rightarrow> decode_error + facts" where
  "facts_from_cbor c =
     and_then (field c 1 (\<lambda>v. and_then (try_int v) auth_method_from_wire)) (\<lambda>x_method.
     and_then (field c 2 try_bool) (\<lambda>x_credential_offered.
     and_then (field_opt c 3 try_bool) (\<lambda>x_authenticated.
     and_then (field_opt c 4 try_text) (\<lambda>x_key_fingerprint.
     and_then (field_opt c 5 try_int) (\<lambda>x_http_status.
     and_then (field_opt c 6 try_int) (\<lambda>x_ssh_exit_status.
     and_then (field_opt_absent c 7 native_facts_from_cbor) (\<lambda>x_native.
     Inr \<lparr>facts_method = x_method,
       facts_credential_offered = x_credential_offered,
       facts_authenticated = x_authenticated,
       facts_key_fingerprint = x_key_fingerprint,
       facts_http_status = x_http_status,
       facts_ssh_exit_status = x_ssh_exit_status,
       facts_native = x_native\<rparr>)))))))"

definition failure_to_cbor :: "failure \<Rightarrow> cbor" where
  "failure_to_cbor m = CMap
     [(1, CInt (error_code_wire (fail_code m))),
      (2, CInt (effect_wire (fail_effect m))),
      (3, opt_cbor (facts_to_cbor) (fail_facts m)),
      (4, opt_cbor (\<lambda>v. CInt (setup_failure_cause_wire v)) (fail_setup_cause m)),
      (5, opt_cbor (failure_detail_to_cbor) (fail_detail m))]"

definition failure_from_cbor :: "cbor \<Rightarrow> decode_error + failure" where
  "failure_from_cbor c =
     and_then (field c 1 (\<lambda>v. and_then (try_int v) error_code_from_wire)) (\<lambda>x_code.
     and_then (field c 2 (\<lambda>v. and_then (try_int v) effect_from_wire)) (\<lambda>x_effect.
     and_then (field_opt_absent c 3 facts_from_cbor) (\<lambda>x_facts.
     and_then (field_opt_absent c 4 (\<lambda>v. and_then (try_int v) setup_failure_cause_from_wire)) (\<lambda>x_setup_cause.
     and_then (field_opt_absent c 5 failure_detail_from_cbor) (\<lambda>x_detail.
     Inr \<lparr>fail_code = x_code,
       fail_effect = x_effect,
       fail_facts = x_facts,
       fail_setup_cause = x_setup_cause,
       fail_detail = x_detail\<rparr>)))))"

definition destination_to_cbor :: "destination \<Rightarrow> cbor" where
  "destination_to_cbor m = CMap
     [(1, CInt (scheme_wire (dest_scheme m))),
      (2, CText (dest_host m)),
      (3, CInt (dest_port m)),
      (4, CText (dest_path m)),
      (5, opt_cbor (CText) (dest_ssh_username m)),
      (6, opt_cbor (CText) (dest_https_username m))]"

definition destination_from_cbor :: "cbor \<Rightarrow> decode_error + destination" where
  "destination_from_cbor c =
     and_then (field c 1 (\<lambda>v. and_then (try_int v) scheme_from_wire)) (\<lambda>x_scheme.
     and_then (field c 2 try_text) (\<lambda>x_host.
     and_then (field c 3 try_int) (\<lambda>x_port.
     and_then (field c 4 try_text) (\<lambda>x_path.
     and_then (field_opt c 5 try_text) (\<lambda>x_ssh_username.
     and_then (field_opt_absent c 6 try_text) (\<lambda>x_https_username.
     Inr \<lparr>dest_scheme = x_scheme,
       dest_host = x_host,
       dest_port = x_port,
       dest_path = x_path,
       dest_ssh_username = x_ssh_username,
       dest_https_username = x_https_username\<rparr>))))))"

definition identity_to_cbor :: "identity \<Rightarrow> cbor" where
  "identity_to_cbor m = CMap
     [(1, CInt (identity_mode_wire (ident_mode m))),
      (2, opt_cbor (CText) (ident_key_path m)),
      (3, opt_cbor (CText) (ident_path_base m))]"

definition identity_from_cbor :: "cbor \<Rightarrow> decode_error + identity" where
  "identity_from_cbor c =
     and_then (field c 1 (\<lambda>v. and_then (try_int v) identity_mode_from_wire)) (\<lambda>x_mode.
     and_then (field_opt c 2 try_text) (\<lambda>x_key_path.
     and_then (field_opt c 3 try_text) (\<lambda>x_path_base.
     Inr \<lparr>ident_mode = x_mode,
       ident_key_path = x_key_path,
       ident_path_base = x_path_base\<rparr>)))"

definition deadlines_to_cbor :: "deadlines \<Rightarrow> cbor" where
  "deadlines_to_cbor m = CMap
     [(1, CInt (dl_allocation_ms m)),
      (2, CInt (dl_connect_ms m)),
      (3, CInt (dl_io_ms m)),
      (4, CInt (dl_interaction_ms m)),
      (5, CInt (dl_cleanup_ms m))]"

definition deadlines_from_cbor :: "cbor \<Rightarrow> decode_error + deadlines" where
  "deadlines_from_cbor c =
     and_then (field c 1 try_int) (\<lambda>x_allocation_ms.
     and_then (field c 2 try_int) (\<lambda>x_connect_ms.
     and_then (field c 3 try_int) (\<lambda>x_io_ms.
     and_then (field c 4 try_int) (\<lambda>x_interaction_ms.
     and_then (field c 5 try_int) (\<lambda>x_cleanup_ms.
     Inr \<lparr>dl_allocation_ms = x_allocation_ms,
       dl_connect_ms = x_connect_ms,
       dl_io_ms = x_io_ms,
       dl_interaction_ms = x_interaction_ms,
       dl_cleanup_ms = x_cleanup_ms\<rparr>)))))"

definition open_msg_to_cbor :: "open_msg \<Rightarrow> cbor" where
  "open_msg_to_cbor m = CMap
     [(1, CText (open_endpoint_id m)),
      (2, CText (open_operation_id m)),
      (3, destination_to_cbor (open_destination m)),
      (4, CInt (git_service_wire (open_service m))),
      (5, identity_to_cbor (open_identity m)),
      (6, CInt (auth_policy_wire (open_policy m))),
      (7, deadlines_to_cbor (open_deadlines m)),
      (8, limits_to_cbor (open_receive_limits m))]"

definition open_msg_from_cbor :: "cbor \<Rightarrow> decode_error + open_msg" where
  "open_msg_from_cbor c =
     and_then (field c 1 try_text) (\<lambda>x_endpoint_id.
     and_then (field c 2 try_text) (\<lambda>x_operation_id.
     and_then (field c 3 destination_from_cbor) (\<lambda>x_destination.
     and_then (field c 4 (\<lambda>v. and_then (try_int v) git_service_from_wire)) (\<lambda>x_service.
     and_then (field c 5 identity_from_cbor) (\<lambda>x_identity.
     and_then (field c 6 (\<lambda>v. and_then (try_int v) auth_policy_from_wire)) (\<lambda>x_policy.
     and_then (field c 7 deadlines_from_cbor) (\<lambda>x_deadlines.
     and_then (field c 8 limits_from_cbor) (\<lambda>x_receive_limits.
     Inr \<lparr>open_endpoint_id = x_endpoint_id,
       open_operation_id = x_operation_id,
       open_destination = x_destination,
       open_service = x_service,
       open_identity = x_identity,
       open_policy = x_policy,
       open_deadlines = x_deadlines,
       open_receive_limits = x_receive_limits\<rparr>))))))))"

definition check_identity_msg_to_cbor :: "check_identity_msg \<Rightarrow> cbor" where
  "check_identity_msg_to_cbor m = CMap
     [(1, CText (check_endpoint_id m)),
      (2, CText (check_operation_id m)),
      (3, identity_to_cbor (check_identity m)),
      (4, CInt (check_timeout_ms m))]"

definition check_identity_msg_from_cbor :: "cbor \<Rightarrow> decode_error + check_identity_msg" where
  "check_identity_msg_from_cbor c =
     and_then (field c 1 try_text) (\<lambda>x_endpoint_id.
     and_then (field c 2 try_text) (\<lambda>x_operation_id.
     and_then (field c 3 identity_from_cbor) (\<lambda>x_identity.
     and_then (field c 4 try_int) (\<lambda>x_timeout_ms.
     Inr \<lparr>check_endpoint_id = x_endpoint_id,
       check_operation_id = x_operation_id,
       check_identity = x_identity,
       check_timeout_ms = x_timeout_ms\<rparr>))))"

definition identity_checked_msg_to_cbor :: "identity_checked_msg \<Rightarrow> cbor" where
  "identity_checked_msg_to_cbor m = CMap []"

definition identity_checked_msg_from_cbor :: "cbor \<Rightarrow> decode_error + identity_checked_msg" where
  "identity_checked_msg_from_cbor c = (if \<not> is_map c then Inl (WrongType ''map'') else Inr IdentityChecked)"

definition opened_msg_to_cbor :: "opened_msg \<Rightarrow> cbor" where
  "opened_msg_to_cbor m = CMap
     [(1, CText (opened_connection_id m)),
      (2, CBool (opened_reused m)),
      (3, CText (opened_endpoint_id m)),
      (4, CText (opened_trust_owner m)),
      (5, facts_to_cbor (opened_facts m)),
      (6, limits_to_cbor (opened_receive_limits m))]"

definition opened_msg_from_cbor :: "cbor \<Rightarrow> decode_error + opened_msg" where
  "opened_msg_from_cbor c =
     and_then (field c 1 try_text) (\<lambda>x_connection_id.
     and_then (field c 2 try_bool) (\<lambda>x_reused.
     and_then (field c 3 try_text) (\<lambda>x_endpoint_id.
     and_then (field c 4 try_text) (\<lambda>x_trust_owner.
     and_then (field c 5 facts_from_cbor) (\<lambda>x_facts.
     and_then (field c 6 limits_from_cbor) (\<lambda>x_receive_limits.
     Inr \<lparr>opened_connection_id = x_connection_id,
       opened_reused = x_reused,
       opened_endpoint_id = x_endpoint_id,
       opened_trust_owner = x_trust_owner,
       opened_facts = x_facts,
       opened_receive_limits = x_receive_limits\<rparr>))))))"

definition data_msg_to_cbor :: "data_msg \<Rightarrow> cbor" where
  "data_msg_to_cbor m = CMap
     [(1, CInt (data_offset m)),
      (2, CBytes (data_payload m))]"

definition data_msg_from_cbor :: "cbor \<Rightarrow> decode_error + data_msg" where
  "data_msg_from_cbor c =
     and_then (field c 1 try_int) (\<lambda>x_offset.
     and_then (field c 2 try_bytes) (\<lambda>x_payload.
     Inr \<lparr>data_offset = x_offset,
       data_payload = x_payload\<rparr>))"

definition window_msg_to_cbor :: "window_msg \<Rightarrow> cbor" where
  "window_msg_to_cbor m = CMap
     [(1, CInt (window_max_offset m))]"

definition window_msg_from_cbor :: "cbor \<Rightarrow> decode_error + window_msg" where
  "window_msg_from_cbor c =
     and_then (field c 1 try_int) (\<lambda>x_max_offset.
     Inr \<lparr>window_max_offset = x_max_offset\<rparr>)"

definition barrier_to_cbor :: "barrier \<Rightarrow> cbor" where
  "barrier_to_cbor m = CMap
     [(1, CInt (barrier_barrier_id m)),
      (2, CInt (barrier_offset m))]"

definition barrier_from_cbor :: "cbor \<Rightarrow> decode_error + barrier" where
  "barrier_from_cbor c =
     and_then (field c 1 try_int) (\<lambda>x_barrier_id.
     and_then (field c 2 try_int) (\<lambda>x_offset.
     Inr \<lparr>barrier_barrier_id = x_barrier_id,
       barrier_offset = x_offset\<rparr>))"

definition end_write_msg_to_cbor :: "end_write_msg \<Rightarrow> cbor" where
  "end_write_msg_to_cbor m = CMap
     [(1, CInt (endw_final_offset m))]"

definition end_write_msg_from_cbor :: "cbor \<Rightarrow> decode_error + end_write_msg" where
  "end_write_msg_from_cbor c =
     and_then (field c 1 try_int) (\<lambda>x_final_offset.
     Inr \<lparr>endw_final_offset = x_final_offset\<rparr>)"

definition close_msg_to_cbor :: "close_msg \<Rightarrow> cbor" where
  "close_msg_to_cbor m = CMap
     [(1, CInt (close_final_offset m))]"

definition close_msg_from_cbor :: "cbor \<Rightarrow> decode_error + close_msg" where
  "close_msg_from_cbor c =
     and_then (field c 1 try_int) (\<lambda>x_final_offset.
     Inr \<lparr>close_final_offset = x_final_offset\<rparr>)"

definition closed_msg_to_cbor :: "closed_msg \<Rightarrow> cbor" where
  "closed_msg_to_cbor m = CMap
     [(1, CInt (disposition_wire (closed_disposition m))),
      (2, CBool (closed_unread_response_discarded m)),
      (3, facts_to_cbor (closed_facts m)),
      (4, opt_cbor (failure_to_cbor) (closed_failure m))]"

definition closed_msg_from_cbor :: "cbor \<Rightarrow> decode_error + closed_msg" where
  "closed_msg_from_cbor c =
     and_then (field c 1 (\<lambda>v. and_then (try_int v) disposition_from_wire)) (\<lambda>x_disposition.
     and_then (field c 2 try_bool) (\<lambda>x_unread_response_discarded.
     and_then (field c 3 facts_from_cbor) (\<lambda>x_facts.
     and_then (field_opt c 4 failure_from_cbor) (\<lambda>x_failure.
     Inr \<lparr>closed_disposition = x_disposition,
       closed_unread_response_discarded = x_unread_response_discarded,
       closed_facts = x_facts,
       closed_failure = x_failure\<rparr>))))"

definition cancel_msg_to_cbor :: "cancel_msg \<Rightarrow> cbor" where
  "cancel_msg_to_cbor m = CMap
     [(1, CInt (error_code_wire (cancel_reason m)))]"

definition cancel_msg_from_cbor :: "cbor \<Rightarrow> decode_error + cancel_msg" where
  "cancel_msg_from_cbor c =
     and_then (field c 1 (\<lambda>v. and_then (try_int v) error_code_from_wire)) (\<lambda>x_reason.
     Inr \<lparr>cancel_reason = x_reason\<rparr>)"

definition envelope_to_cbor :: "envelope \<Rightarrow> cbor" where
  "envelope_to_cbor m = CMap
     [(1, CInt (env_version m)),
      (2, CText (env_session_id m)),
      (3, CInt (env_stream_id m)),
      (4, CInt (message_kind_wire (env_kind m))),
      (5, opt_cbor (CInt) (env_message_seq m)),
      (10, opt_cbor (bind_msg_to_cbor) (env_bind m)),
      (11, opt_cbor (bound_msg_to_cbor) (env_bound m)),
      (12, opt_cbor (failure_to_cbor) (env_bind_rejected m)),
      (13, opt_cbor (open_msg_to_cbor) (env_open m)),
      (14, opt_cbor (opened_msg_to_cbor) (env_opened m)),
      (15, opt_cbor (failure_to_cbor) (env_open_failed m)),
      (16, opt_cbor (data_msg_to_cbor) (env_data m)),
      (17, opt_cbor (window_msg_to_cbor) (env_window m)),
      (18, opt_cbor (barrier_to_cbor) (env_flush m)),
      (19, opt_cbor (barrier_to_cbor) (env_flushed m)),
      (20, opt_cbor (end_write_msg_to_cbor) (env_end_write m)),
      (21, opt_cbor (close_msg_to_cbor) (env_close m)),
      (22, opt_cbor (closed_msg_to_cbor) (env_closed m)),
      (23, opt_cbor (cancel_msg_to_cbor) (env_cancel m)),
      (24, opt_cbor (failure_to_cbor) (env_failed m)),
      (25, opt_cbor (check_identity_msg_to_cbor) (env_check_identity m)),
      (26, opt_cbor (identity_checked_msg_to_cbor) (env_identity_checked m)),
      (27, opt_cbor (failure_to_cbor) (env_identity_check_failed m))]"

definition envelope_from_cbor :: "cbor \<Rightarrow> decode_error + envelope" where
  "envelope_from_cbor c =
     and_then (field c 1 try_int) (\<lambda>x_version.
     and_then (field c 2 try_text) (\<lambda>x_session_id.
     and_then (field c 3 try_int) (\<lambda>x_stream_id.
     and_then (field c 4 (\<lambda>v. and_then (try_int v) message_kind_from_wire)) (\<lambda>x_kind.
     and_then (field_opt_absent c 5 try_int) (\<lambda>x_message_seq.
     and_then (field_opt c 10 bind_msg_from_cbor) (\<lambda>x_bind.
     and_then (field_opt c 11 bound_msg_from_cbor) (\<lambda>x_bound.
     and_then (field_opt c 12 failure_from_cbor) (\<lambda>x_bind_rejected.
     and_then (field_opt c 13 open_msg_from_cbor) (\<lambda>x_open.
     and_then (field_opt c 14 opened_msg_from_cbor) (\<lambda>x_opened.
     and_then (field_opt c 15 failure_from_cbor) (\<lambda>x_open_failed.
     and_then (field_opt c 16 data_msg_from_cbor) (\<lambda>x_data.
     and_then (field_opt c 17 window_msg_from_cbor) (\<lambda>x_window.
     and_then (field_opt c 18 barrier_from_cbor) (\<lambda>x_flush.
     and_then (field_opt c 19 barrier_from_cbor) (\<lambda>x_flushed.
     and_then (field_opt c 20 end_write_msg_from_cbor) (\<lambda>x_end_write.
     and_then (field_opt c 21 close_msg_from_cbor) (\<lambda>x_close.
     and_then (field_opt c 22 closed_msg_from_cbor) (\<lambda>x_closed.
     and_then (field_opt c 23 cancel_msg_from_cbor) (\<lambda>x_cancel.
     and_then (field_opt c 24 failure_from_cbor) (\<lambda>x_failed.
     and_then (field_opt_absent c 25 check_identity_msg_from_cbor) (\<lambda>x_check_identity.
     and_then (field_opt_absent c 26 identity_checked_msg_from_cbor) (\<lambda>x_identity_checked.
     and_then (field_opt_absent c 27 failure_from_cbor) (\<lambda>x_identity_check_failed.
     Inr \<lparr>env_version = x_version,
       env_session_id = x_session_id,
       env_stream_id = x_stream_id,
       env_kind = x_kind,
       env_message_seq = x_message_seq,
       env_bind = x_bind,
       env_bound = x_bound,
       env_bind_rejected = x_bind_rejected,
       env_open = x_open,
       env_opened = x_opened,
       env_open_failed = x_open_failed,
       env_data = x_data,
       env_window = x_window,
       env_flush = x_flush,
       env_flushed = x_flushed,
       env_end_write = x_end_write,
       env_close = x_close,
       env_closed = x_closed,
       env_cancel = x_cancel,
       env_failed = x_failed,
       env_check_identity = x_check_identity,
       env_identity_checked = x_identity_checked,
       env_identity_check_failed = x_identity_check_failed\<rparr>)))))))))))))))))))))))"

section \<open>The contract of a message codec\<close>

lemma collect_map: "(\<And>x. g (f x) = Inr x) \<Longrightarrow> collect g (map f xs) = Inr xs"
  by (induction xs) auto

lemma opt_cbor_simps [simp]: "opt_cbor f None = CNull" "opt_cbor f (Some v) = f v"
  by (simp_all add: opt_cbor_def)

lemma field_simp: "field (CMap m) k g = (case map_of m k of Some v \<Rightarrow> g v | None \<Rightarrow> Inl (MissingKey k))"
  by (simp add: field_def split: option.split)

lemma field_opt_written:
  "map_of m k = Some (opt_cbor f x) \<Longrightarrow> (\<And>v. g (f v) = Inr v \<and> \<not> is_null (f v))
    \<Longrightarrow> field_opt (CMap m) k g = Inr x"
  by (cases x) (simp_all add: field_opt_def)

lemma field_opt_absent_written:
  "map_of m k = Some (opt_cbor f x) \<Longrightarrow> (\<And>v. g (f v) = Inr v \<and> \<not> is_null (f v))
    \<Longrightarrow> field_opt_absent (CMap m) k g = Inr x"
  by (cases x) (simp_all add: field_opt_absent_def)

locale cbor_message =
  fixes to_cbor :: "'m \<Rightarrow> cbor"
    and from_cbor :: "cbor \<Rightarrow> decode_error + 'm"
  assumes roundtrip [simp]: "from_cbor (to_cbor m) = Inr m"
    and to_cbor_map: "is_map (to_cbor m)"
    and to_cbor_canonical [simp]: "canonical (to_cbor m)"
begin

lemma to_cbor_not_null [simp]: "\<not> is_null (to_cbor m)"
  using to_cbor_map [of m] by (cases "to_cbor m") auto

lemma to_cbor_inject: "to_cbor m = to_cbor n \<longleftrightarrow> m = n"
  by (metis roundtrip sum.inject(2))

end

locale plain_message = cbor_message +
  assumes to_cbor_plain [simp]: "plain (to_cbor m)"

lemma opt_cbor_shape [simp]:
  "canonical (opt_cbor f x) \<longleftrightarrow> (\<forall>v. x = Some v \<longrightarrow> canonical (f v))"
  "plain (opt_cbor f x) \<longleftrightarrow> (\<forall>v. x = Some v \<longrightarrow> plain (f v))"
  by (cases x; simp)+

lemmas codec_simps = list_all_iff field_simp field_opt_written field_opt_absent_written collect_map

interpretation native_facts_codec: plain_message native_facts_to_cbor native_facts_from_cbor
  by unfold_locales (simp_all add: native_facts_to_cbor_def native_facts_from_cbor_def codec_simps)

interpretation limits_codec: plain_message limits_to_cbor limits_from_cbor
  by unfold_locales (simp_all add: limits_to_cbor_def limits_from_cbor_def codec_simps)

interpretation bind_msg_codec: plain_message bind_msg_to_cbor bind_msg_from_cbor
  by unfold_locales (simp_all add: bind_msg_to_cbor_def bind_msg_from_cbor_def codec_simps)

interpretation bound_msg_codec: plain_message bound_msg_to_cbor bound_msg_from_cbor
  by unfold_locales (simp_all add: bound_msg_to_cbor_def bound_msg_from_cbor_def codec_simps)

interpretation retry_attempt_codec: plain_message retry_attempt_to_cbor retry_attempt_from_cbor
  by unfold_locales (simp_all add: retry_attempt_to_cbor_def retry_attempt_from_cbor_def codec_simps)

interpretation capacity_detail_codec: plain_message capacity_detail_to_cbor capacity_detail_from_cbor
  by unfold_locales (simp_all add: capacity_detail_to_cbor_def capacity_detail_from_cbor_def codec_simps)

interpretation failure_detail_codec: plain_message failure_detail_to_cbor failure_detail_from_cbor
  by unfold_locales (simp_all add: failure_detail_to_cbor_def failure_detail_from_cbor_def codec_simps)

interpretation facts_codec: plain_message facts_to_cbor facts_from_cbor
  by unfold_locales (simp_all add: facts_to_cbor_def facts_from_cbor_def codec_simps)

interpretation failure_codec: plain_message failure_to_cbor failure_from_cbor
  by unfold_locales (simp_all add: failure_to_cbor_def failure_from_cbor_def codec_simps)

interpretation destination_codec: plain_message destination_to_cbor destination_from_cbor
  by unfold_locales (simp_all add: destination_to_cbor_def destination_from_cbor_def codec_simps)

interpretation identity_codec: plain_message identity_to_cbor identity_from_cbor
  by unfold_locales (simp_all add: identity_to_cbor_def identity_from_cbor_def codec_simps)

interpretation deadlines_codec: plain_message deadlines_to_cbor deadlines_from_cbor
  by unfold_locales (simp_all add: deadlines_to_cbor_def deadlines_from_cbor_def codec_simps)

interpretation open_msg_codec: plain_message open_msg_to_cbor open_msg_from_cbor
  by unfold_locales (simp_all add: open_msg_to_cbor_def open_msg_from_cbor_def codec_simps)

interpretation check_identity_msg_codec: plain_message check_identity_msg_to_cbor check_identity_msg_from_cbor
  by unfold_locales (simp_all add: check_identity_msg_to_cbor_def check_identity_msg_from_cbor_def codec_simps)

interpretation identity_checked_msg_codec: plain_message identity_checked_msg_to_cbor identity_checked_msg_from_cbor
  by unfold_locales
    (simp_all add: identity_checked_msg_to_cbor_def identity_checked_msg_from_cbor_def,
     metis identity_checked_msg.exhaust)

interpretation opened_msg_codec: plain_message opened_msg_to_cbor opened_msg_from_cbor
  by unfold_locales (simp_all add: opened_msg_to_cbor_def opened_msg_from_cbor_def codec_simps)

interpretation data_msg_codec: cbor_message data_msg_to_cbor data_msg_from_cbor
  by unfold_locales (simp_all add: data_msg_to_cbor_def data_msg_from_cbor_def codec_simps)

interpretation window_msg_codec: plain_message window_msg_to_cbor window_msg_from_cbor
  by unfold_locales (simp_all add: window_msg_to_cbor_def window_msg_from_cbor_def codec_simps)

interpretation barrier_codec: plain_message barrier_to_cbor barrier_from_cbor
  by unfold_locales (simp_all add: barrier_to_cbor_def barrier_from_cbor_def codec_simps)

interpretation end_write_msg_codec: plain_message end_write_msg_to_cbor end_write_msg_from_cbor
  by unfold_locales (simp_all add: end_write_msg_to_cbor_def end_write_msg_from_cbor_def codec_simps)

interpretation close_msg_codec: plain_message close_msg_to_cbor close_msg_from_cbor
  by unfold_locales (simp_all add: close_msg_to_cbor_def close_msg_from_cbor_def codec_simps)

interpretation closed_msg_codec: plain_message closed_msg_to_cbor closed_msg_from_cbor
  by unfold_locales (simp_all add: closed_msg_to_cbor_def closed_msg_from_cbor_def codec_simps)

interpretation cancel_msg_codec: plain_message cancel_msg_to_cbor cancel_msg_from_cbor
  by unfold_locales (simp_all add: cancel_msg_to_cbor_def cancel_msg_from_cbor_def codec_simps)

interpretation envelope_codec: cbor_message envelope_to_cbor envelope_from_cbor
  by unfold_locales (simp_all add: envelope_to_cbor_def envelope_from_cbor_def codec_simps)

end
