(* ===== verification/Budget.thy ===== *)
theory Budget
  imports Protocol_Codec
begin

text \<open>
  The admission budget, \<open>src/budget.rs\<close>, and the constants and error of \<open>src/codec.rs\<close>
  that it uses. A budget charges, node by node, the exact canonical encoded length of a
  message and a conservative allocation for its decoded form, and refuses as soon as a
  negotiated limit is passed.

  The theory also says what a walk of the budget over a CBOR tree computes: it succeeds
  exactly when the tree respects the local limits (\<open>local_ok\<close>: depth and string lengths)
  and the totals fit at the end, and then it has charged \<open>length (enc t)\<close> encoded bytes.
\<close>

section \<open>Constants and errors of the codec\<close>

definition max_frame :: usize where "max_frame = 131072"

definition max_bootstrap :: usize where "max_bootstrap = 65536"

definition max_data :: usize where "max_data = 65536"

definition max_metadata :: usize where "max_metadata = 16384"

definition max_depth :: usize where "max_depth = 16"

definition max_entries :: usize where "max_entries = 256"

definition max_allocation :: usize where "max_allocation = 524288"

definition max_bootstrap_allocation :: usize where "max_bootstrap_allocation = 262144"

datatype codec_error =
    Codec_FrameTooLarge
  | Codec_Bounds
  | Codec_InvalidMessage
  | Codec_UnsupportedVersion
  | Codec_Malformed

section \<open>The budget\<close>

record budget =
  b_encoded :: usize
  b_allocation :: usize
  b_entries :: usize
  b_bootstrap :: bool
  b_limits :: limits

text \<open>
  \<open>4 * size_of::<Cbor>() + 32\<close>. On a 64-bit target the value type is a 24-byte payload and
  a discriminant word: 32 bytes.
\<close>

definition node_charge :: usize where
  "node_charge = 4 * 32 + 32"

definition budget_head :: "u64 \<Rightarrow> usize" where
  "budget_head value =
     (if value \<le> 23 then 1
      else if value \<le> 255 then 2
      else if value \<le> 65535 then 3
      else if value \<le> 4294967295 then 5
      else 9)"

definition budget_new :: "bool \<Rightarrow> limits \<Rightarrow> budget" where
  "budget_new bootstrap limits =
     \<lparr>b_encoded = 0, b_allocation = 0, b_entries = 0, b_bootstrap = bootstrap, b_limits = limits\<rparr>"

definition frame_cap :: "budget \<Rightarrow> usize" where
  "frame_cap b =
     (let frame = i64_as_usize (lim_encoded_frame (b_limits b))
      in if b_bootstrap b then min frame max_bootstrap else frame)"

definition allocation_cap :: "budget \<Rightarrow> usize" where
  "allocation_cap b =
     (let allocation = i64_as_usize (lim_decode_allocation (b_limits b))
      in if b_bootstrap b then min allocation max_bootstrap_allocation else allocation)"

definition charge :: "usize \<Rightarrow> usize \<Rightarrow> budget \<Rightarrow> codec_error + budget" where
  "charge encoded allocation b =
     and_then (ok_or Codec_Bounds (checked_add_u64 (b_encoded b) encoded)) (\<lambda>e.
     and_then (ok_or Codec_Bounds (checked_add_u64 (b_allocation b) allocation)) (\<lambda>a.
     if e > frame_cap b then Inl Codec_Bounds
     else and_then (ok_or Codec_Bounds (checked_add_u64 a e)) (\<lambda>live.
       if live > allocation_cap b then Inl Codec_Bounds
       else Inr (b\<lparr>b_encoded := e, b_allocation := a\<rparr>))))"

definition node :: "usize \<Rightarrow> usize \<Rightarrow> budget \<Rightarrow> codec_error + budget" where
  "node depth encoded b =
     and_then (ok_or Codec_Bounds (checked_add_u64 (b_entries b) 1)) (\<lambda>n.
     if depth > i64_as_usize (lim_nesting (b_limits b))
        \<or> n > i64_as_usize (lim_collection_entries (b_limits b))
     then Inl Codec_Bounds
     else charge encoded node_charge (b\<lparr>b_entries := n\<rparr>))"

definition scalar :: "usize \<Rightarrow> budget \<Rightarrow> codec_error + budget" where
  "scalar depth b = node depth 1 b"

definition integer :: "i64 \<Rightarrow> usize \<Rightarrow> budget \<Rightarrow> codec_error + budget" where
  "integer value depth b =
     (let argument = (if value < 0 then nat (- value) - 1 else nat value)
      in node depth (budget_head argument) b)"

definition key :: "u64 \<Rightarrow> budget \<Rightarrow> codec_error + budget" where
  "key tag b = charge (budget_head tag) 32 b"

definition bytes :: "usize \<Rightarrow> usize \<Rightarrow> usize \<Rightarrow> budget \<Rightarrow> codec_error + budget" where
  "bytes len cap depth b =
     (let negotiated = (if cap = max_data then lim_data_payload (b_limits b)
                        else lim_metadata_bytes (b_limits b))
      in if len > min cap (i64_as_usize negotiated) then Inl Codec_Bounds
         else and_then (node depth (budget_head len) b) (\<lambda>b.
           and_then (ok_or Codec_Bounds (checked_mul_u64 len 4)) (\<lambda>a. charge len a b)))"

definition container :: "usize \<Rightarrow> usize \<Rightarrow> budget \<Rightarrow> codec_error + budget" where
  "container n depth b =
     and_then (node depth (budget_head n) b) (\<lambda>b.
     if n > i64_as_usize (lim_collection_entries (b_limits b)) - b_entries b
     then Inl Codec_Bounds else Inr b)"

definition total_charge :: "budget \<Rightarrow> codec_error + usize" where
  "total_charge b = ok_or Codec_Bounds (checked_add_u64 (b_encoded b) (b_allocation b))"

section \<open>A walk over a CBOR tree\<close>

text \<open>
  The specification of the generated visitors: the budget's operations in the order of the
  tree. Byte strings are data payloads, text is metadata.
\<close>

fun walk :: "cbor \<Rightarrow> usize \<Rightarrow> budget \<Rightarrow> codec_error + budget"
  and walk_items :: "cbor list \<Rightarrow> usize \<Rightarrow> budget \<Rightarrow> codec_error + budget"
  and walk_entries :: "(i64 \<times> cbor) list \<Rightarrow> usize \<Rightarrow> budget \<Rightarrow> codec_error + budget"
where
  "walk (CInt n) d b = integer n d b"
| "walk (CFloat x) d b = node d (length (enc_float x)) b"
| "walk (CBytes s) d b = bytes (length s) max_data d b"
| "walk (CText s) d b = bytes (length s) max_metadata d b"
| "walk (CArray a) d b = and_then (container (length a) d b) (walk_items a (d + 1))"
| "walk (CMap m) d b = and_then (container (length m) d b) (walk_entries m (d + 1))"
| "walk (CBool _) d b = scalar d b"
| "walk CNull d b = scalar d b"
| "walk_items [] d b = Inr b"
| "walk_items (t # ts) d b = and_then (walk t d b) (walk_items ts d)"
| "walk_entries [] d b = Inr b"
| "walk_entries ((k, t) # ts) d b =
     and_then (key (i64_as_usize k) b) (\<lambda>b. and_then (walk t d b) (walk_entries ts d))"

fun t_entries :: "cbor \<Rightarrow> nat" where
  "t_entries (CArray a) = 1 + sum_list (map t_entries a)"
| "t_entries (CMap m) = 1 + sum_list (map (\<lambda>e. t_entries (snd e)) m)"
| "t_entries _ = 1"

fun t_alloc :: "cbor \<Rightarrow> nat" where
  "t_alloc (CArray a) = node_charge + sum_list (map t_alloc a)"
| "t_alloc (CMap m) = node_charge + sum_list (map (\<lambda>e. 32 + t_alloc (snd e)) m)"
| "t_alloc (CBytes s) = node_charge + length s * 4"
| "t_alloc (CText s) = node_charge + length s * 4"
| "t_alloc _ = node_charge"

fun t_encoded :: "cbor \<Rightarrow> nat" where
  "t_encoded (CInt n) = budget_head (if n < 0 then nat (- n) - 1 else nat n)"
| "t_encoded (CFloat x) = length (enc_float x)"
| "t_encoded (CBytes s) = budget_head (length s) + length s"
| "t_encoded (CText s) = budget_head (length s) + length s"
| "t_encoded (CArray a) = budget_head (length a) + sum_list (map t_encoded a)"
| "t_encoded (CMap m) =
     budget_head (length m)
     + sum_list (map (\<lambda>e. budget_head (i64_as_usize (fst e)) + t_encoded (snd e)) m)"
| "t_encoded (CBool _) = 1"
| "t_encoded CNull = 1"

text \<open>The limits that concern one node alone: its depth, and the length of a string.\<close>

fun local_ok :: "limits \<Rightarrow> usize \<Rightarrow> cbor \<Rightarrow> bool" where
  "local_ok l d (CArray a) \<longleftrightarrow>
     d \<le> i64_as_usize (lim_nesting l) \<and> list_all (local_ok l (d + 1)) a"
| "local_ok l d (CMap m) \<longleftrightarrow>
     d \<le> i64_as_usize (lim_nesting l) \<and> list_all (\<lambda>e. local_ok l (d + 1) (snd e)) m"
| "local_ok l d (CBytes s) \<longleftrightarrow>
     d \<le> i64_as_usize (lim_nesting l) \<and> length s \<le> min max_data (i64_as_usize (lim_data_payload l))"
| "local_ok l d (CText s) \<longleftrightarrow>
     d \<le> i64_as_usize (lim_nesting l)
     \<and> length s \<le> min max_metadata (i64_as_usize (lim_metadata_bytes l))"
| "local_ok l d _ \<longleftrightarrow> d \<le> i64_as_usize (lim_nesting l)"

definition bump :: "nat \<Rightarrow> nat \<Rightarrow> nat \<Rightarrow> budget \<Rightarrow> budget" where
  "bump entries encoded allocation b =
     b\<lparr>b_entries := b_entries b + entries, b_encoded := b_encoded b + encoded,
       b_allocation := b_allocation b + allocation\<rparr>"

definition fits :: "budget \<Rightarrow> bool" where
  "fits b \<longleftrightarrow>
     b_encoded b \<le> frame_cap b \<and> b_allocation b + b_encoded b \<le> allocation_cap b
     \<and> b_entries b \<le> i64_as_usize (lim_collection_entries (b_limits b))"

section \<open>The budget's operations in closed form\<close>

lemma caps_le: "frame_cap b \<le> u64_max" "allocation_cap b \<le> u64_max"
  using i64_as_usize_le by (auto simp: frame_cap_def allocation_cap_def Let_def min.coboundedI1)

lemma bump_simps [simp]:
  "b_entries (bump n e a b) = b_entries b + n"
  "b_encoded (bump n e a b) = b_encoded b + e"
  "b_allocation (bump n e a b) = b_allocation b + a"
  "b_limits (bump n e a b) = b_limits b"
  "b_bootstrap (bump n e a b) = b_bootstrap b"
  "frame_cap (bump n e a b) = frame_cap b"
  "allocation_cap (bump n e a b) = allocation_cap b"
  by (simp_all add: bump_def frame_cap_def allocation_cap_def)

lemma caps_entries [simp]:
  "frame_cap (b\<lparr>b_entries := n\<rparr>) = frame_cap b"
  "allocation_cap (b\<lparr>b_entries := n\<rparr>) = allocation_cap b"
  by (simp_all add: frame_cap_def allocation_cap_def)

lemma bump_bump [simp]: "bump n e a (bump n' e' a' b) = bump (n' + n) (e' + e) (a' + a) b"
  by (simp add: bump_def)

lemma bump_zero [simp]: "bump 0 0 0 b = b"
  by (simp add: bump_def)

lemma fits_bumpD: "fits (bump n e a b) \<Longrightarrow> n' \<le> n \<Longrightarrow> e' \<le> e \<Longrightarrow> a' \<le> a \<Longrightarrow> fits (bump n' e' a' b)"
  by (auto simp: fits_def)

lemma fits_bump_self: "fits (bump n e a b) \<Longrightarrow> fits b"
  using fits_bumpD [of n e a b 0 0 0] by simp

lemma charge_eq:
  "charge e a b = (if b_encoded b + e \<le> frame_cap b
       \<and> b_allocation b + a + (b_encoded b + e) \<le> allocation_cap b
     then Inr (bump 0 e a b) else Inl Codec_Bounds)"
  using caps_le [of b]
  by (auto simp: charge_def checked_add_u64_def bump_def and_then_def ok_or_def)

lemma charge_fits: "fits b \<Longrightarrow> charge e a b = (if fits (bump 0 e a b) then Inr (bump 0 e a b) else Inl Codec_Bounds)"
  by (auto simp: charge_eq fits_def)

lemma node_eq:
  "node d e b = (if d \<le> i64_as_usize (lim_nesting (b_limits b)) \<and> fits (bump 1 e node_charge b)
     then Inr (bump 1 e node_charge b) else Inl Codec_Bounds)"
  using i64_as_usize_le [of "lim_collection_entries (b_limits b)"]
  by (auto simp: node_def checked_add_u64_def charge_eq fits_def)

lemma bytes_eq:
  assumes "cap = max_data \<and> neg = lim_data_payload (b_limits b)
    \<or> cap = max_metadata \<and> neg = lim_metadata_bytes (b_limits b)"
  shows "bytes len cap d b =
     (if len \<le> min cap (i64_as_usize neg) \<and> d \<le> i64_as_usize (lim_nesting (b_limits b))
         \<and> fits (bump 1 (budget_head len + len) (node_charge + len * 4) b)
      then Inr (bump 1 (budget_head len + len) (node_charge + len * 4) b) else Inl Codec_Bounds)"
proof -
  have neg: "(if cap = max_data then lim_data_payload (b_limits b) else lim_metadata_bytes (b_limits b)) = neg"
    using assms by (auto simp: max_data_def max_metadata_def)
  have small: "len \<le> cap \<Longrightarrow> len * 4 \<le> u64_max"
    using assms by (auto simp: max_data_def max_metadata_def u64_max_def)
  let ?n = "bump 1 (budget_head len) node_charge b"
  have "fits (bump 1 (budget_head len + len) (node_charge + len * 4) b) \<Longrightarrow> fits ?n"
    by (erule fits_bumpD) simp_all
  then show ?thesis
    using small charge_fits [of ?n len "len * 4"]
    by (auto simp: bytes_def Let_def neg node_eq checked_mul_u64_def)
qed

lemma container_eq:
  "container n d b = (if d \<le> i64_as_usize (lim_nesting (b_limits b))
       \<and> fits (bump 1 (budget_head n) node_charge b)
       \<and> b_entries b + 1 + n \<le> i64_as_usize (lim_collection_entries (b_limits b))
     then Inr (bump 1 (budget_head n) node_charge b) else Inl Codec_Bounds)"
  by (auto simp: container_def node_eq fits_def)

section \<open>The walk in closed form\<close>

lemma t_entries_pos: "1 \<le> t_entries t"
  by (cases t) auto

lemma length_le_entries: "length ts \<le> sum_list (map t_entries ts)"
  by (induction ts) (auto simp: t_entries_pos add_mono_thms_linordered_semiring(1) intro: add_mono [OF t_entries_pos, simplified])

lemma length_le_entries_map: "length m \<le> sum_list (map (\<lambda>e. t_entries (snd e)) m)"
  using length_le_entries [of "map snd m"] by (simp add: comp_def)

lemma walk_eq:
  "walk t d b = (if local_ok (b_limits b) d t \<and> fits (bump (t_entries t) (t_encoded t) (t_alloc t) b)
     then Inr (bump (t_entries t) (t_encoded t) (t_alloc t) b) else Inl Codec_Bounds)"
  "fits b \<Longrightarrow> walk_items ts d b =
     (if list_all (local_ok (b_limits b) d) ts
         \<and> fits (bump (sum_list (map t_entries ts)) (sum_list (map t_encoded ts)) (sum_list (map t_alloc ts)) b)
      then Inr (bump (sum_list (map t_entries ts)) (sum_list (map t_encoded ts)) (sum_list (map t_alloc ts)) b)
      else Inl Codec_Bounds)"
  "fits b \<Longrightarrow> walk_entries m d b =
     (let n = sum_list (map (\<lambda>e. t_entries (snd e)) m);
          e = sum_list (map (\<lambda>e. budget_head (i64_as_usize (fst e)) + t_encoded (snd e)) m);
          a = sum_list (map (\<lambda>e. 32 + t_alloc (snd e)) m)
      in if list_all (\<lambda>e. local_ok (b_limits b) d (snd e)) m \<and> fits (bump n e a b)
         then Inr (bump n e a b) else Inl Codec_Bounds)"
proof (induction t d b and ts d b and m d b rule: walk_walk_items_walk_entries.induct)
  case (3 s d b)
  then show ?case using bytes_eq [of max_data "lim_data_payload (b_limits b)" b] by simp
next
  case (4 s d b)
  then show ?case using bytes_eq [of max_metadata "lim_metadata_bytes (b_limits b)" b] by simp
next
  case (5 a d b)
  let ?b = "bump 1 (budget_head (length a)) node_charge b"
  have cnt: "b_entries b + 1 + length a \<le> i64_as_usize (lim_collection_entries (b_limits b))"
    and one: "fits ?b" if "fits (bump (t_entries (CArray a)) (t_encoded (CArray a)) (t_alloc (CArray a)) b)"
    using that length_le_entries [of a] by (auto simp: fits_def)
  show ?case
  proof (cases "container (length a) d b")
    case (Inl e)
    then show ?thesis using cnt one by (auto simp: container_eq split: if_splits)
  next
    case (Inr b')
    then have b': "b' = ?b" "fits ?b" "d \<le> i64_as_usize (lim_nesting (b_limits b))"
      by (auto simp: container_eq split: if_splits)
    show ?thesis using Inr b' 5 [OF Inr] by (simp add: ac_simps)
  qed
next
  case (6 m d b)
  let ?b = "bump 1 (budget_head (length m)) node_charge b"
  have cnt: "b_entries b + 1 + length m \<le> i64_as_usize (lim_collection_entries (b_limits b))"
    and one: "fits ?b" if "fits (bump (t_entries (CMap m)) (t_encoded (CMap m)) (t_alloc (CMap m)) b)"
    using that length_le_entries_map [of m] by (auto simp: fits_def)
  show ?case
  proof (cases "container (length m) d b")
    case (Inl e)
    then show ?thesis using cnt one by (auto simp: container_eq split: if_splits)
  next
    case (Inr b')
    then have b': "b' = ?b" "fits ?b" "d \<le> i64_as_usize (lim_nesting (b_limits b))"
      by (auto simp: container_eq split: if_splits)
    show ?thesis using Inr b' 6 [OF Inr] by (simp add: Let_def ac_simps)
  qed
next
  case (10 t ts d b)
  show ?case
  proof (cases "walk t d b")
    case (Inl e)
    have "fits (bump (t_entries t) (t_encoded t) (t_alloc t) b)"
      if "fits (bump (sum_list (map t_entries (t # ts))) (sum_list (map t_encoded (t # ts)))
        (sum_list (map t_alloc (t # ts))) b)"
      by (rule fits_bumpD [OF that]) simp_all
    then show ?thesis using Inl 10(1) by (auto split: if_splits)
  next
    case (Inr b')
    then have b': "b' = bump (t_entries t) (t_encoded t) (t_alloc t) b" "fits b'"
      "local_ok (b_limits b) d t"
      using 10(1) by (auto split: if_splits)
    show ?thesis using Inr b' 10(2) [OF Inr] by simp
  qed
next
  case (12 k t ts d b)
  let ?h = "budget_head (i64_as_usize k)"
  let ?b1 = "bump 0 ?h 32 b"
  show ?case
  proof (cases "fits ?b1")
    case False
    have "fits ?b1" if "fits (bump n (?h + e) (32 + a) b)" for n e a
      by (rule fits_bumpD [OF that]) simp_all
    then show ?thesis using False 12(3) by (auto simp: key_def charge_fits Let_def add.assoc)
  next
    case True
    then have k: "key (i64_as_usize k) b = Inr ?b1" using 12(3) by (simp add: key_def charge_fits)
    note w = 12(1) [OF k]
    show ?thesis
    proof (cases "walk t d ?b1")
      case (Inl e)
      have "fits (bump (t_entries t) (t_encoded t) (t_alloc t) ?b1)"
        if "fits (bump (t_entries t + n) (?h + t_encoded t + e) (32 + t_alloc t + a) b)" for n e a
        by simp (rule fits_bumpD [OF that], simp_all)
      then show ?thesis using k Inl w by (auto simp: Let_def add.assoc split: if_splits)
    next
      case (Inr b')
      then have b': "b' = bump (t_entries t) (t_encoded t) (t_alloc t) ?b1" "fits b'"
        "local_ok (b_limits b) d t"
        using w by (auto split: if_splits)
      show ?thesis using Inr k b' 12(2) [OF k Inr] by (simp add: Let_def add.assoc)
    qed
  qed
qed (auto simp: integer_def scalar_def node_eq Let_def)


section \<open>Encoded lengths\<close>

lemma head_length: "length (head major n) = budget_head n"
  by (simp add: head_def budget_head_def Let_def)

lemma t_encoded_eq: "rust_cbor t \<Longrightarrow> t_encoded t = length (enc t)"
proof (induction t rule: t_encoded.induct)
  case (1 n)
  have "nat (- n) - 1 = nat (- 1 - n)"
    by linarith
  with 1 show ?case
    by (auto simp: head_length i64_as_usize_nonneg arith_defs)
next
  case (5 a)
  then show ?case
    by (simp add: head_length length_concat comp_def list_all_iff cong: map_cong)
next
  case (6 m)
  have "sum_list (map (\<lambda>e. length (head 0 (i64_as_usize (fst e)) @ enc (snd e))) m)
      = sum_list (map (\<lambda>e. budget_head (i64_as_usize (fst e)) + t_encoded (snd e)) m)"
    using 6 by (simp add: head_length list_all_iff cong: map_cong)
  then show ?case
    by (simp add: head_length length_concat comp_def sum_list_sort_key)
qed (simp_all add: head_length string_bytes_def)

lemma budget_head_le: "budget_head n \<le> 9"
  by (simp add: budget_head_def)

end
