(* ===== verification/Admission.thy ===== *)
theory Admission
  imports Budget
begin

text \<open>
  The generated visitors of \<open>src/admission.rs\<close>: for every protocol struct, the budget
  operations its fields cost, in the order of the fields. \<open>run\<close> is the sequence of
  statements, each ending in \<open>?\<close>.

  The generated code never builds the CBOR value. The theorems show that it charges exactly
  what a walk over \<open>to_cbor\<close> of the message would, so that the encoded length it
  admits is the length of the frame that is sent.
\<close>

section \<open>Visitors\<close>

fun run :: "(budget \<Rightarrow> codec_error + budget) list \<Rightarrow> budget \<Rightarrow> codec_error + budget" where
  "run [] b = Inr b"
| "run (f # fs) b = and_then (f b) (run fs)"

definition visit_native_facts :: "native_facts \<Rightarrow> usize \<Rightarrow> budget \<Rightarrow> codec_error + budget" where
  "visit_native_facts m d = run
     [container 5 d,
      key 1, integer (native_source_wire (nf_source m)) (d + 1),
      key 2, integer (native_scheme_wire (nf_scheme m)) (d + 1),
      key 3, integer (native_observation_wire (nf_observation m)) (d + 1),
      key 4, (case nf_mechanism m of Some v \<Rightarrow> integer (native_mechanism_wire v) (d + 1) | None \<Rightarrow> scalar (d + 1)),
      key 5, scalar (d + 1)]"

definition visit_limits :: "limits \<Rightarrow> usize \<Rightarrow> budget \<Rightarrow> codec_error + budget" where
  "visit_limits m d = run
     [container 11 d,
      key 1, integer (lim_encoded_frame m) (d + 1),
      key 2, integer (lim_data_payload m) (d + 1),
      key 3, integer (lim_metadata_bytes m) (d + 1),
      key 4, integer (lim_nesting m) (d + 1),
      key 5, integer (lim_collection_entries m) (d + 1),
      key 6, integer (lim_decode_allocation m) (d + 1),
      key 7, integer (lim_queued_bytes m) (d + 1),
      key 8, integer (lim_queued_frames m) (d + 1),
      key 9, integer (lim_receive_window m) (d + 1),
      key 10, integer (lim_control_reserve_bytes m) (d + 1),
      key 11, integer (lim_control_reserve_frames m) (d + 1)]"

definition visit_bind_msg :: "bind_msg \<Rightarrow> usize \<Rightarrow> budget \<Rightarrow> codec_error + budget" where
  "visit_bind_msg m d = run
     [container 5 d,
      key 1, container (length (bind_versions m)) (d + 1),
        run (map (\<lambda>v. integer v (d + 1 + 1)) (bind_versions m)),
      key 2, integer (endpoint_role_wire (bind_role m)) (d + 1),
      key 3, container (length (bind_schemes m)) (d + 1),
        run (map (\<lambda>v. integer (scheme_wire v) (d + 1 + 1)) (bind_schemes m)),
      key 4, container (length (bind_policies m)) (d + 1),
        run (map (\<lambda>v. integer (auth_policy_wire v) (d + 1 + 1)) (bind_policies m)),
      key 5, visit_limits (bind_receive_limits m) (d + 1)]"

definition visit_bound_msg :: "bound_msg \<Rightarrow> usize \<Rightarrow> budget \<Rightarrow> codec_error + budget" where
  "visit_bound_msg m d = run
     [container 7 d,
      key 1, integer (bound_version m) (d + 1),
      key 2, bytes (length (bound_endpoint_id m)) max_metadata (d + 1),
      key 3, integer (endpoint_role_wire (bound_role m)) (d + 1),
      key 4, container (length (bound_schemes m)) (d + 1),
        run (map (\<lambda>v. integer (scheme_wire v) (d + 1 + 1)) (bound_schemes m)),
      key 5, container (length (bound_policies m)) (d + 1),
        run (map (\<lambda>v. integer (auth_policy_wire v) (d + 1 + 1)) (bound_policies m)),
      key 6, visit_limits (bound_receive_limits m) (d + 1),
      key 7, bytes (length (bound_trust_owner m)) max_metadata (d + 1)]"

definition visit_retry_attempt :: "retry_attempt \<Rightarrow> usize \<Rightarrow> budget \<Rightarrow> codec_error + budget" where
  "visit_retry_attempt m d = run
     [container 2 d,
      key 1, integer (ra_attempt m) (d + 1),
      key 2, integer (ra_attempts m) (d + 1)]"

definition visit_capacity_detail :: "capacity_detail \<Rightarrow> usize \<Rightarrow> budget \<Rightarrow> codec_error + budget" where
  "visit_capacity_detail m d = run
     [container 9 d,
      key 1, integer (capacity_cause_wire (cap_cause m)) (d + 1),
      key 2, (case cap_scheme m of Some v \<Rightarrow> integer (scheme_wire v) (d + 1) | None \<Rightarrow> scalar (d + 1)),
      key 3, (case cap_host m of Some v \<Rightarrow> bytes (length v) max_metadata (d + 1) | None \<Rightarrow> scalar (d + 1)),
      key 4, (case cap_port m of Some v \<Rightarrow> integer v (d + 1) | None \<Rightarrow> scalar (d + 1)),
      key 5, (case cap_limit_applied m of Some v \<Rightarrow> integer v (d + 1) | None \<Rightarrow> scalar (d + 1)),
      key 6, (case cap_max_per_host m of Some v \<Rightarrow> integer v (d + 1) | None \<Rightarrow> scalar (d + 1)),
      key 7, (case cap_elapsed_ms m of Some v \<Rightarrow> integer v (d + 1) | None \<Rightarrow> scalar (d + 1)),
      key 8, (case cap_last_signal m of Some v \<Rightarrow> integer (capacity_signal_wire v) (d + 1) | None \<Rightarrow> scalar (d + 1)),
      key 9, (case cap_retry_after_ms m of Some v \<Rightarrow> integer v (d + 1) | None \<Rightarrow> scalar (d + 1))]"

definition visit_failure_detail :: "failure_detail \<Rightarrow> usize \<Rightarrow> budget \<Rightarrow> codec_error + budget" where
  "visit_failure_detail m d = run
     [container 6 d,
      key 1, (case fd_helper_cause m of Some v \<Rightarrow> integer (helper_failure_cause_wire v) (d + 1) | None \<Rightarrow> scalar (d + 1)),
      key 2, (case fd_pipe_kind m of Some v \<Rightarrow> bytes (length v) max_metadata (d + 1) | None \<Rightarrow> scalar (d + 1)),
      key 3, (case fd_schemes m of Some v \<Rightarrow> run [container (length v) (d + 1), run (map (\<lambda>v. bytes (length v) max_metadata (d + 1 + 1)) v)] | None \<Rightarrow> scalar (d + 1)),
      key 4, (case fd_retry_attempt m of Some v \<Rightarrow> visit_retry_attempt v (d + 1) | None \<Rightarrow> scalar (d + 1)),
      key 5, (case fd_helper_budget_ms m of Some v \<Rightarrow> integer v (d + 1) | None \<Rightarrow> scalar (d + 1)),
      key 6, (case fd_capacity m of Some v \<Rightarrow> visit_capacity_detail v (d + 1) | None \<Rightarrow> scalar (d + 1))]"

definition visit_facts :: "facts \<Rightarrow> usize \<Rightarrow> budget \<Rightarrow> codec_error + budget" where
  "visit_facts m d = run
     [container 7 d,
      key 1, integer (auth_method_wire (facts_method m)) (d + 1),
      key 2, scalar (d + 1),
      key 3, (case facts_authenticated m of Some v \<Rightarrow> scalar (d + 1) | None \<Rightarrow> scalar (d + 1)),
      key 4, (case facts_key_fingerprint m of Some v \<Rightarrow> bytes (length v) max_metadata (d + 1) | None \<Rightarrow> scalar (d + 1)),
      key 5, (case facts_http_status m of Some v \<Rightarrow> integer v (d + 1) | None \<Rightarrow> scalar (d + 1)),
      key 6, (case facts_ssh_exit_status m of Some v \<Rightarrow> integer v (d + 1) | None \<Rightarrow> scalar (d + 1)),
      key 7, (case facts_native m of Some v \<Rightarrow> visit_native_facts v (d + 1) | None \<Rightarrow> scalar (d + 1))]"

definition visit_failure :: "failure \<Rightarrow> usize \<Rightarrow> budget \<Rightarrow> codec_error + budget" where
  "visit_failure m d = run
     [container 5 d,
      key 1, integer (error_code_wire (fail_code m)) (d + 1),
      key 2, integer (effect_wire (fail_effect m)) (d + 1),
      key 3, (case fail_facts m of Some v \<Rightarrow> visit_facts v (d + 1) | None \<Rightarrow> scalar (d + 1)),
      key 4, (case fail_setup_cause m of Some v \<Rightarrow> integer (setup_failure_cause_wire v) (d + 1) | None \<Rightarrow> scalar (d + 1)),
      key 5, (case fail_detail m of Some v \<Rightarrow> visit_failure_detail v (d + 1) | None \<Rightarrow> scalar (d + 1))]"

definition visit_destination :: "destination \<Rightarrow> usize \<Rightarrow> budget \<Rightarrow> codec_error + budget" where
  "visit_destination m d = run
     [container 6 d,
      key 1, integer (scheme_wire (dest_scheme m)) (d + 1),
      key 2, bytes (length (dest_host m)) max_metadata (d + 1),
      key 3, integer (dest_port m) (d + 1),
      key 4, bytes (length (dest_path m)) max_metadata (d + 1),
      key 5, (case dest_ssh_username m of Some v \<Rightarrow> bytes (length v) max_metadata (d + 1) | None \<Rightarrow> scalar (d + 1)),
      key 6, (case dest_https_username m of Some v \<Rightarrow> bytes (length v) max_metadata (d + 1) | None \<Rightarrow> scalar (d + 1))]"

definition visit_identity :: "identity \<Rightarrow> usize \<Rightarrow> budget \<Rightarrow> codec_error + budget" where
  "visit_identity m d = run
     [container 3 d,
      key 1, integer (identity_mode_wire (ident_mode m)) (d + 1),
      key 2, (case ident_key_path m of Some v \<Rightarrow> bytes (length v) max_metadata (d + 1) | None \<Rightarrow> scalar (d + 1)),
      key 3, (case ident_path_base m of Some v \<Rightarrow> bytes (length v) max_metadata (d + 1) | None \<Rightarrow> scalar (d + 1))]"

definition visit_deadlines :: "deadlines \<Rightarrow> usize \<Rightarrow> budget \<Rightarrow> codec_error + budget" where
  "visit_deadlines m d = run
     [container 5 d,
      key 1, integer (dl_allocation_ms m) (d + 1),
      key 2, integer (dl_connect_ms m) (d + 1),
      key 3, integer (dl_io_ms m) (d + 1),
      key 4, integer (dl_interaction_ms m) (d + 1),
      key 5, integer (dl_cleanup_ms m) (d + 1)]"

definition visit_open_msg :: "open_msg \<Rightarrow> usize \<Rightarrow> budget \<Rightarrow> codec_error + budget" where
  "visit_open_msg m d = run
     [container 8 d,
      key 1, bytes (length (open_endpoint_id m)) max_metadata (d + 1),
      key 2, bytes (length (open_operation_id m)) max_metadata (d + 1),
      key 3, visit_destination (open_destination m) (d + 1),
      key 4, integer (git_service_wire (open_service m)) (d + 1),
      key 5, visit_identity (open_identity m) (d + 1),
      key 6, integer (auth_policy_wire (open_policy m)) (d + 1),
      key 7, visit_deadlines (open_deadlines m) (d + 1),
      key 8, visit_limits (open_receive_limits m) (d + 1)]"

definition visit_check_identity_msg :: "check_identity_msg \<Rightarrow> usize \<Rightarrow> budget \<Rightarrow> codec_error + budget" where
  "visit_check_identity_msg m d = run
     [container 4 d,
      key 1, bytes (length (check_endpoint_id m)) max_metadata (d + 1),
      key 2, bytes (length (check_operation_id m)) max_metadata (d + 1),
      key 3, visit_identity (check_identity m) (d + 1),
      key 4, integer (check_timeout_ms m) (d + 1)]"

definition visit_identity_checked_msg :: "identity_checked_msg \<Rightarrow> usize \<Rightarrow> budget \<Rightarrow> codec_error + budget" where
  "visit_identity_checked_msg m d = run
     [container 0 d]"

definition visit_opened_msg :: "opened_msg \<Rightarrow> usize \<Rightarrow> budget \<Rightarrow> codec_error + budget" where
  "visit_opened_msg m d = run
     [container 6 d,
      key 1, bytes (length (opened_connection_id m)) max_metadata (d + 1),
      key 2, scalar (d + 1),
      key 3, bytes (length (opened_endpoint_id m)) max_metadata (d + 1),
      key 4, bytes (length (opened_trust_owner m)) max_metadata (d + 1),
      key 5, visit_facts (opened_facts m) (d + 1),
      key 6, visit_limits (opened_receive_limits m) (d + 1)]"

definition visit_data_msg :: "data_msg \<Rightarrow> usize \<Rightarrow> budget \<Rightarrow> codec_error + budget" where
  "visit_data_msg m d = run
     [container 2 d,
      key 1, integer (data_offset m) (d + 1),
      key 2, bytes (length (data_payload m)) max_data (d + 1)]"

definition visit_window_msg :: "window_msg \<Rightarrow> usize \<Rightarrow> budget \<Rightarrow> codec_error + budget" where
  "visit_window_msg m d = run
     [container 1 d,
      key 1, integer (window_max_offset m) (d + 1)]"

definition visit_barrier :: "barrier \<Rightarrow> usize \<Rightarrow> budget \<Rightarrow> codec_error + budget" where
  "visit_barrier m d = run
     [container 2 d,
      key 1, integer (barrier_barrier_id m) (d + 1),
      key 2, integer (barrier_offset m) (d + 1)]"

definition visit_end_write_msg :: "end_write_msg \<Rightarrow> usize \<Rightarrow> budget \<Rightarrow> codec_error + budget" where
  "visit_end_write_msg m d = run
     [container 1 d,
      key 1, integer (endw_final_offset m) (d + 1)]"

definition visit_close_msg :: "close_msg \<Rightarrow> usize \<Rightarrow> budget \<Rightarrow> codec_error + budget" where
  "visit_close_msg m d = run
     [container 1 d,
      key 1, integer (close_final_offset m) (d + 1)]"

definition visit_closed_msg :: "closed_msg \<Rightarrow> usize \<Rightarrow> budget \<Rightarrow> codec_error + budget" where
  "visit_closed_msg m d = run
     [container 4 d,
      key 1, integer (disposition_wire (closed_disposition m)) (d + 1),
      key 2, scalar (d + 1),
      key 3, visit_facts (closed_facts m) (d + 1),
      key 4, (case closed_failure m of Some v \<Rightarrow> visit_failure v (d + 1) | None \<Rightarrow> scalar (d + 1))]"

definition visit_cancel_msg :: "cancel_msg \<Rightarrow> usize \<Rightarrow> budget \<Rightarrow> codec_error + budget" where
  "visit_cancel_msg m d = run
     [container 1 d,
      key 1, integer (error_code_wire (cancel_reason m)) (d + 1)]"

definition visit_envelope :: "envelope \<Rightarrow> usize \<Rightarrow> budget \<Rightarrow> codec_error + budget" where
  "visit_envelope m d = run
     [container 23 d,
      key 1, integer (env_version m) (d + 1),
      key 2, bytes (length (env_session_id m)) max_metadata (d + 1),
      key 3, integer (env_stream_id m) (d + 1),
      key 4, integer (message_kind_wire (env_kind m)) (d + 1),
      key 5, (case env_message_seq m of Some v \<Rightarrow> integer v (d + 1) | None \<Rightarrow> scalar (d + 1)),
      key 10, (case env_bind m of Some v \<Rightarrow> visit_bind_msg v (d + 1) | None \<Rightarrow> scalar (d + 1)),
      key 11, (case env_bound m of Some v \<Rightarrow> visit_bound_msg v (d + 1) | None \<Rightarrow> scalar (d + 1)),
      key 12, (case env_bind_rejected m of Some v \<Rightarrow> visit_failure v (d + 1) | None \<Rightarrow> scalar (d + 1)),
      key 13, (case env_open m of Some v \<Rightarrow> visit_open_msg v (d + 1) | None \<Rightarrow> scalar (d + 1)),
      key 14, (case env_opened m of Some v \<Rightarrow> visit_opened_msg v (d + 1) | None \<Rightarrow> scalar (d + 1)),
      key 15, (case env_open_failed m of Some v \<Rightarrow> visit_failure v (d + 1) | None \<Rightarrow> scalar (d + 1)),
      key 16, (case env_data m of Some v \<Rightarrow> visit_data_msg v (d + 1) | None \<Rightarrow> scalar (d + 1)),
      key 17, (case env_window m of Some v \<Rightarrow> visit_window_msg v (d + 1) | None \<Rightarrow> scalar (d + 1)),
      key 18, (case env_flush m of Some v \<Rightarrow> visit_barrier v (d + 1) | None \<Rightarrow> scalar (d + 1)),
      key 19, (case env_flushed m of Some v \<Rightarrow> visit_barrier v (d + 1) | None \<Rightarrow> scalar (d + 1)),
      key 20, (case env_end_write m of Some v \<Rightarrow> visit_end_write_msg v (d + 1) | None \<Rightarrow> scalar (d + 1)),
      key 21, (case env_close m of Some v \<Rightarrow> visit_close_msg v (d + 1) | None \<Rightarrow> scalar (d + 1)),
      key 22, (case env_closed m of Some v \<Rightarrow> visit_closed_msg v (d + 1) | None \<Rightarrow> scalar (d + 1)),
      key 23, (case env_cancel m of Some v \<Rightarrow> visit_cancel_msg v (d + 1) | None \<Rightarrow> scalar (d + 1)),
      key 24, (case env_failed m of Some v \<Rightarrow> visit_failure v (d + 1) | None \<Rightarrow> scalar (d + 1)),
      key 25, (case env_check_identity m of Some v \<Rightarrow> visit_check_identity_msg v (d + 1) | None \<Rightarrow> scalar (d + 1)),
      key 26, (case env_identity_checked m of Some v \<Rightarrow> visit_identity_checked_msg v (d + 1) | None \<Rightarrow> scalar (d + 1)),
      key 27, (case env_identity_check_failed m of Some v \<Rightarrow> visit_failure v (d + 1) | None \<Rightarrow> scalar (d + 1))]"

section \<open>Admission\<close>

definition allocation_charge :: "envelope \<Rightarrow> limits \<Rightarrow> codec_error + usize" where
  "allocation_charge m limits =
     and_then (visit_envelope m 0 (budget_new (env_stream_id m = 0) limits)) total_charge"

definition admit_envelope :: "envelope \<Rightarrow> limits \<Rightarrow> codec_error + unit" where
  "admit_envelope m limits = and_then (allocation_charge m limits) (\<lambda>_. Inr ())"

text \<open>
  What admission decides: the tree respects the local limits and its totals fit the
  budget's caps.
\<close>

definition admissible :: "bool \<Rightarrow> limits \<Rightarrow> cbor \<Rightarrow> bool" where
  "admissible boot l t \<longleftrightarrow>
     local_ok l 0 t \<and> fits (bump (t_entries t) (t_encoded t) (t_alloc t) (budget_new boot l))"

section \<open>A visitor is a walk over the message's CBOR value\<close>

text \<open>The equations of both sides as sequences of budget steps.\<close>

lemma run_fun: "run [] = Inr" "run (f # fs) = (\<lambda>b. and_then (f b) (run fs))"
  by (simp_all add: fun_eq_iff)

lemma walk_fun:
  "walk (CInt n) d = integer n d"
  "walk (CBytes s) d = bytes (length s) max_data d"
  "walk (CText w) d = bytes (length w) max_metadata d"
  "walk (CArray a) d = (\<lambda>b. and_then (container (length a) d b) (walk_items a (d + 1)))"
  "walk (CMap m) d = (\<lambda>b. and_then (container (length m) d b) (walk_entries m (d + 1)))"
  "walk (CBool x) d = scalar d"
  "walk CNull d = scalar d"
  "walk_items [] d = Inr"
  "walk_items (t # ts) d = (\<lambda>b. and_then (walk t d b) (walk_items ts d))"
  "walk_entries [] d = Inr"
  "walk_entries ((k, t) # m) d =
     (\<lambda>b. and_then (key (i64_as_usize k) b) (\<lambda>b. and_then (walk t d b) (walk_entries m d)))"
  by (simp_all add: fun_eq_iff)

lemma walk_opt: "walk (opt_cbor f x) d = (case x of Some v \<Rightarrow> walk (f v) d | None \<Rightarrow> scalar d)"
  by (cases x) (simp_all add: fun_eq_iff)

lemma walk_items_map: "walk_items (map f xs) d = run (map (\<lambda>x. walk (f x) d) xs)"
  by (induction xs) (simp_all add: run_fun walk_fun)

lemma length_plus1: "length (x # xs) = length xs + 1"
  by simp

lemmas visit_simps = length_plus1 run_fun walk_fun walk_opt walk_items_map i64_as_usize_numeral i64_as_usize_one
  and_then_assoc

lemma visit_native_facts_eq: "visit_native_facts m d = walk (native_facts_to_cbor m) d"
  by (simp add: visit_native_facts_def native_facts_to_cbor_def visit_simps
    del: One_nat_def list.size(4) cong: option.case_cong)

lemma visit_limits_eq: "visit_limits m d = walk (limits_to_cbor m) d"
  by (simp add: visit_limits_def limits_to_cbor_def visit_simps
    del: One_nat_def list.size(4) cong: option.case_cong)

lemma visit_bind_msg_eq: "visit_bind_msg m d = walk (bind_msg_to_cbor m) d"
  by (simp add: visit_bind_msg_def bind_msg_to_cbor_def visit_simps visit_limits_eq
    del: One_nat_def list.size(4) cong: option.case_cong)

lemma visit_bound_msg_eq: "visit_bound_msg m d = walk (bound_msg_to_cbor m) d"
  by (simp add: visit_bound_msg_def bound_msg_to_cbor_def visit_simps visit_limits_eq
    del: One_nat_def list.size(4) cong: option.case_cong)

lemma visit_retry_attempt_eq: "visit_retry_attempt m d = walk (retry_attempt_to_cbor m) d"
  by (simp add: visit_retry_attempt_def retry_attempt_to_cbor_def visit_simps
    del: One_nat_def list.size(4) cong: option.case_cong)

lemma visit_capacity_detail_eq: "visit_capacity_detail m d = walk (capacity_detail_to_cbor m) d"
  by (simp add: visit_capacity_detail_def capacity_detail_to_cbor_def visit_simps
    del: One_nat_def list.size(4) cong: option.case_cong)

lemma visit_failure_detail_eq: "visit_failure_detail m d = walk (failure_detail_to_cbor m) d"
  by (simp add: visit_failure_detail_def failure_detail_to_cbor_def visit_simps visit_retry_attempt_eq visit_capacity_detail_eq
    del: One_nat_def list.size(4) cong: option.case_cong)

lemma visit_facts_eq: "visit_facts m d = walk (facts_to_cbor m) d"
  by (simp add: visit_facts_def facts_to_cbor_def visit_simps visit_native_facts_eq
    del: One_nat_def list.size(4) cong: option.case_cong)

lemma visit_failure_eq: "visit_failure m d = walk (failure_to_cbor m) d"
  by (simp add: visit_failure_def failure_to_cbor_def visit_simps visit_failure_detail_eq visit_facts_eq
    del: One_nat_def list.size(4) cong: option.case_cong)

lemma visit_destination_eq: "visit_destination m d = walk (destination_to_cbor m) d"
  by (simp add: visit_destination_def destination_to_cbor_def visit_simps
    del: One_nat_def list.size(4) cong: option.case_cong)

lemma visit_identity_eq: "visit_identity m d = walk (identity_to_cbor m) d"
  by (simp add: visit_identity_def identity_to_cbor_def visit_simps
    del: One_nat_def list.size(4) cong: option.case_cong)

lemma visit_deadlines_eq: "visit_deadlines m d = walk (deadlines_to_cbor m) d"
  by (simp add: visit_deadlines_def deadlines_to_cbor_def visit_simps
    del: One_nat_def list.size(4) cong: option.case_cong)

lemma visit_open_msg_eq: "visit_open_msg m d = walk (open_msg_to_cbor m) d"
  by (simp add: visit_open_msg_def open_msg_to_cbor_def visit_simps visit_limits_eq visit_destination_eq visit_identity_eq visit_deadlines_eq
    del: One_nat_def list.size(4) cong: option.case_cong)

lemma visit_check_identity_msg_eq: "visit_check_identity_msg m d = walk (check_identity_msg_to_cbor m) d"
  by (simp add: visit_check_identity_msg_def check_identity_msg_to_cbor_def visit_simps visit_identity_eq
    del: One_nat_def list.size(4) cong: option.case_cong)

lemma visit_identity_checked_msg_eq: "visit_identity_checked_msg m d = walk (identity_checked_msg_to_cbor m) d"
  by (simp add: visit_identity_checked_msg_def identity_checked_msg_to_cbor_def visit_simps
    del: One_nat_def list.size(4) cong: option.case_cong)

lemma visit_opened_msg_eq: "visit_opened_msg m d = walk (opened_msg_to_cbor m) d"
  by (simp add: visit_opened_msg_def opened_msg_to_cbor_def visit_simps visit_limits_eq visit_facts_eq
    del: One_nat_def list.size(4) cong: option.case_cong)

lemma visit_data_msg_eq: "visit_data_msg m d = walk (data_msg_to_cbor m) d"
  by (simp add: visit_data_msg_def data_msg_to_cbor_def visit_simps
    del: One_nat_def list.size(4) cong: option.case_cong)

lemma visit_window_msg_eq: "visit_window_msg m d = walk (window_msg_to_cbor m) d"
  by (simp add: visit_window_msg_def window_msg_to_cbor_def visit_simps
    del: One_nat_def list.size(4) cong: option.case_cong)

lemma visit_barrier_eq: "visit_barrier m d = walk (barrier_to_cbor m) d"
  by (simp add: visit_barrier_def barrier_to_cbor_def visit_simps
    del: One_nat_def list.size(4) cong: option.case_cong)

lemma visit_end_write_msg_eq: "visit_end_write_msg m d = walk (end_write_msg_to_cbor m) d"
  by (simp add: visit_end_write_msg_def end_write_msg_to_cbor_def visit_simps
    del: One_nat_def list.size(4) cong: option.case_cong)

lemma visit_close_msg_eq: "visit_close_msg m d = walk (close_msg_to_cbor m) d"
  by (simp add: visit_close_msg_def close_msg_to_cbor_def visit_simps
    del: One_nat_def list.size(4) cong: option.case_cong)

lemma visit_closed_msg_eq: "visit_closed_msg m d = walk (closed_msg_to_cbor m) d"
  by (simp add: visit_closed_msg_def closed_msg_to_cbor_def visit_simps visit_facts_eq visit_failure_eq
    del: One_nat_def list.size(4) cong: option.case_cong)

lemma visit_cancel_msg_eq: "visit_cancel_msg m d = walk (cancel_msg_to_cbor m) d"
  by (simp add: visit_cancel_msg_def cancel_msg_to_cbor_def visit_simps
    del: One_nat_def list.size(4) cong: option.case_cong)

lemma visit_envelope_eq: "visit_envelope m d = walk (envelope_to_cbor m) d"
  by (simp add: visit_envelope_def envelope_to_cbor_def visit_simps visit_bind_msg_eq visit_bound_msg_eq visit_failure_eq visit_open_msg_eq visit_check_identity_msg_eq visit_identity_checked_msg_eq visit_opened_msg_eq visit_data_msg_eq visit_window_msg_eq visit_barrier_eq visit_end_write_msg_eq visit_close_msg_eq visit_closed_msg_eq visit_cancel_msg_eq
    del: One_nat_def list.size(4) cong: option.case_cong)

section \<open>What admission decides\<close>

lemma caps_new:
  "frame_cap (budget_new boot l) =
     (if boot then min (i64_as_usize (lim_encoded_frame l)) max_bootstrap
      else i64_as_usize (lim_encoded_frame l))"
  "allocation_cap (budget_new boot l) =
     (if boot then min (i64_as_usize (lim_decode_allocation l)) max_bootstrap_allocation
      else i64_as_usize (lim_decode_allocation l))"
  by (simp_all add: frame_cap_def allocation_cap_def budget_new_def)

lemma admissible_iff:
  "admissible boot l t \<longleftrightarrow>
     local_ok l 0 t
     \<and> t_entries t \<le> i64_as_usize (lim_collection_entries l)
     \<and> t_encoded t \<le> i64_as_usize (lim_encoded_frame l)
     \<and> t_alloc t + t_encoded t \<le> i64_as_usize (lim_decode_allocation l)
     \<and> (boot \<longrightarrow> t_encoded t \<le> max_bootstrap
           \<and> t_alloc t + t_encoded t \<le> max_bootstrap_allocation)"
  by (auto simp: admissible_def fits_def caps_new) (auto simp: budget_new_def)

lemma allocation_charge_eq:
  "allocation_charge m l =
     (let t = envelope_to_cbor m
      in if admissible (env_stream_id m = 0) l t then Inr (t_encoded t + t_alloc t)
         else Inl Codec_Bounds)"
proof -
  let ?t = "envelope_to_cbor m"
  let ?b = "bump (t_entries ?t) (t_encoded ?t) (t_alloc ?t) (budget_new (env_stream_id m = 0) l)"
  have "t_encoded ?t + t_alloc ?t \<le> u64_max" if "fits ?b"
    using that caps_le(2) [of ?b] by (auto simp: fits_def budget_new_def)
  then show ?thesis
    by (simp add: allocation_charge_def visit_envelope_eq walk_eq total_charge_def checked_add_u64_def
        admissible_def Let_def)
      (auto simp: budget_new_def)
qed

end
