(* ===== verification/Policy.thy ===== *)
theory Policy
  imports Protocol
begin

text \<open>
  The compatibility relation between schemes, authentication policies and identity modes,
  \<open>src/policy.rs\<close>. A flat capability list denotes only the pairs of this relation.
\<close>

section \<open>The relation\<close>

fun allows :: "scheme \<Rightarrow> auth_policy \<Rightarrow> identity_mode \<Rightarrow> bool" where
  "allows Scheme_Ssh Policy_SshAmbient Identity_Ambient = True"
| "allows Scheme_Ssh Policy_SshExplicit Identity_ExplicitKey = True"
| "allows Scheme_Https Policy_Anonymous Identity_CredentialsDisabled = True"
| "allows Scheme_Https Policy_Gh Identity_Ambient = True"
| "allows Scheme_Https Policy_WindowsConfigured Identity_Ambient = True"
| "allows Scheme_Https Policy_WindowsDefault Identity_Ambient = True"
| "allows _ _ _ = False"

definition native :: "auth_policy \<Rightarrow> bool" where
  "native policy \<longleftrightarrow> policy = Policy_WindowsConfigured \<or> policy = Policy_WindowsDefault"

definition supports :: "scheme \<Rightarrow> auth_policy \<Rightarrow> bool" where
  "supports scheme policy \<longleftrightarrow>
     list_ex (\<lambda>identity. allows scheme policy identity)
       [Identity_Ambient, Identity_ExplicitKey, Identity_CredentialsDisabled]"

definition capabilities :: "scheme list \<Rightarrow> auth_policy list \<Rightarrow> bool" where
  "capabilities schemes policies \<longleftrightarrow>
     schemes \<noteq> [] \<and> policies \<noteq> []
     \<and> list_all (\<lambda>s. list_ex (\<lambda>p. supports s p) policies) schemes
     \<and> list_all (\<lambda>p. list_ex (\<lambda>s. supports s p) schemes) policies"

section \<open>Properties of the relation\<close>

lemma allows_supports: "allows s p i \<Longrightarrow> supports s p"
  by (cases i) (simp_all add: supports_def)

text \<open>A policy belongs to one scheme, and fixes the identity mode.\<close>

lemma supports_scheme: "supports s p \<Longrightarrow> supports s' p \<Longrightarrow> s = s'"
  by (cases s; cases s'; cases p) (simp_all add: supports_def)

lemma allows_identity: "allows s p i \<Longrightarrow> allows s p j \<Longrightarrow> i = j"
  by (cases s; cases p; cases i; cases j) simp_all

lemma every_policy_supported: "\<exists>s. supports s p"
  by (cases p) (auto simp: supports_def intro: exI [of _ Scheme_Ssh] exI [of _ Scheme_Https])

lemma native_https: "native p \<Longrightarrow> supports s p \<Longrightarrow> s = Scheme_Https"
  by (cases s; cases p) (simp_all add: native_def supports_def)

end
