(* ===== verification/Validate.thy ===== *)
theory Validate
  imports Policy Budget
begin

text \<open>
  Semantic validation of a decoded or outgoing message: \<open>src/codec/validate.rs\<close>,
  \<open>src/codec/failure_detail.rs\<close> and \<open>src/codec/https_shape.rs\<close>. Each early return
  \<open>return Err(..)\<close> is a \<^const>\<open>refuse_if\<close>.
\<close>

section \<open>Limits\<close>

definition validate_limits :: "limits \<Rightarrow> codec_error + unit" where
  "validate_limits v =
     refuse_if
       (list_ex (\<lambda>x. x \<le> 0)
          [lim_encoded_frame v, lim_data_payload v, lim_metadata_bytes v, lim_nesting v,
           lim_collection_entries v, lim_decode_allocation v, lim_queued_bytes v,
           lim_queued_frames v, lim_receive_window v, lim_control_reserve_bytes v,
           lim_control_reserve_frames v]
        \<or> lim_encoded_frame v > int max_frame
        \<or> lim_data_payload v > int max_data
        \<or> lim_metadata_bytes v > int max_metadata
        \<or> lim_nesting v > int max_depth
        \<or> lim_collection_entries v > int max_entries
        \<or> lim_decode_allocation v > int max_allocation
        \<or> lim_queued_bytes v > 4 * 1024 * 1024
        \<or> lim_queued_frames v > 64
        \<or> lim_receive_window v > lim_queued_bytes v
        \<or> lim_control_reserve_bytes v \<ge> lim_queued_bytes v
        \<or> lim_control_reserve_frames v \<ge> lim_queued_frames v)
       Codec_Bounds"

section \<open>Decoded control characters of an HTTPS selector\<close>

text \<open>\<open>hex\<close> of \<open>https_shape.rs\<close>, on the byte's value.\<close>

definition hex :: "nat \<Rightarrow> nat option" where
  "hex b =
     (if 48 \<le> b \<and> b \<le> 57 then Some (b - 48)
      else if 97 \<le> b \<and> b \<le> 102 then Some (b - 97 + 10)
      else if 65 \<le> b \<and> b \<le> 70 then Some (b - 65 + 10)
      else None)"

text \<open>One percent-decoded byte and the rest of the input.\<close>

fun next_byte :: "nat \<Rightarrow> nat list \<Rightarrow> nat \<times> nat list" where
  "next_byte x (y # z # rest) =
     (if x = 37 then
        (case (hex y, hex z) of
          (Some a, Some b) \<Rightarrow> (a * 16 + b, rest)
        | _ \<Rightarrow> (37, y # z # rest))
      else (x, y # z # rest))"
| "next_byte x rest = (x, rest)"

lemma next_byte_shorter: "next_byte x xs = (b, rest) \<Longrightarrow> length rest \<le> length xs"
  by (cases "(x, xs)" rule: next_byte.cases) (auto split: if_splits option.splits)

text \<open>
  The loop: the bytes left, the bytes of the character being assembled (\<open>utf8[..used]\<close>),
  and the two flags.
\<close>

function scan_controls :: "nat list \<Rightarrow> nat list \<Rightarrow> bool \<Rightarrow> bool \<Rightarrow> bool" where
  "scan_controls [] utf8 invalid unicode_control \<longleftrightarrow> unicode_control \<and> \<not> invalid \<and> utf8 = []"
| "scan_controls (x # xs) utf8 invalid unicode_control =
     (case next_byte x xs of (byte, rest) \<Rightarrow>
        if byte_is_ascii_control byte then True
        else if invalid then scan_controls rest utf8 invalid unicode_control
        else
          let utf8' = utf8 @ [byte] in
          (case utf8_scan utf8' of
            Utf8_Ok text \<Rightarrow>
              scan_controls rest [] invalid (unicode_control \<or> list_ex char_is_control text)
          | Utf8_Invalid \<Rightarrow> scan_controls rest utf8' True unicode_control
          | Utf8_Incomplete \<Rightarrow>
              scan_controls rest utf8' (invalid \<or> length utf8' = 4) unicode_control))"
  by pat_completeness auto
termination
  by (relation "measure (\<lambda>(xs, _). length xs)")
    (auto dest!: next_byte_shorter [OF sym])

text \<open>
  The reference for the loop, written from the rules of percent encoding and not from the
  code: a digit has the value of its place among the hexadecimal digits, a percent sign and
  two digits stand for one byte, and every other byte stands for itself.
\<close>

definition hex_value :: "nat \<Rightarrow> nat option" where
  "hex_value b =
     map_of (zip (str_bytes ''0123456789abcdef'') [0..<16] @ zip (str_bytes ''ABCDEF'') [10..<16]) b"

fun percent_decode :: "nat list \<Rightarrow> nat list" where
  "percent_decode (x # y # z # rest) =
     (if [x] = str_bytes ''%'' \<and> hex_value y \<noteq> None \<and> hex_value z \<noteq> None
      then (16 * the (hex_value y) + the (hex_value z)) # percent_decode rest
      else x # percent_decode (y # z # rest))"
| "percent_decode (x # rest) = x # percent_decode rest"
| "percent_decode [] = []"

definition has_decoded_control :: "string \<Rightarrow> bool" where
  "has_decoded_control s = scan_controls (str_bytes s) [] False False"

section \<open>Failure details\<close>

definition pipe_kinds :: "string list" where
  "pipe_kinds =
     [''NotFound'', ''PermissionDenied'', ''ConnectionRefused'', ''ConnectionReset'',
      ''HostUnreachable'', ''NetworkUnreachable'', ''ConnectionAborted'', ''NotConnected'',
      ''AddrInUse'', ''AddrNotAvailable'', ''NetworkDown'', ''BrokenPipe'', ''AlreadyExists'',
      ''WouldBlock'', ''NotADirectory'', ''IsADirectory'', ''DirectoryNotEmpty'',
      ''ReadOnlyFilesystem'', ''FilesystemLoop'', ''StaleNetworkFileHandle'', ''InvalidInput'',
      ''InvalidData'', ''TimedOut'', ''WriteZero'', ''StorageFull'', ''NotSeekable'',
      ''QuotaExceeded'', ''FileTooLarge'', ''ResourceBusy'', ''ExecutableFileBusy'', ''Deadlock'',
      ''CrossesDevices'', ''TooManyLinks'', ''InvalidFilename'', ''ArgumentListTooLong'',
      ''Interrupted'', ''Unsupported'', ''UnexpectedEof'', ''OutOfMemory'', ''Other'']"

definition pipe_kind :: "string \<Rightarrow> bool" where
  "pipe_kind value \<longleftrightarrow> value \<in> set pipe_kinds"

text \<open>\<open>b"..".contains(&byte)\<close>\<close>

definition byte_in :: "string \<Rightarrow> nat \<Rightarrow> bool" where
  "byte_in s b \<longleftrightarrow> b \<in> set (str_bytes s)"

definition scheme_token :: "string \<Rightarrow> bool" where
  "scheme_token value \<longleftrightarrow>
     value \<noteq> [] \<and> length value \<le> 32
     \<and> list_all (\<lambda>b. byte_is_ascii_alphanumeric b
          \<or> byte_in (''!#$%&'' @ [CHR 0x27] @ ''*+-.^_'' @ [CHR 0x60] @ ''|~'') b)
         (str_bytes value)"

definition capacity_host :: "string \<Rightarrow> bool" where
  "capacity_host value =
     (if value = [] \<or> length value > 255 then False
      else if CHR '':'' \<in> set value then
        list_all (\<lambda>b. byte_is_ascii_hexdigit b \<or> byte_in '':.'' b) (str_bytes value)
      else list_all (\<lambda>b. byte_is_ascii_alphanumeric b \<or> byte_in ''-._'' b) (str_bytes value))"

definition validate_capacity ::
    "failure \<Rightarrow> failure_detail \<Rightarrow> capacity_detail \<Rightarrow> codec_error + unit" where
  "validate_capacity failure detail capacity =
     and_then (refuse_if
       (fail_code failure \<noteq> Code_Capacity
        \<or> is_some (fd_helper_cause detail)
        \<or> is_some (fd_pipe_kind detail)
        \<or> is_some (fd_schemes detail)
        \<or> is_some (fd_helper_budget_ms detail)) Codec_InvalidMessage) (\<lambda>_.
     let named = [is_some (cap_scheme capacity), is_some (cap_host capacity), is_some (cap_port capacity)];
         any = list_ex id named;
         all = list_all id named
     in if cap_cause capacity = CapCause_Local then
          refuse_if
            (any
             \<or> is_some (fd_retry_attempt detail)
             \<or> is_some (cap_limit_applied capacity)
             \<or> is_some (cap_max_per_host capacity)
             \<or> is_some (cap_elapsed_ms capacity)
             \<or> is_some (cap_last_signal capacity)
             \<or> is_some (cap_retry_after_ms capacity)) Codec_InvalidMessage
        else (case cap_max_per_host capacity of
          None \<Rightarrow> Inl Codec_InvalidMessage
        | Some ceiling \<Rightarrow>
            refuse_if
              (any \<and> \<not> all
               \<or> is_none_or (\<lambda>ms. ms < 0) (cap_elapsed_ms capacity)
               \<or> is_some_and (\<lambda>ms. ms < 0) (cap_retry_after_ms capacity)
               \<or> cap_cause capacity = CapCause_ServerRetryAfter \<and> cap_retry_after_ms capacity = None
               \<or> \<not> (1 \<le> ceiling \<and> ceiling \<le> u32_max)
               \<or> is_some_and (\<lambda>limit. limit < 1 \<or> limit > ceiling) (cap_limit_applied capacity)
               \<or> is_some_and (\<lambda>port. \<not> (1 \<le> port \<and> port \<le> 65535)) (cap_port capacity)
               \<or> is_some_and (\<lambda>host. \<not> capacity_host host) (cap_host capacity))
              Codec_InvalidMessage))"

definition validate_failure_detail :: "failure \<Rightarrow> codec_error + unit" where
  "validate_failure_detail failure = (case fail_detail failure of
     None \<Rightarrow> Inr ()
   | Some detail \<Rightarrow>
     and_then (case fd_helper_budget_ms detail of
         None \<Rightarrow> Inr ()
       | Some allowance \<Rightarrow>
           let bounded = (case fail_setup_cause failure of
               Some Setup_Interaction \<Rightarrow> 1 \<le> allowance \<and> allowance \<le> 120000
             | Some Setup_Allocation \<Rightarrow> 0 \<le> allowance \<and> allowance \<le> 86400000
             | _ \<Rightarrow> False)
           in refuse_if
             (fail_code failure \<noteq> Code_Timeout
              \<or> fail_effect failure \<noteq> Effect_None
              \<or> \<not> bounded
              \<or> is_some (fd_helper_cause detail)
              \<or> is_some (fd_pipe_kind detail)
              \<or> is_some (fd_schemes detail)) Codec_InvalidMessage) (\<lambda>_.
     and_then (refuse_if (is_some (fd_helper_cause detail) \<and> is_some (fd_schemes detail))
       Codec_InvalidMessage) (\<lambda>_.
     and_then (case (fd_helper_cause detail, fd_pipe_kind detail) of
         (Some Helper_PipeFailure, Some kind) \<Rightarrow>
           if pipe_kind kind then Inr () else Inl Codec_InvalidMessage
       | (Some Helper_PipeFailure, _) \<Rightarrow> Inl Codec_InvalidMessage
       | (_, Some _) \<Rightarrow> Inl Codec_InvalidMessage
       | _ \<Rightarrow> Inr ()) (\<lambda>_.
     and_then (refuse_if (is_some_and
         (\<lambda>schemes. length schemes > 4 \<or> list_ex (\<lambda>scheme. \<not> scheme_token scheme) schemes)
         (fd_schemes detail)) Codec_InvalidMessage) (\<lambda>_.
     and_then (refuse_if (is_some_and
         (\<lambda>c. ra_attempt c \<le> 0 \<or> ra_attempts c < ra_attempt c \<or> ra_attempts c > u32_max)
         (fd_retry_attempt detail)) Codec_InvalidMessage) (\<lambda>_.
     case fd_capacity detail of
       None \<Rightarrow> Inr ()
     | Some capacity \<Rightarrow> validate_capacity failure detail capacity))))))"

section \<open>Facts, rejections, identities, destinations\<close>

definition validate_native_facts :: "i64 \<Rightarrow> facts \<Rightarrow> codec_error + unit" where
  "validate_native_facts version facts =
     and_then (refuse_if ((facts_method facts = Method_Sspi) \<noteq> is_some (facts_native facts))
       Codec_InvalidMessage) (\<lambda>_.
     case facts_native facts of
       None \<Rightarrow> Inr ()
     | Some nf \<Rightarrow>
       and_then (refuse_if (version = 1 \<or> is_some (facts_key_fingerprint facts)
           \<or> is_some (facts_ssh_exit_status facts)) Codec_InvalidMessage) (\<lambda>_.
       let valid = (case nf_observation nf of
           NObs_NotStarted \<Rightarrow>
             nf_mechanism nf = None \<and> \<not> nf_authoritative nf
             \<and> \<not> facts_credential_offered facts
         | NObs_Unresolved \<Rightarrow>
             nf_scheme nf = NScheme_Negotiate \<and> nf_mechanism nf = None
             \<and> \<not> nf_authoritative nf
         | NObs_Selected \<Rightarrow>
             (case (nf_scheme nf, nf_mechanism nf) of
               (NScheme_Negotiate, Some _) \<Rightarrow> True
             | (NScheme_Ntlm, Some NMech_Ntlm) \<Rightarrow> True
             | _ \<Rightarrow> False))
       in refuse_if
         (\<not> valid
          \<or> nf_scheme nf = NScheme_Digest
            \<and> (nf_source nf \<noteq> NSource_Configured \<or> nf_observation nf \<noteq> NObs_NotStarted)
          \<or> facts_authenticated facts = Some True
            \<and> (\<not> facts_credential_offered facts \<or> nf_observation nf \<noteq> NObs_Selected
               \<or> \<not> nf_authoritative nf))
         Codec_InvalidMessage))"

definition bind_rejection :: "failure \<Rightarrow> codec_error + unit" where
  "bind_rejection failure =
     refuse_if
       (fail_code failure \<notin> {Code_UnsupportedVersion, Code_UnsupportedOperation, Code_Capacity,
          Code_InvalidRequest, Code_Cancelled}
        \<or> fail_effect failure \<noteq> Effect_None
        \<or> is_some (fail_facts failure)
        \<or> is_some (fail_detail failure))
       Codec_InvalidMessage"

definition failure_has_v2_fields :: "failure \<Rightarrow> bool" where
  "failure_has_v2_fields failure \<longleftrightarrow>
     is_some (fail_facts failure) \<or> fail_code failure = Code_RepositoryRefused"

definition valid_identity :: "identity \<Rightarrow> bool" where
  "valid_identity v =
     (if ident_mode v \<noteq> Identity_ExplicitKey then ident_key_path v = None \<and> ident_path_base v = None
      else is_some_and (\<lambda>path. path \<noteq> [] \<and> CHR 0x00 \<notin> set path) (ident_key_path v)
        \<and> is_none_or (\<lambda>base. base \<noteq> [] \<and> CHR 0x00 \<notin> set base) (ident_path_base v))"

text \<open>The code points of \<open>"@/?#\\"\<close> are 64, 47, 63, 35 and 92.\<close>

definition validate_destination :: "destination \<Rightarrow> codec_error + unit" where
  "validate_destination v =
     and_then (refuse_if
       (dest_host v = []
        \<or> list_ex (\<lambda>c. char_is_control c \<or> char_is_whitespace c \<or> c \<in> set [64, 47, 63, 35, 92])
            (str_chars (dest_host v))
        \<or> \<not> (1 \<le> dest_port v \<and> dest_port v \<le> 65535)
        \<or> dest_path v = []
        \<or> CHR 0x00 \<in> set (dest_path v)) Codec_InvalidMessage) (\<lambda>_.
     and_then (refuse_if
       (dest_scheme v = Scheme_Https
        \<and> (is_some (dest_ssh_username v)
           \<or> CHR ''?'' \<in> set (dest_path v) \<or> CHR ''#'' \<in> set (dest_path v)))
       Codec_InvalidMessage) (\<lambda>_.
     and_then
       (if dest_scheme v = Scheme_Https then
          (let username = dest_https_username v in
           and_then (refuse_if
             (is_some_and (\<lambda>u. u = [] \<or> length u > 18000
                 \<or> list_ex (\<lambda>b. 128 \<le> b) (str_bytes u)
                 \<or> list_ex (\<lambda>b. byte_is_ascii_control b \<or> byte_is_ascii_whitespace b
                     \<or> b \<in> set [64, 58, 47, 63, 35, 92]) (str_bytes u)
                 \<or> has_decoded_control u) username
              \<or> length (dest_path v) > 18000
              \<or> has_decoded_control (dest_path v)) Codec_InvalidMessage) (\<lambda>_.
           let brackets = (if CHR '':'' \<in> set (dest_host v) \<and> take 1 (dest_host v) \<noteq> ''[''
                           then 2 else 0);
               port = (if dest_port v = 443 then 0 else 1 + decimal_len (nat (dest_port v)));
               selector = (case username of None \<Rightarrow> 0 | Some u \<Rightarrow> length u + 1)
           in refuse_if
             (8 + length (dest_host v) + brackets + port + selector + length (dest_path v) > 18000)
             Codec_InvalidMessage))
        else refuse_if (is_some (dest_https_username v)) Codec_InvalidMessage) (\<lambda>_.
     refuse_if
       (dest_scheme v = Scheme_Ssh
        \<and> is_none_or (\<lambda>s. s = [] \<or> list_ex char_is_control (str_chars s)) (dest_ssh_username v))
       Codec_InvalidMessage)))"

section \<open>Envelopes\<close>

text \<open>\<open>for x in [..].into_iter().flatten() { f(x)?; }\<close>\<close>

fun for_each :: "('a \<Rightarrow> 'e + unit) \<Rightarrow> 'a option list \<Rightarrow> 'e + unit" where
  "for_each f [] = Inr ()"
| "for_each f (None # xs) = for_each f xs"
| "for_each f (Some x # xs) = and_then (f x) (\<lambda>_. for_each f xs)"

definition bodies :: "envelope \<Rightarrow> bool list" where
  "bodies v =
     [is_some (env_bind v), is_some (env_bound v), is_some (env_bind_rejected v),
      is_some (env_open v), is_some (env_opened v), is_some (env_open_failed v),
      is_some (env_data v), is_some (env_window v), is_some (env_flush v),
      is_some (env_flushed v), is_some (env_end_write v), is_some (env_close v),
      is_some (env_closed v), is_some (env_cancel v), is_some (env_failed v),
      is_some (env_check_identity v), is_some (env_identity_checked v),
      is_some (env_identity_check_failed v)]"

text \<open>The body that a kind of message is for, by the fields of the message.\<close>

fun body_present :: "envelope \<Rightarrow> message_kind \<Rightarrow> bool" where
  "body_present m Kind_Bind \<longleftrightarrow> is_some (env_bind m)"
| "body_present m Kind_Bound \<longleftrightarrow> is_some (env_bound m)"
| "body_present m Kind_BindRejected \<longleftrightarrow> is_some (env_bind_rejected m)"
| "body_present m Kind_Open \<longleftrightarrow> is_some (env_open m)"
| "body_present m Kind_Opened \<longleftrightarrow> is_some (env_opened m)"
| "body_present m Kind_OpenFailed \<longleftrightarrow> is_some (env_open_failed m)"
| "body_present m Kind_Data \<longleftrightarrow> is_some (env_data m)"
| "body_present m Kind_Window \<longleftrightarrow> is_some (env_window m)"
| "body_present m Kind_Flush \<longleftrightarrow> is_some (env_flush m)"
| "body_present m Kind_Flushed \<longleftrightarrow> is_some (env_flushed m)"
| "body_present m Kind_EndWrite \<longleftrightarrow> is_some (env_end_write m)"
| "body_present m Kind_Close \<longleftrightarrow> is_some (env_close m)"
| "body_present m Kind_Closed \<longleftrightarrow> is_some (env_closed m)"
| "body_present m Kind_Cancel \<longleftrightarrow> is_some (env_cancel m)"
| "body_present m Kind_Failed \<longleftrightarrow> is_some (env_failed m)"
| "body_present m Kind_CheckIdentity \<longleftrightarrow> is_some (env_check_identity m)"
| "body_present m Kind_IdentityChecked \<longleftrightarrow> is_some (env_identity_checked m)"
| "body_present m Kind_IdentityCheckFailed \<longleftrightarrow> is_some (env_identity_check_failed m)"

text \<open>The version, session, body and sequence number of the envelope itself.\<close>

definition validate_header :: "envelope \<Rightarrow> codec_error + unit" where
  "validate_header v =
     and_then (refuse_if (\<not> (1 \<le> env_version v \<and> env_version v \<le> 3)) Codec_UnsupportedVersion) (\<lambda>_.
     and_then (refuse_if (env_session_id v = [] \<or> length (env_session_id v) > 128)
       Codec_InvalidMessage) (\<lambda>_.
     let kind = nat (message_kind_wire (env_kind v)) in
     and_then (refuse_if
       (length (filter (\<lambda>present. present) (bodies v)) \<noteq> 1 \<or> \<not> bodies v ! (kind - 1))
       Codec_InvalidMessage) (\<lambda>_.
     and_then (refuse_if
       (kind \<le> 3 \<and> (env_stream_id v \<noteq> 0 \<or> env_version v \<noteq> 1)
        \<or> kind > 3 \<and> env_stream_id v \<le> 0) Codec_InvalidMessage) (\<lambda>_.
     and_then
       (if env_version v = 3 \<and> env_stream_id v > 0 then
          refuse_if (is_none_or (\<lambda>s. s \<le> 0 \<or> s = i64_max) (env_message_seq v)) Codec_InvalidMessage
        else refuse_if (is_some (env_message_seq v)) Codec_InvalidMessage) (\<lambda>_.
     refuse_if (kind \<ge> 16 \<and> env_version v < 2) Codec_UnsupportedVersion)))))"

definition validate_bind :: "bind_msg \<Rightarrow> codec_error + unit" where
  "validate_bind bind =
     and_then (refuse_if
       (bind_versions bind = [] \<or> \<not> capabilities (bind_schemes bind) (bind_policies bind))
       Codec_InvalidMessage) (\<lambda>_.
     validate_limits (bind_receive_limits bind))"

definition validate_bound :: "bound_msg \<Rightarrow> codec_error + unit" where
  "validate_bound bound =
     and_then (refuse_if
       (\<not> (1 \<le> bound_version bound \<and> bound_version bound \<le> 3)
        \<or> bound_endpoint_id bound = []
        \<or> bound_trust_owner bound = []
        \<or> \<not> capabilities (bound_schemes bound) (bound_policies bound)
        \<or> bound_version bound = 1 \<and> list_ex native (bound_policies bound))
       Codec_InvalidMessage) (\<lambda>_.
     validate_limits (bound_receive_limits bound))"

definition validate_failures :: "envelope \<Rightarrow> codec_error + unit" where
  "validate_failures v =
     and_then (for_each validate_failure_detail
       [env_bind_rejected v, env_open_failed v, env_failed v, env_identity_check_failed v,
        Option.bind (env_closed v) closed_failure]) (\<lambda>_.
     and_then (for_each (validate_native_facts (env_version v))
       [map_option opened_facts (env_opened v),
        map_option closed_facts (env_closed v),
        Option.bind (env_bind_rejected v) fail_facts,
        Option.bind (env_open_failed v) fail_facts,
        Option.bind (env_failed v) fail_facts]) (\<lambda>_.
     and_then (refuse_if
       (env_version v = 1
        \<and> (is_some_and failure_has_v2_fields (env_open_failed v)
           \<or> is_some_and failure_has_v2_fields (env_failed v))) Codec_InvalidMessage) (\<lambda>_.
     and_then (refuse_if (is_some_and
         (\<lambda>failure. fail_effect failure \<noteq> Effect_None \<or> is_some (fail_facts failure))
         (env_identity_check_failed v)) Codec_InvalidMessage) (\<lambda>_.
     refuse_if (is_some_and
         (\<lambda>closed. is_some_and
            (\<lambda>failure. is_some (fail_facts failure)
               \<or> env_version v = 1 \<and> fail_code failure = Code_RepositoryRefused)
            (closed_failure closed))
         (env_closed v)) Codec_InvalidMessage))))"

definition validate_open :: "i64 \<Rightarrow> open_msg \<Rightarrow> codec_error + unit" where
  "validate_open version opn =
     and_then (validate_limits (open_receive_limits opn)) (\<lambda>_.
     and_then (validate_destination (open_destination opn)) (\<lambda>_.
     and_then (refuse_if (open_endpoint_id opn = [] \<or> open_operation_id opn = [])
       Codec_InvalidMessage) (\<lambda>_.
     and_then (refuse_if (\<not> valid_identity (open_identity opn)) Codec_InvalidMessage) (\<lambda>_.
     and_then (refuse_if
       (\<not> allows (dest_scheme (open_destination opn)) (open_policy opn)
          (ident_mode (open_identity opn))) Codec_InvalidMessage) (\<lambda>_.
     and_then (refuse_if (version = 1 \<and> native (open_policy opn)) Codec_InvalidMessage) (\<lambda>_.
     let d = open_deadlines opn in
     refuse_if
       (list_ex (\<lambda>x. x \<le> 0) [dl_allocation_ms d, dl_interaction_ms d, dl_cleanup_ms d]
        \<or> list_ex (\<lambda>x. \<not> (0 \<le> x \<and> x \<le> i32_max)) [dl_connect_ms d, dl_io_ms d])
       Codec_InvalidMessage))))))"

definition validate_check_identity :: "check_identity_msg \<Rightarrow> codec_error + unit" where
  "validate_check_identity check =
     refuse_if
       (check_endpoint_id check = []
        \<or> check_operation_id check = []
        \<or> check_timeout_ms check \<le> 0
        \<or> check_timeout_ms check > i32_max
        \<or> ident_mode (check_identity check) \<noteq> Identity_ExplicitKey
        \<or> \<not> valid_identity (check_identity check))
       Codec_InvalidMessage"

definition validate_opened :: "opened_msg \<Rightarrow> codec_error + unit" where
  "validate_opened opened =
     and_then (validate_limits (opened_receive_limits opened)) (\<lambda>_.
     refuse_if
       (opened_connection_id opened = []
        \<or> opened_endpoint_id opened = []
        \<or> opened_trust_owner opened = []
        \<or> opened_reused opened \<and> facts_credential_offered (opened_facts opened)
          \<and> facts_method (opened_facts opened) \<notin> {Method_Gh, Method_Sspi})
       Codec_InvalidMessage)"

text \<open>The offsets of the stream messages and the reason of a cancellation.\<close>

definition validate_stream_bodies :: "envelope \<Rightarrow> codec_error + unit" where
  "validate_stream_bodies v =
     and_then (refuse_if
       (is_some_and (\<lambda>d. data_offset d < 0
            \<or> checked_add_i64 (data_offset d) (int (length (data_payload d))) = None) (env_data v)
        \<or> is_some_and (\<lambda>w. window_max_offset w < 0) (env_window v)
        \<or> is_some_and (\<lambda>f. barrier_offset f < 0 \<or> barrier_barrier_id f \<le> 0) (env_flush v)
        \<or> is_some_and (\<lambda>f. barrier_offset f < 0 \<or> barrier_barrier_id f \<le> 0) (env_flushed v)
        \<or> is_some_and (\<lambda>e. endw_final_offset e < 0) (env_end_write v)
        \<or> is_some_and (\<lambda>c. close_final_offset c < 0) (env_close v))
       Codec_InvalidMessage) (\<lambda>_.
     refuse_if (is_some_and (\<lambda>c. cancel_reason c \<notin> {Code_Cancelled, Code_Timeout}) (env_cancel v))
       Codec_InvalidMessage)"

definition validate_envelope :: "envelope \<Rightarrow> codec_error + unit" where
  "validate_envelope v =
     and_then (validate_header v) (\<lambda>_.
     and_then (for_each validate_bind [env_bind v]) (\<lambda>_.
     and_then (for_each validate_bound [env_bound v]) (\<lambda>_.
     and_then (for_each bind_rejection [env_bind_rejected v]) (\<lambda>_.
     and_then (validate_failures v) (\<lambda>_.
     and_then (for_each (validate_open (env_version v)) [env_open v]) (\<lambda>_.
     and_then (for_each validate_check_identity [env_check_identity v]) (\<lambda>_.
     and_then (for_each validate_opened [env_opened v]) (\<lambda>_.
     validate_stream_bodies v))))))))"

section \<open>Valid limits and headers\<close>

lemma validate_limits_ok:
  "validate_limits v = Inr () \<longleftrightarrow>
     0 < lim_encoded_frame v \<and> lim_encoded_frame v \<le> 131072
     \<and> 0 < lim_data_payload v \<and> lim_data_payload v \<le> 65536
     \<and> 0 < lim_metadata_bytes v \<and> lim_metadata_bytes v \<le> 16384
     \<and> 0 < lim_nesting v \<and> lim_nesting v \<le> 16
     \<and> 0 < lim_collection_entries v \<and> lim_collection_entries v \<le> 256
     \<and> 0 < lim_decode_allocation v \<and> lim_decode_allocation v \<le> 524288
     \<and> lim_queued_bytes v \<le> 4194304 \<and> lim_queued_frames v \<le> 64
     \<and> 0 < lim_receive_window v \<and> lim_receive_window v \<le> lim_queued_bytes v
     \<and> 0 < lim_control_reserve_bytes v \<and> lim_control_reserve_bytes v < lim_queued_bytes v
     \<and> 0 < lim_control_reserve_frames v \<and> lim_control_reserve_frames v < lim_queued_frames v"
  by (auto simp: validate_limits_def max_frame_def max_data_def max_metadata_def max_depth_def
      max_entries_def max_allocation_def)

lemma for_each_ok: "for_each f xs = Inr () \<longleftrightarrow> (\<forall>x. Some x \<in> set xs \<longrightarrow> f x = Inr ())"
  by (induction f xs rule: for_each.induct) (auto simp: and_then_eq_Inr)

lemma for_each_one: "for_each f [x] = (case x of None \<Rightarrow> Inr () | Some y \<Rightarrow> f y)"
  by (cases x; cases "f (the x)") simp_all

lemma length_bodies [simp]: "length (bodies v) = 18"
  by (simp add: bodies_def)

lemma message_kind_bound: "message_kind_wire k \<le> 18"
  by (cases k) simp_all

lemma body_present_bodies: "body_present v k = bodies v ! (nat (message_kind_wire k) - 1)"
  by (cases k) (simp_all add: bodies_def)

lemma validate_header_body:
  assumes "validate_header v = Inr ()"
  shows "body_present v k \<longleftrightarrow> k = env_kind v"
proof
  let ?i = "\<lambda>k. nat (message_kind_wire k) - 1"
  have one: "length (filter (\<lambda>p. p) (bodies v)) = 1" and own: "bodies v ! ?i (env_kind v)"
    using assms by (auto simp: validate_header_def and_then_eq_Inr Let_def)
  have idx: "?i k < length (bodies v)" for k
    using message_kind_bound [of k] message_kind_enum.wire_small [of k] by auto
  show "k = env_kind v" if "body_present v k"
  proof -
    have "?i k = ?i (env_kind v)"
      using filter_one_unique [OF one idx _ idx, of k "env_kind v"] that own by (simp add: body_present_bodies)
    then have "message_kind_wire k = message_kind_wire (env_kind v)"
      using message_kind_enum.wire_small [of k] message_kind_enum.wire_small [of "env_kind v"] by linarith
    then show ?thesis by (simp add: message_kind_enum.wire_inject)
  qed
  show "body_present v k" if "k = env_kind v"
    using own that by (simp add: body_present_bodies)
qed

lemma absent_bodies:
  assumes "validate_header m = Inr ()"
  shows "env_kind m \<noteq> Kind_Bind \<Longrightarrow> env_bind m = None" "env_kind m \<noteq> Kind_Bound \<Longrightarrow> env_bound m = None"
    "env_kind m \<noteq> Kind_BindRejected \<Longrightarrow> env_bind_rejected m = None"
    "env_kind m \<noteq> Kind_Open \<Longrightarrow> env_open m = None" "env_kind m \<noteq> Kind_Opened \<Longrightarrow> env_opened m = None"
    "env_kind m \<noteq> Kind_OpenFailed \<Longrightarrow> env_open_failed m = None" "env_kind m \<noteq> Kind_Data \<Longrightarrow> env_data m = None"
    "env_kind m \<noteq> Kind_Window \<Longrightarrow> env_window m = None" "env_kind m \<noteq> Kind_Flush \<Longrightarrow> env_flush m = None"
    "env_kind m \<noteq> Kind_Flushed \<Longrightarrow> env_flushed m = None" "env_kind m \<noteq> Kind_EndWrite \<Longrightarrow> env_end_write m = None"
    "env_kind m \<noteq> Kind_Close \<Longrightarrow> env_close m = None" "env_kind m \<noteq> Kind_Closed \<Longrightarrow> env_closed m = None"
    "env_kind m \<noteq> Kind_Cancel \<Longrightarrow> env_cancel m = None" "env_kind m \<noteq> Kind_Failed \<Longrightarrow> env_failed m = None"
    "env_kind m \<noteq> Kind_CheckIdentity \<Longrightarrow> env_check_identity m = None"
    "env_kind m \<noteq> Kind_IdentityChecked \<Longrightarrow> env_identity_checked m = None"
    "env_kind m \<noteq> Kind_IdentityCheckFailed \<Longrightarrow> env_identity_check_failed m = None"
  using validate_header_body [OF assms] by (metis body_present.simps is_some_eq)+

section \<open>The control-character scan is a scan of the decoded bytes\<close>

lemma hex_eq: "hex b = hex_value b"
proof (cases "b < 103")
  case True
  then have "b \<in> set [0..<103]" by simp
  then show ?thesis by (simp add: upt_conv_Cons hex_def hex_value_def str_bytes_def) (elim disjE; simp)
next
  case False
  then show ?thesis by (simp add: upt_conv_Cons hex_def hex_value_def str_bytes_def)
qed

text \<open>The code's step takes one decoded byte.\<close>

lemma percent_decode_step: "percent_decode (x # xs) = (case next_byte x xs of (b, rest) \<Rightarrow> b # percent_decode rest)"
  by (cases "(x, xs)" rule: next_byte.cases) (auto simp: hex_eq str_bytes_def split: option.splits)

lemma scan_controls_invalid:
  "scan_controls xs buf True uc \<longleftrightarrow> list_ex byte_is_ascii_control (percent_decode xs)"
proof (induction "length xs" arbitrary: xs rule: less_induct)
  case less
  show ?case
  proof (cases xs)
    case (Cons x ys)
    obtain b rest where n: "next_byte x ys = (b, rest)" by fastforce
    then have "length rest < length xs" using next_byte_shorter [OF n] Cons by simp
    then show ?thesis using less by (simp add: Cons n percent_decode_step del: percent_decode.simps)
  qed simp
qed

lemma scan_controls_eq:
  "partial_char buf \<Longrightarrow> scan_controls xs buf False uc \<longleftrightarrow>
     list_ex byte_is_ascii_control (percent_decode xs)
     \<or> (case utf8_scan (buf @ percent_decode xs) of
          Utf8_Ok cs \<Rightarrow> uc \<or> list_ex char_is_control cs | _ \<Rightarrow> False)"
proof (induction "length xs" arbitrary: xs buf uc rule: less_induct)
  case less
  show ?case
  proof (cases xs)
    case Nil
    then show ?thesis using partial_char_scan [OF less.prems] by (cases "buf = []") auto
  next
    case (Cons x ys)
    obtain b rest where n: "next_byte x ys = (b, rest)" by fastforce
    have app: "buf @ percent_decode (x # ys) = (buf @ [b]) @ percent_decode rest"
      by (simp add: n percent_decode_step del: percent_decode.simps)
    have "length rest < length xs" using next_byte_shorter [OF n] Cons by simp
    note IH = less.hyps [OF this]
    show ?thesis
    proof (cases "utf8_scan (buf @ [b])")
      case (Utf8_Ok cs)
      then show ?thesis
        unfolding Cons app utf8_scan_append_ok [OF Utf8_Ok] foldr_push
        using IH [OF partial_char_Nil]
        by (simp add: n percent_decode_step del: percent_decode.simps split: utf8_result.splits)
    next
      case Utf8_Invalid
      then show ?thesis
        unfolding Cons app utf8_scan_append_invalid [OF Utf8_Invalid]
        by (simp add: n percent_decode_step scan_controls_invalid del: percent_decode.simps)
    next
      case Utf8_Incomplete
      then have p: "partial_char (buf @ [b])" using less.prems by (simp add: partial_char_snoc)
      then show ?thesis
        unfolding Cons app using partial_char_short [OF p] Utf8_Incomplete IH [OF p]
        by (simp add: n percent_decode_step del: percent_decode.simps)
    qed
  qed
qed

section \<open>Properties\<close>

text \<open>
  C24: the bounded loop of \<open>has_decoded_control\<close>, which decodes percent escapes and
  assembles UTF-8 characters in a four-byte buffer, answers what a decoder with unbounded
  memory would: some decoded byte is an ASCII control, or the decoded bytes are UTF-8 and
  contain a control character. The decoded bytes are those of a reference that follows the
  rules of percent encoding.
\<close>

theorem has_decoded_control_eq:
  "has_decoded_control s \<longleftrightarrow>
     (let bytes = percent_decode (str_bytes s) in
      list_ex byte_is_ascii_control bytes
      \<or> (case utf8_scan bytes of Utf8_Ok cs \<Rightarrow> list_ex char_is_control cs | _ \<Rightarrow> False))"
  unfolding has_decoded_control_def scan_controls_eq [OF partial_char_Nil]
  by (simp add: Let_def split: utf8_result.split)

end
