(* ===== verification/Codec.thy ===== *)
theory Codec
  imports Admission Validate
begin

text \<open>
  The codec of the wire, \<open>src/codec.rs\<close> and \<open>src/codec/preflight.rs\<close>: admission before a
  message is encoded, the preflight scan of a received frame before the allocating decoder
  runs, and the encode and decode entry points.

  The theorems connect the two walks: what admission accepts, the encoder writes, the
  preflight scan lets through, and the decoder returns.
\<close>

section \<open>Default limits\<close>

definition default_limits :: limits where
  "default_limits =
     \<lparr>lim_encoded_frame = 131072, lim_data_payload = 65536, lim_metadata_bytes = 16384,
      lim_nesting = 16, lim_collection_entries = 256, lim_decode_allocation = 524288,
      lim_queued_bytes = 4194304, lim_queued_frames = 64, lim_receive_window = 1048576,
      lim_control_reserve_bytes = 65536, lim_control_reserve_frames = 8\<rparr>"

section \<open>The preflight scan\<close>

text \<open>The input and the limits are constant during a scan.\<close>

record scan =
  scan_at :: usize
  scan_entries :: usize
  scan_allocation :: usize
  scan_bootstrap :: bool

definition scan_take :: "byte list \<Rightarrow> usize \<Rightarrow> scan \<Rightarrow> codec_error + (byte list \<times> scan)" where
  "scan_take input n s =
     and_then (ok_or Codec_Bounds (checked_add_u64 (scan_at s) n)) (\<lambda>end.
     if end \<le> length input
     then Inr (take n (drop (scan_at s) input), s\<lparr>scan_at := end\<rparr>)
     else Inl Codec_Malformed)"

definition scan_head :: "byte list \<Rightarrow> scan \<Rightarrow> codec_error + ((nat \<times> u64) \<times> scan)" where
  "scan_head input s0 =
     and_then (scan_take input 1 s0) (\<lambda>(bs, s).
     let byte = unat (hd bs); info = byte mod 32 in
     and_then
       (if info \<le> 23 then Inr (info, s)
        else if info = 24 then and_then (scan_take input 1 s) (\<lambda>(b, s). Inr (be_value b, s))
        else if info = 25 then and_then (scan_take input 2 s) (\<lambda>(b, s). Inr (be_value b, s))
        else if info = 26 then and_then (scan_take input 4 s) (\<lambda>(b, s). Inr (be_value b, s))
        else if info = 27 then and_then (scan_take input 8 s) (\<lambda>(b, s). Inr (be_value b, s))
        else Inl Codec_Malformed)
       (\<lambda>(value, s). Inr ((byte div 32, value), s)))"

definition scan_charge :: "limits \<Rightarrow> usize \<Rightarrow> scan \<Rightarrow> codec_error + scan" where
  "scan_charge limits n s =
     and_then (ok_or Codec_Bounds (checked_add_u64 (scan_allocation s) n)) (\<lambda>a.
     if a > i64_as_usize (lim_decode_allocation limits) then Inl Codec_Bounds
     else Inr (s\<lparr>scan_allocation := a\<rparr>))"

text \<open>
  \<open>scan_loop\<close> is the \<open>for _ in 0..count\<close> loop of the array and map case: \<open>major\<close> is 4 or
  5, \<open>depth\<close> and \<open>parent\<close> are those of the container.
\<close>

function (sequential) scan_item ::
    "limits \<Rightarrow> byte list \<Rightarrow> usize \<Rightarrow> u64 \<Rightarrow> bool \<Rightarrow> scan \<Rightarrow> codec_error + scan"
  and scan_loop ::
    "limits \<Rightarrow> byte list \<Rightarrow> nat \<Rightarrow> nat \<Rightarrow> usize \<Rightarrow> u64 \<Rightarrow> scan \<Rightarrow> codec_error + scan"
where
  "scan_item limits input depth parent payload s0 =
     (if depth > i64_as_usize (lim_nesting limits) then Inl Codec_Bounds
      else
        let s1 = s0\<lparr>scan_entries := scan_entries s0 + 1\<rparr> in
        if scan_entries s1 > i64_as_usize (lim_collection_entries limits) then Inl Codec_Bounds
        else
          and_then (scan_charge limits node_charge s1) (\<lambda>s2.
          and_then (scan_head input s2) (\<lambda>((major, argument), s3).
          let s = (if depth = 1 \<and> parent = 3 \<and> major = 0 \<and> argument = 0
                   then s3\<lparr>scan_bootstrap := True\<rparr> else s3) in
          if major = 0 \<or> major = 1 \<or> major = 7 then Inr s
          else if major = 2 \<or> major = 3 then
            (let cap = (if major = 2 \<and> payload then i64_as_usize (lim_data_payload limits)
                        else i64_as_usize (lim_metadata_bytes limits))
             in if argument > cap then Inl Codec_Bounds
                else
                  and_then (ok_or Codec_Bounds (checked_mul_u64 argument 4)) (\<lambda>a.
                  and_then (scan_charge limits a s) (\<lambda>s.
                  and_then (scan_take input argument s) (\<lambda>(_, s). Inr s))))
          else if major = 4 \<or> major = 5 then
            (if argument > i64_as_usize (lim_collection_entries limits) - scan_entries s
             then Inl Codec_Bounds
             else scan_loop limits input major argument depth parent s)
          else Inl Codec_Malformed)))"
| "scan_loop limits input major n depth parent s =
     (if n = 0 then Inr s
      else
        and_then
          (if major = 5 then
             and_then (scan_head input s) (\<lambda>((key_major, k), s).
             if key_major \<noteq> 0 then Inl Codec_Malformed
             else
               and_then (scan_charge limits 32 s) (\<lambda>s.
               scan_item limits input (depth + 1) k (depth = 1 \<and> parent = 16 \<and> k = 2) s))
           else scan_item limits input (depth + 1) 0 False s)
          (\<lambda>s. scan_loop limits input major (n - 1) depth parent s))"
  by pat_completeness auto
termination
  by (relation "measures
      [\<lambda>x. case x of
          Inl (limits, input, depth, _) \<Rightarrow> i64_as_usize (lim_nesting limits) + 1 - depth
        | Inr (limits, input, major, n, depth, _) \<Rightarrow> i64_as_usize (lim_nesting limits) - depth,
       \<lambda>x. case x of Inl _ \<Rightarrow> 0 | Inr (limits, input, major, n, _) \<Rightarrow> Suc n]")
    auto

declare scan_item.simps [simp del] scan_loop.simps [simp del]

definition preflight_check :: "byte list \<Rightarrow> limits \<Rightarrow> codec_error + unit" where
  "preflight_check input limits =
     (if length input > i64_as_usize (lim_encoded_frame limits) then Inl Codec_FrameTooLarge
      else
        and_then (scan_item limits input 0 0 False
          \<lparr>scan_at = 0, scan_entries = 0, scan_allocation = length input, scan_bootstrap = False\<rparr>)
          (\<lambda>s.
            and_then (refuse_if
              (scan_bootstrap s
               \<and> (length input > max_bootstrap \<or> scan_allocation s > max_bootstrap_allocation))
              Codec_Bounds) (\<lambda>_.
            refuse_if (scan_at s \<noteq> length input) Codec_Malformed)))"

section \<open>Entry points\<close>

definition admit_limited :: "envelope \<Rightarrow> limits \<Rightarrow> codec_error + unit" where
  "admit_limited message limits =
     and_then (validate_limits limits) (\<lambda>_.
     and_then (validate_envelope message) (\<lambda>_.
     admit_envelope message limits))"

definition admit :: "envelope \<Rightarrow> codec_error + unit" where
  "admit message = admit_limited message default_limits"

definition codec_allocation_charge :: "envelope \<Rightarrow> limits \<Rightarrow> codec_error + usize" where
  "codec_allocation_charge message limits =
     and_then (validate_limits limits) (\<lambda>_.
     and_then (validate_envelope message) (\<lambda>_.
     allocation_charge message limits))"

definition check_bootstrap :: "envelope \<Rightarrow> usize \<Rightarrow> codec_error + unit" where
  "check_bootstrap message len =
     refuse_if (env_stream_id message = 0 \<and> len > max_bootstrap) Codec_FrameTooLarge"

definition codec_encode :: "envelope \<Rightarrow> codec_error + byte list" where
  "codec_encode message =
     and_then (admit message) (\<lambda>_.
     let frame = encode (envelope_to_cbor message) in
     and_then (preflight_check frame default_limits) (\<lambda>_.
     and_then (check_bootstrap message (length frame)) (\<lambda>_.
     Inr frame)))"

definition decode_limited :: "byte list \<Rightarrow> limits \<Rightarrow> codec_error + envelope" where
  "decode_limited frame limits =
     and_then (validate_limits limits) (\<lambda>_.
     and_then (preflight_check frame limits) (\<lambda>_.
     and_then (map_err (\<lambda>_. Codec_Malformed) (try_decode frame)) (\<lambda>tree.
     and_then (map_err (\<lambda>_. Codec_Malformed) (envelope_from_cbor tree)) (\<lambda>message.
     and_then (validate_envelope message) (\<lambda>_.
     and_then (check_bootstrap message (length frame)) (\<lambda>_.
     Inr message))))))"

definition codec_decode :: "byte list \<Rightarrow> codec_error + envelope" where
  "codec_decode frame = decode_limited frame default_limits"

definition encode_limited :: "envelope \<Rightarrow> limits \<Rightarrow> codec_error + byte list" where
  "encode_limited message limits =
     and_then (validate_limits limits) (\<lambda>_.
     and_then (admit_limited message limits) (\<lambda>_.
     and_then (codec_encode message) (\<lambda>frame.
     and_then (preflight_check frame limits) (\<lambda>_.
     Inr frame))))"

section \<open>The scan of an encoded tree\<close>

text \<open>
  What the scan asks of the shape of a tree and what it computes: byte strings only where
  the data payload stands, the bootstrap flag from the stream id, and the position, entries
  and allocation advanced by the tree's own costs. \<open>room\<close> is the negotiated room left.
\<close>

fun placed :: "usize \<Rightarrow> u64 \<Rightarrow> bool \<Rightarrow> cbor \<Rightarrow> bool" where
  "placed d parent flag (CFloat x) \<longleftrightarrow> False"
| "placed d parent flag (CBytes b) \<longleftrightarrow> flag"
| "placed d parent flag (CArray a) \<longleftrightarrow> list_all (placed (d + 1) 0 False) a"
| "placed d parent flag (CMap m) \<longleftrightarrow>
     list_all (\<lambda>e. placed (d + 1) (i64_as_usize (fst e)) (d = 1 \<and> parent = 16 \<and> fst e = 2) (snd e)) m"
| "placed d parent flag _ \<longleftrightarrow> True"

fun boots :: "usize \<Rightarrow> u64 \<Rightarrow> cbor \<Rightarrow> bool" where
  "boots d parent (CInt n) \<longleftrightarrow> d = 1 \<and> parent = 3 \<and> n = 0"
| "boots d parent (CArray a) \<longleftrightarrow> list_ex (boots (d + 1) 0) a"
| "boots d parent (CMap m) \<longleftrightarrow> list_ex (\<lambda>e. boots (d + 1) (i64_as_usize (fst e)) (snd e)) m"
| "boots d parent _ \<longleftrightarrow> False"

definition advance :: "nat \<Rightarrow> nat \<Rightarrow> nat \<Rightarrow> bool \<Rightarrow> scan \<Rightarrow> scan" where
  "advance len entries allocation boot s =
     s\<lparr>scan_at := scan_at s + len, scan_entries := scan_entries s + entries,
       scan_allocation := scan_allocation s + allocation,
       scan_bootstrap := scan_bootstrap s \<or> boot\<rparr>"

definition room :: "limits \<Rightarrow> nat \<Rightarrow> nat \<Rightarrow> scan \<Rightarrow> bool" where
  "room l n a s \<longleftrightarrow>
     scan_entries s + n \<le> i64_as_usize (lim_collection_entries l)
     \<and> scan_allocation s + a \<le> i64_as_usize (lim_decode_allocation l)"

text \<open>A message to evaluate the definitions on.\<close>

definition sample_window :: envelope where
  "sample_window = default_envelope\<lparr>env_version := 1, env_session_id := ''s'', env_stream_id := 1,
     env_kind := Kind_Window, env_window := Some \<lparr>window_max_offset = 4096\<rparr>\<rparr>"

section \<open>Steps of the scan\<close>

lemma advance_simps [simp]:
  "scan_at (advance len n a b s) = scan_at s + len"
  "scan_entries (advance len n a b s) = scan_entries s + n"
  "scan_allocation (advance len n a b s) = scan_allocation s + a"
  "scan_bootstrap (advance len n a b s) \<longleftrightarrow> scan_bootstrap s \<or> b"
  "advance len' n' a' b' (advance len n a b s) = advance (len + len') (n + n') (a + a') (b \<or> b') s"
  by (simp_all add: advance_def disj_assoc)

lemma scan_take_append:
  "input = pre @ b @ post \<Longrightarrow> scan_at s = length pre \<Longrightarrow> length input \<le> u64_max
    \<Longrightarrow> scan_take input (length b) s = Inr (b, advance (length b) 0 0 False s)"
  by (simp add: scan_take_def checked_add_u64_def advance_def)

lemma scan_charge_ok:
  "scan_allocation s + n \<le> i64_as_usize (lim_decode_allocation l)
    \<Longrightarrow> scan_charge l n s = Inr (advance 0 0 n False s)"
  using i64_as_usize_le [of "lim_decode_allocation l"]
  by (simp add: scan_charge_def checked_add_u64_def advance_def)

lemma scan_head_append:
  assumes input: "input = pre @ head major n @ post" and at: "scan_at s = length pre"
    and len: "length input \<le> u64_max" and n: "n \<le> u64_max" and major: "major < 8"
  shows "scan_head input s = Inr ((major, n), advance (length (head major n)) 0 0 False s)"
proof -
  obtain x rest where h: "head major n = x # rest" "unat x div 32 = major"
    "unat x mod 32 = (if n < 24 then n else if n < 256 then 24 else if n < 65536 then 25
       else if n < 4294967296 then 26 else 27)"
    using major by (auto intro: head_initial [of major n])
  have one: "scan_take input 1 s = Inr ([x], advance 1 0 0 False s)"
    using scan_take_append [of input pre "[x]" "rest @ post" s] input at len h(1) by simp
  have more: "scan_take input k (advance 1 0 0 False s) = Inr (be_bytes k n, advance (1 + k) 0 0 False s)"
    if "head major n = x # be_bytes k n" for k
    using scan_take_append [of input "pre @ [x]" "be_bytes k n" post "advance 1 0 0 False s"] that
      input at len by simp
  have v: "n < 256 \<Longrightarrow> be_value (be_bytes 1 n) = n" "n < 65536 \<Longrightarrow> be_value (be_bytes 2 n) = n"
    "n < 4294967296 \<Longrightarrow> be_value (be_bytes 4 n) = n" "be_value (be_bytes 8 n) = n"
    using n be_value_be_bytes [of n 1] by (simp_all add: be_value_be_bytes u64_max_def)
  consider "n < 24" | "24 \<le> n" "n < 256" | "256 \<le> n" "n < 65536" | "65536 \<le> n" "n < 4294967296"
    | "4294967296 \<le> n" by linarith
  then show ?thesis
  proof cases
    case 1
    then have "head major n = [x]" using h(1) by (simp add: head_def Let_def)
    with 1 show ?thesis using one h(2,3) by (simp add: scan_head_def)
  next
    case 2
    then have e: "head major n = x # be_bytes 1 n" using h(1) by (auto simp: head_def Let_def)
    show ?thesis using 2 one h(2,3) more [OF e] v by (simp add: scan_head_def e del: be_bytes.simps)
  next
    case 3
    then have e: "head major n = x # be_bytes 2 n" using h(1) by (auto simp: head_def Let_def)
    show ?thesis using 3 one h(2,3) more [OF e] v by (simp add: scan_head_def e del: be_bytes.simps)
  next
    case 4
    then have e: "head major n = x # be_bytes 4 n" using h(1) by (auto simp: head_def Let_def)
    show ?thesis using 4 one h(2,3) more [OF e] v by (simp add: scan_head_def e del: be_bytes.simps)
  next
    case 5
    then have e: "head major n = x # be_bytes 8 n" using h(1) by (auto simp: head_def Let_def)
    show ?thesis using 5 one h(2,3) more [OF e] v by (simp add: scan_head_def e del: be_bytes.simps)
  qed
qed

lemma scan_item_head:
  assumes "input = pre @ head major n @ post" "scan_at s = length pre" "length input \<le> u64_max"
    "n \<le> u64_max" "major < 8" and depth: "d \<le> i64_as_usize (lim_nesting l)"
    and entries: "scan_entries s + 1 \<le> i64_as_usize (lim_collection_entries l)"
    and alloc: "scan_allocation s + node_charge \<le> i64_as_usize (lim_decode_allocation l)"
  shows "scan_item l input d parent payload s =
    (let s = advance (length (head major n)) 1 node_charge
               (d = 1 \<and> parent = 3 \<and> major = 0 \<and> n = 0) s in
     if major = 0 \<or> major = 1 \<or> major = 7 then Inr s
     else if major = 2 \<or> major = 3 then
       (let cap = (if major = 2 \<and> payload then i64_as_usize (lim_data_payload l)
                   else i64_as_usize (lim_metadata_bytes l))
        in if n > cap then Inl Codec_Bounds
           else
             and_then (ok_or Codec_Bounds (checked_mul_u64 n 4)) (\<lambda>a.
             and_then (scan_charge l a s) (\<lambda>s.
             and_then (scan_take input n s) (\<lambda>(_, s). Inr s))))
     else if major = 4 \<or> major = 5 then
       (if n > i64_as_usize (lim_collection_entries l) - scan_entries s
        then Inl Codec_Bounds
        else scan_loop l input major n d parent s)
     else Inl Codec_Malformed)"
proof -
  let ?s1 = "s\<lparr>scan_entries := scan_entries s + 1\<rparr>"
  have c: "scan_charge l node_charge ?s1 = Inr (advance 0 0 node_charge False ?s1)"
    by (rule scan_charge_ok) (simp add: alloc)
  have h: "scan_head input (advance 0 0 node_charge False ?s1) =
      Inr ((major, n), advance (length (head major n)) 0 0 False (advance 0 0 node_charge False ?s1))"
    by (rule scan_head_append [of _ pre _ _ post]) (use assms in simp_all)
  have adv: "advance len 0 c False (s\<lparr>scan_entries := Suc (scan_entries s)\<rparr>) = advance len 1 c False s"
    "(advance len 1 c False s)\<lparr>scan_bootstrap := True\<rparr> = advance len 1 c True s" for len c
    by (simp_all add: advance_def)
  show ?thesis
    unfolding scan_item.simps [of l input d] Let_def
    using depth entries c h
    by (cases "d = 1 \<and> parent = 3 \<and> major = 0 \<and> n = 0") (auto simp: adv)
qed


lemma scan_loop_items:
  assumes "\<And>t pre post s. t \<in> set a \<Longrightarrow> input = pre @ enc t @ post \<Longrightarrow> scan_at s = length pre
      \<Longrightarrow> room l (t_entries t) (t_alloc t) s
      \<Longrightarrow> scan_item l input (d + 1) 0 False s
        = Inr (advance (length (enc t)) (t_entries t) (t_alloc t) (boots (d + 1) 0 t) s)"
    and "input = pre @ concat (map enc a) @ post" "scan_at s = length pre"
    and "room l (sum_list (map t_entries a)) (sum_list (map t_alloc a)) s"
  shows "scan_loop l input 4 (length a) d parent s
    = Inr (advance (length (concat (map enc a))) (sum_list (map t_entries a)) (sum_list (map t_alloc a))
        (list_ex (boots (d + 1) 0) a) s)"
  using assms
proof (induction a arbitrary: pre s)
  case Nil
  then show ?case by (simp add: scan_loop.simps advance_def)
next
  case (Cons t a)
  let ?s = "advance (length (enc t)) (t_entries t) (t_alloc t) (boots (d + 1) 0 t) s"
  have "scan_item l input (d + 1) 0 False s = Inr ?s"
    using Cons.prems(1) [of t pre "concat (map enc a) @ post" s] Cons.prems(2-) by (simp add: room_def)
  moreover have "scan_loop l input 4 (length a) d parent ?s
      = Inr (advance (length (concat (map enc a))) (sum_list (map t_entries a)) (sum_list (map t_alloc a))
          (list_ex (boots (d + 1) 0) a) ?s)"
    using Cons.IH [of "pre @ enc t" ?s] Cons.prems by (simp add: room_def)
  ultimately show ?case by (simp add: scan_loop.simps [of l input 4 "Suc (length a)"])
qed

lemma scan_loop_entries:
  assumes "\<And>e pre post s. e \<in> set m \<Longrightarrow> input = pre @ enc (snd e) @ post \<Longrightarrow> scan_at s = length pre
      \<Longrightarrow> room l (t_entries (snd e)) (t_alloc (snd e)) s
      \<Longrightarrow> scan_item l input (d + 1) (i64_as_usize (fst e)) (d = 1 \<and> parent = 16 \<and> i64_as_usize (fst e) = 2) s
        = Inr (advance (length (enc (snd e))) (t_entries (snd e)) (t_alloc (snd e))
            (boots (d + 1) (i64_as_usize (fst e)) (snd e)) s)"
    and "input = pre @ concat (map enc_entry m) @ post" "scan_at s = length pre"
    and "length input \<le> u64_max"
    and "room l (sum_list (map (\<lambda>e. t_entries (snd e)) m)) (sum_list (map (\<lambda>e. 32 + t_alloc (snd e)) m)) s"
  shows "scan_loop l input 5 (length m) d parent s
    = Inr (advance (length (concat (map enc_entry m))) (sum_list (map (\<lambda>e. t_entries (snd e)) m))
        (sum_list (map (\<lambda>e. 32 + t_alloc (snd e)) m))
        (list_ex (\<lambda>e. boots (d + 1) (i64_as_usize (fst e)) (snd e)) m) s)"
  using assms
proof (induction m arbitrary: pre s)
  case Nil
  then show ?case by (simp add: scan_loop.simps advance_def)
next
  case (Cons e m)
  let ?h = "head 0 (i64_as_usize (fst e))" and ?t = "snd e"
  let ?b = "boots (d + 1) (i64_as_usize (fst e)) ?t"
  let ?s1 = "advance (length ?h) 0 0 False s" and ?s2 = "advance (length ?h) 0 32 False s"
  let ?s3 = "advance (length (enc_entry e)) (t_entries ?t) (32 + t_alloc ?t) ?b s"
  have "scan_head input s = Inr ((0, i64_as_usize (fst e)), ?s1)"
    using scan_head_append [of input pre 0 "i64_as_usize (fst e)" "enc ?t @ concat (map enc_entry m) @ post" s]
      Cons.prems(2-4) i64_as_usize_le by simp
  moreover have "scan_charge l 32 ?s1 = Inr ?s2"
    using scan_charge_ok [of ?s1 32 l] Cons.prems(5) by (simp add: room_def)
  moreover have "scan_item l input (d + 1) (i64_as_usize (fst e))
      (d = 1 \<and> parent = 16 \<and> i64_as_usize (fst e) = 2) ?s2 = Inr ?s3"
    using Cons.prems(1) [of e "pre @ ?h" "concat (map enc_entry m) @ post" ?s2] Cons.prems(2-)
    by (simp add: room_def)
  moreover have "scan_loop l input 5 (length m) d parent ?s3
      = Inr (advance (length (concat (map enc_entry m))) (sum_list (map (\<lambda>e. t_entries (snd e)) m))
          (sum_list (map (\<lambda>e. 32 + t_alloc (snd e)) m))
          (list_ex (\<lambda>e. boots (d + 1) (i64_as_usize (fst e)) (snd e)) m) ?s3)"
    using Cons.IH [of "pre @ enc_entry e" ?s3] Cons.prems by (simp add: room_def)
  ultimately show ?case by (simp add: scan_loop.simps [of l input 5 "Suc (length m)"] ac_simps)
qed


lemma i64_as_usize_eq_2: "0 \<le> k \<Longrightarrow> in_i64 k \<Longrightarrow> i64_as_usize k = 2 \<longleftrightarrow> k = 2"
  by (auto simp: i64_as_usize_nonneg in_i64_def)

lemma room_mono: "room l n a s \<Longrightarrow> n' \<le> n \<Longrightarrow> a' \<le> a \<Longrightarrow> room l n' a' s"
  by (simp add: room_def)

lemma local_ok_depth: "local_ok l d t \<Longrightarrow> d \<le> i64_as_usize (lim_nesting l)"
  by (cases t) auto

lemma scan_item_string:
  assumes head: "input = pre @ head major (length b) @ b @ post" "scan_at s = length pre"
      "length input \<le> u64_max" "d \<le> i64_as_usize (lim_nesting l)"
    and major: "major = 2 \<and> payload \<and> length b \<le> min max_data (i64_as_usize (lim_data_payload l))
      \<or> major = 3 \<and> length b \<le> min max_metadata (i64_as_usize (lim_metadata_bytes l))"
    and room: "room l 1 (node_charge + length b * 4) s"
  shows "scan_item l input d parent payload s
    = Inr (advance (length (head major (length b)) + length b) 1 (node_charge + length b * 4) False s)"
proof -
  let ?s = "advance (length (head major (length b))) 1 node_charge False s"
  have "length b * 4 \<le> u64_max" using major by (auto simp: max_data_def max_metadata_def u64_max_def)
  moreover have "scan_charge l (length b * 4) ?s = Inr (advance 0 0 (length b * 4) False ?s)"
    by (rule scan_charge_ok) (use room in \<open>simp add: room_def\<close>)
  moreover have "scan_take input (length b) (advance 0 0 (length b * 4) False ?s)
      = Inr (b, advance (length b) 0 0 False (advance 0 0 (length b * 4) False ?s))"
    by (rule scan_take_append [of _ "pre @ head major (length b)" _ post]) (use head in simp_all)
  ultimately show ?thesis
    using major head room
    by (subst scan_item_head [OF head(1,2,3), where d = d and l = l])
      (auto simp: room_def checked_mul_u64_def)
qed

lemma scan_item_enc:
  "rust_cbor t \<Longrightarrow> canonical t \<Longrightarrow> placed d parent payload t \<Longrightarrow> local_ok l d t
    \<Longrightarrow> length input \<le> u64_max \<Longrightarrow> input = pre @ enc t @ post \<Longrightarrow> scan_at s = length pre
    \<Longrightarrow> room l (t_entries t) (t_alloc t) s
    \<Longrightarrow> scan_item l input d parent payload s
      = Inr (advance (length (enc t)) (t_entries t) (t_alloc t) (boots d parent t) s)"
proof (induction t arbitrary: d parent payload pre post s rule: enc.induct)
  case (1 n)
  let ?m = "if n \<ge> 0 then 0 else 1 :: nat" and ?a = "i64_as_usize (if n \<ge> 0 then n else - 1 - n)"
  have e: "enc (CInt n) = head ?m ?a" by simp
  have z: "n = 0 \<longleftrightarrow> ?m = 0 \<and> ?a = 0"
    using 1(1) by (auto simp: i64_as_usize_nonneg in_i64_def)
  show ?case
    using 1(4-) unfolding e
    by (subst scan_item_head [of input pre ?m ?a post]) (use i64_as_usize_le z in \<open>auto simp: room_def\<close>)
next
  case (3 b)
  then show ?case using scan_item_string [of input pre 2 b post s d l payload] by simp
next
  case (4 w)
  then show ?case
    using scan_item_string [of input pre 3 "string_bytes w" post s d l payload] by simp
next
  case (5 a)
  have len: "length a \<le> length (concat (map enc a))" by (rule length_le_concat) (rule enc_not_Nil)
  let ?s = "advance (length (head 4 (length a))) 1 node_charge False s"
  have "scan_loop l input 4 (length a) d parent ?s
    = Inr (advance (length (concat (map enc a))) (sum_list (map t_entries a)) (sum_list (map t_alloc a))
        (list_ex (boots (d + 1) 0) a) ?s)"
    by (rule scan_loop_items [of a _ _ _ "pre @ head 4 (length a)" post])
      (use 5 in \<open>auto simp: room_def list_all_iff\<close>)
  then show ?case
    using 5(5-) len length_le_entries [of a]
    by (subst scan_item_head [of input pre 4 "length a" "concat (map enc a) @ post"])
      (auto simp: room_def)
next
  case (6 m)
  have sort: "sort_key fst m = m" using 6(3) by (simp add: sort_key_id_if_sorted)
  have len: "length m \<le> length (concat (map enc_entry m))"
    by (rule length_le_concat) (simp add: enc_not_Nil)
  let ?s = "advance (length (head 5 (length m))) 1 node_charge False s"
  have "scan_loop l input 5 (length m) d parent ?s
    = Inr (advance (length (concat (map enc_entry m))) (sum_list (map (\<lambda>e. t_entries (snd e)) m))
        (sum_list (map (\<lambda>e. 32 + t_alloc (snd e)) m))
        (list_ex (\<lambda>e. boots (d + 1) (i64_as_usize (fst e)) (snd e)) m) ?s)"
    by (rule scan_loop_entries [of m _ _ _ _ "pre @ head 5 (length m)" post])
      (use 6 sort in \<open>auto simp: room_def list_all_iff i64_as_usize_eq_2\<close>)
  then show ?case
    using 6(5-) sort len length_le_entries_map [of m]
    by (subst scan_item_head [of input pre 5 "length m" "concat (map enc_entry m) @ post"])
      (auto simp: room_def)
next
  case (7 b)
  have e: "enc (CBool b) = head 7 (if b then 21 else 20)" by (simp add: head_def)
  show ?case
    using 7(4-) unfolding e
    by (subst scan_item_head [of input pre 7 "if b then 21 else 20" post]) (auto simp: room_def u64_max_def)
next
  case 8
  have e: "enc CNull = head 7 22" by (simp add: head_def)
  show ?case
    using 8(4-) unfolding e
    by (subst scan_item_head [of input pre 7 22 post]) (auto simp: room_def u64_max_def)
qed simp

section \<open>Envelopes through the scan and the decoder\<close>

lemma plain_placed: "plain t \<Longrightarrow> placed d parent payload t"
  by (induction t arbitrary: d parent payload rule: plain.induct) (auto simp: list_all_iff)

lemma boots_deep: "2 \<le> d \<Longrightarrow> \<not> boots d parent t"
  by (induction d parent t rule: boots.induct) (auto simp: list_ex_iff)

lemma placed_opt: "placed d parent payload (opt_cbor f x) \<longleftrightarrow> (\<forall>v. x = Some v \<longrightarrow> placed d parent payload (f v))"
  by (cases x) simp_all

lemma boots_opt: "boots d parent (opt_cbor f x) \<longleftrightarrow> (\<exists>v. x = Some v \<and> boots d parent (f v))"
  by (cases x) simp_all

context plain_message
begin

lemma to_cbor_placed [simp]: "placed d parent payload (to_cbor m)"
  by (simp add: plain_placed)

end

context cbor_message
begin

lemma to_cbor_boots [simp]: "1 \<le> d \<Longrightarrow> \<not> boots d parent (to_cbor m)"
proof -
  obtain es where "to_cbor m = CMap es" using to_cbor_map [of m] by (cases "to_cbor m") auto
  then show "1 \<le> d \<Longrightarrow> ?thesis" using boots_deep by (simp add: list_ex_iff)
qed

end

lemma envelope_placed: "placed 0 0 False (envelope_to_cbor m)"
  by (simp add: envelope_to_cbor_def data_msg_to_cbor_def placed_opt i64_as_usize_numeral i64_as_usize_one)

lemma envelope_boots: "boots 0 0 (envelope_to_cbor m) \<longleftrightarrow> env_stream_id m = 0"
  by (simp add: envelope_to_cbor_def boots_opt i64_as_usize_numeral i64_as_usize_one)

lemma local_ok_depth_ok:
  "local_ok l d t \<Longrightarrow> i64_as_usize (lim_nesting l) < limit \<Longrightarrow> depth_ok d limit t"
  by (induction l d t rule: local_ok.induct) (auto simp: list_all_iff)

lemma valid_caps:
  assumes "validate_limits l = Inr ()"
  shows "i64_as_usize (lim_encoded_frame l) = nat (lim_encoded_frame l)"
    "i64_as_usize (lim_data_payload l) = nat (lim_data_payload l)"
    "i64_as_usize (lim_metadata_bytes l) = nat (lim_metadata_bytes l)"
    "i64_as_usize (lim_nesting l) = nat (lim_nesting l)"
    "i64_as_usize (lim_collection_entries l) = nat (lim_collection_entries l)"
    "i64_as_usize (lim_decode_allocation l) = nat (lim_decode_allocation l)"
  using assms by (simp_all add: validate_limits_ok i64_as_usize_nonneg i64_max_def)

lemma validate_default [simp]: "validate_limits default_limits = Inr ()"
  by (simp add: validate_limits_ok default_limits_def)

lemma admit_envelope_ok:
  "admit_envelope m l = Inr () \<longleftrightarrow> admissible (env_stream_id m = 0) l (envelope_to_cbor m)"
  by (simp add: admit_envelope_def allocation_charge_eq Let_def)

lemma admissible_default:
  assumes "validate_limits l = Inr ()" "admissible boot l t"
  shows "admissible boot default_limits t"
proof -
  have local: "local_ok l d t \<Longrightarrow> local_ok default_limits d t" for d
    using assms(1)
    by (induction l d t rule: local_ok.induct)
      (auto simp: list_all_iff valid_caps default_limits_def i64_as_usize_numeral validate_limits_ok
        intro: order_trans)
  show ?thesis
    using assms local
    by (auto simp: admissible_iff valid_caps validate_limits_ok default_limits_def i64_as_usize_numeral)
qed

lemma preflight_admissible:
  assumes "rust_cbor (envelope_to_cbor m)" "admissible (env_stream_id m = 0) l (envelope_to_cbor m)"
    "validate_limits l = Inr ()"
  shows "preflight_check (encode (envelope_to_cbor m)) l = Inr ()"
proof -
  let ?t = "envelope_to_cbor m" and ?s = "\<lparr>scan_at = 0, scan_entries = 0,
    scan_allocation = length (enc (envelope_to_cbor m)), scan_bootstrap = False\<rparr>"
  have fits: "local_ok l 0 ?t" "length (enc ?t) \<le> i64_as_usize (lim_encoded_frame l)"
      "t_entries ?t \<le> i64_as_usize (lim_collection_entries l)"
      "t_alloc ?t + length (enc ?t) \<le> i64_as_usize (lim_decode_allocation l)"
      "env_stream_id m = 0 \<Longrightarrow> length (enc ?t) \<le> max_bootstrap
        \<and> t_alloc ?t + length (enc ?t) \<le> max_bootstrap_allocation"
    using assms(1,2) by (simp_all add: admissible_iff t_encoded_eq)
  have "scan_item l (enc ?t) 0 0 False ?s
      = Inr (advance (length (enc ?t)) (t_entries ?t) (t_alloc ?t) (boots 0 0 ?t) ?s)"
    by (rule scan_item_enc [of _ _ _ _ _ _ "[]" "[]"])
      (use assms(1) fits i64_as_usize_le [of "lim_encoded_frame l"] in
        \<open>simp_all add: envelope_placed room_def add.commute\<close>)
  then show ?thesis
    using fits by (auto simp: preflight_check_def encode_def envelope_boots add.commute)
qed

lemma try_decode_encode:
  assumes "rust_cbor t" "canonical t" "depth_ok 0 32 t" "length (enc t) \<le> u64_max"
  shows "try_decode (encode t) = Inr t"
  using dec_enc [OF assms(1,2,3), of "[]" "[]"] assms(4)
  by (simp add: try_decode_def try_decode_with_def default_max_depth_def max_depth_ceiling_def encode_def)

lemma encode_limited_ok:
  assumes rust: "rust_cbor (envelope_to_cbor m)" and admit: "admit_limited m l = Inr ()"
  shows "encode_limited m l = Inr (encode (envelope_to_cbor m))"
    "decode_limited (encode (envelope_to_cbor m)) l = Inr m"
proof -
  let ?t = "envelope_to_cbor m"
  have l: "validate_limits l = Inr ()" and v: "validate_envelope m = Inr ()"
    and a: "admissible (env_stream_id m = 0) l ?t"
    using admit by (auto simp: admit_limited_def and_then_eq_Inr admit_envelope_ok)
  note d = admissible_default [OF l a]
  have len: "length (enc ?t) \<le> i64_as_usize (lim_encoded_frame l)"
      "env_stream_id m = 0 \<Longrightarrow> length (enc ?t) \<le> max_bootstrap" and "local_ok l 0 ?t"
    using a rust by (simp_all add: admissible_iff t_encoded_eq)
  then have boot: "check_bootstrap m (length (encode ?t)) = Inr ()"
    by (auto simp: check_bootstrap_def encode_def)
  have "admit_envelope m l = Inr ()" "admit_envelope m default_limits = Inr ()"
    using a d by (simp_all add: admit_envelope_ok)
  then show "encode_limited m l = Inr (encode ?t)"
    using l v boot preflight_admissible [OF rust a l] preflight_admissible [OF rust d]
    by (simp add: encode_limited_def codec_encode_def admit_def admit_limited_def)
  have "depth_ok 0 32 ?t"
    using \<open>local_ok l 0 ?t\<close> l by (auto intro!: local_ok_depth_ok simp: valid_caps validate_limits_ok)
  moreover have "length (enc ?t) \<le> u64_max"
    using len i64_as_usize_le order_trans by blast
  ultimately have "try_decode (encode ?t) = Inr ?t"
    using try_decode_encode rust by simp
  then show "decode_limited (encode ?t) l = Inr m"
    using l v boot preflight_admissible [OF rust a l] by (simp add: decode_limited_def)
qed

section \<open>An admitted message\<close>

lemma sample_tree:
  "envelope_to_cbor sample_window = CMap
     [(1, CInt 1), (2, CText ''s''), (3, CInt 1), (4, CInt 8), (5, CNull), (10, CNull), (11, CNull),
      (12, CNull), (13, CNull), (14, CNull), (15, CNull), (16, CNull), (17, CMap [(1, CInt 4096)]),
      (18, CNull), (19, CNull), (20, CNull), (21, CNull), (22, CNull), (23, CNull), (24, CNull),
      (25, CNull), (26, CNull), (27, CNull)]"
  by (simp add: envelope_to_cbor_def sample_window_def default_envelope_def window_msg_to_cbor_def)

lemma sample_stream: "env_stream_id sample_window = 1"
  by (simp add: sample_window_def)

lemma sample_valid: "validate_envelope sample_window = Inr ()"
  by (simp add: validate_envelope_def validate_header_def validate_failures_def validate_stream_bodies_def
      bodies_def sample_window_def default_envelope_def)

lemma sample_rust: "rust_cbor (envelope_to_cbor sample_window)"
  by (simp add: sample_tree in_i64_def i64_min_def i64_max_def utf8_valid_def str_bytes_def utf8_scan.simps
      utf8_width_def)

lemma default_caps [simp]:
  "i64_as_usize (lim_encoded_frame default_limits) = 131072"
  "i64_as_usize (lim_data_payload default_limits) = 65536"
  "i64_as_usize (lim_metadata_bytes default_limits) = 16384"
  "i64_as_usize (lim_nesting default_limits) = 16"
  "i64_as_usize (lim_collection_entries default_limits) = 256"
  "i64_as_usize (lim_decode_allocation default_limits) = 524288"
  by (simp_all add: default_limits_def i64_as_usize_numeral)

lemma sample_admissible: "admissible (env_stream_id sample_window = 0) default_limits (envelope_to_cbor sample_window)"
  by (simp add: admissible_iff sample_tree budget_head_def node_charge_def i64_as_usize_numeral
      i64_as_usize_one max_metadata_def sample_stream)

lemma sample_admitted: "admit_limited sample_window default_limits = Inr ()"
  using sample_admissible by (simp add: admit_limited_def sample_valid admit_envelope_ok)

section \<open>Properties\<close>

text \<open>
  C1: what admission accepts, the codec carries. A message admitted under the negotiated
  limits is encoded without error, passes the preflight scan, and is decoded under the same
  limits to the same message.
\<close>

theorem codec_roundtrip:
  assumes "rust_cbor (envelope_to_cbor m)" "admit_limited m l = Inr ()"
  shows "\<exists>frame. encode_limited m l = Inr frame \<and> decode_limited frame l = Inr m"
  using encode_limited_ok [OF assms] by blast

theorem codec_roundtrip_witness:
  "\<exists>frame. encode_limited sample_window default_limits = Inr frame
     \<and> decode_limited frame default_limits = Inr sample_window"
  by (rule codec_roundtrip) (rule sample_rust, rule sample_admitted)

text \<open>
  C3: admission is exact. The visitors, which never build the CBOR value, succeed precisely
  when the message is valid, its encoding has at most the negotiated length, its tree the
  negotiated number of nodes, its live allocation the negotiated size, and a bootstrap
  message the bootstrap bounds; the charge returned is the encoded length plus the
  allocation of the tree.
\<close>

theorem admission_exact:
  assumes "rust_cbor (envelope_to_cbor m)"
  shows "codec_allocation_charge m l = Inr c \<longleftrightarrow>
    validate_limits l = Inr () \<and> validate_envelope m = Inr ()
    \<and> (let t = envelope_to_cbor m; len = length (encode t); live = t_alloc t + len in
       local_ok l 0 t
       \<and> t_entries t \<le> i64_as_usize (lim_collection_entries l)
       \<and> len \<le> i64_as_usize (lim_encoded_frame l)
       \<and> live \<le> i64_as_usize (lim_decode_allocation l)
       \<and> (env_stream_id m = 0 \<longrightarrow> len \<le> max_bootstrap \<and> live \<le> max_bootstrap_allocation)
       \<and> c = live)"
  using t_encoded_eq [OF assms]
  by (auto simp: codec_allocation_charge_def and_then_eq_Inr allocation_charge_eq admissible_iff Let_def
      encode_def add.commute)

theorem admission_exact_witness:
  "codec_allocation_charge sample_window default_limits = Inr 4828"
  unfolding admission_exact [OF sample_rust]
  using sample_valid sample_admissible t_encoded_eq [OF sample_rust, symmetric]
  by (simp add: Let_def encode_def admissible_iff)
    (simp add: sample_tree budget_head_def node_charge_def i64_as_usize_numeral i64_as_usize_one)

text \<open>
  C23: a valid message carries the body of its kind and no other: each of the eighteen body
  fields is present exactly when the message is of the kind the field is for.
\<close>

theorem valid_envelope_one_body:
  assumes "validate_envelope m = Inr ()"
  shows "(env_bind m = None \<longleftrightarrow> env_kind m \<noteq> Kind_Bind)
    \<and> (env_bound m = None \<longleftrightarrow> env_kind m \<noteq> Kind_Bound)
    \<and> (env_bind_rejected m = None \<longleftrightarrow> env_kind m \<noteq> Kind_BindRejected)
    \<and> (env_open m = None \<longleftrightarrow> env_kind m \<noteq> Kind_Open)
    \<and> (env_opened m = None \<longleftrightarrow> env_kind m \<noteq> Kind_Opened)
    \<and> (env_open_failed m = None \<longleftrightarrow> env_kind m \<noteq> Kind_OpenFailed)
    \<and> (env_data m = None \<longleftrightarrow> env_kind m \<noteq> Kind_Data)
    \<and> (env_window m = None \<longleftrightarrow> env_kind m \<noteq> Kind_Window)
    \<and> (env_flush m = None \<longleftrightarrow> env_kind m \<noteq> Kind_Flush)
    \<and> (env_flushed m = None \<longleftrightarrow> env_kind m \<noteq> Kind_Flushed)
    \<and> (env_end_write m = None \<longleftrightarrow> env_kind m \<noteq> Kind_EndWrite)
    \<and> (env_close m = None \<longleftrightarrow> env_kind m \<noteq> Kind_Close)
    \<and> (env_closed m = None \<longleftrightarrow> env_kind m \<noteq> Kind_Closed)
    \<and> (env_cancel m = None \<longleftrightarrow> env_kind m \<noteq> Kind_Cancel)
    \<and> (env_failed m = None \<longleftrightarrow> env_kind m \<noteq> Kind_Failed)
    \<and> (env_check_identity m = None \<longleftrightarrow> env_kind m \<noteq> Kind_CheckIdentity)
    \<and> (env_identity_checked m = None \<longleftrightarrow> env_kind m \<noteq> Kind_IdentityChecked)
    \<and> (env_identity_check_failed m = None \<longleftrightarrow> env_kind m \<noteq> Kind_IdentityCheckFailed)"
proof -
  have "validate_header m = Inr ()" using assms by (auto simp: validate_envelope_def and_then_eq_Inr)
  note b = validate_header_body [OF this]
  show ?thesis
    using b [of Kind_Bind] b [of Kind_Bound] b [of Kind_BindRejected] b [of Kind_Open] b [of Kind_Opened]
      b [of Kind_OpenFailed] b [of Kind_Data] b [of Kind_Window] b [of Kind_Flush] b [of Kind_Flushed]
      b [of Kind_EndWrite] b [of Kind_Close] b [of Kind_Closed] b [of Kind_Cancel] b [of Kind_Failed]
      b [of Kind_CheckIdentity] b [of Kind_IdentityChecked] b [of Kind_IdentityCheckFailed]
    by (simp add: is_some_eq) (metis not_None_eq)
qed

theorem valid_envelope_one_body_witness:
  "env_window sample_window \<noteq> None \<and> env_flush sample_window = None"
  using valid_envelope_one_body [OF sample_valid] by (simp add: sample_window_def)

end
