(* ===== verification/Cbor_Grammar.thy ===== *)
theory Cbor_Grammar
  imports Cbor
begin

text \<open>
  What the decoder of \<open>src/cbor.rs\<close> accepts, as a grammar: \<open>item_at data limit off depth v o2\<close>
  says that the bytes of \<open>data\<close> from \<open>off\<close> to \<open>o2\<close> are the value \<open>v\<close>. Every successful
  run of the decoder is a derivation, so that facts about decoded values are proved by rule
  induction: the offsets advance and stay inside the input, the value is one of the Rust
  type with distinct non-negative keys and bounded nesting, and, for a value without floats
  whose maps are in key order, encoding it gives back the very bytes that were read.
\<close>

section \<open>Shapes and positions\<close>

fun ordered :: "cbor \<Rightarrow> bool" where
  "ordered (CFloat x) \<longleftrightarrow> False"
| "ordered (CArray a) \<longleftrightarrow> list_all ordered a"
| "ordered (CMap m) \<longleftrightarrow> sorted (map fst m) \<and> list_all (\<lambda>e. ordered (snd e)) m"
| "ordered _ \<longleftrightarrow> True"

fun unique_keys :: "cbor \<Rightarrow> bool" where
  "unique_keys (CArray a) \<longleftrightarrow> list_all unique_keys a"
| "unique_keys (CMap m) \<longleftrightarrow>
     distinct (map fst m) \<and> list_all (\<lambda>e. 0 \<le> fst e \<and> unique_keys (snd e)) m"
| "unique_keys _ \<longleftrightarrow> True"

definition span :: "byte list \<Rightarrow> nat \<Rightarrow> nat \<Rightarrow> byte list" where
  "span data a b = take (b - a) (drop a data)"

definition arg_width :: "nat \<Rightarrow> nat" where
  "arg_width info =
     (if info < 24 then 0 else if info = 24 then 1 else if info = 25 then 2
      else if info = 26 then 4 else 8)"

definition arg_value :: "byte list \<Rightarrow> nat \<Rightarrow> nat \<Rightarrow> nat" where
  "arg_value data off info =
     (if info < 24 then info else be_value (take (arg_width info) (drop off data)))"

definition major_at :: "byte list \<Rightarrow> usize \<Rightarrow> nat" where
  "major_at data off = unat (data ! off) div 32"

definition info_at :: "byte list \<Rightarrow> usize \<Rightarrow> nat" where
  "info_at data off = unat (data ! off) mod 32"

definition arg_at :: "byte list \<Rightarrow> usize \<Rightarrow> u64 \<Rightarrow> usize \<Rightarrow> bool" where
  "arg_at data off n o1 \<longleftrightarrow>
     off < length data \<and> read_arg data (off + 1) (info_at data off) = Inr (n, o1)"

section \<open>The grammar\<close>

inductive item_at :: "byte list \<Rightarrow> usize \<Rightarrow> usize \<Rightarrow> usize \<Rightarrow> cbor \<Rightarrow> usize \<Rightarrow> bool"
  and items_at :: "byte list \<Rightarrow> usize \<Rightarrow> usize \<Rightarrow> usize \<Rightarrow> cbor list \<Rightarrow> usize \<Rightarrow> bool"
  and entries_at :: "byte list \<Rightarrow> usize \<Rightarrow> i64 set \<Rightarrow> usize \<Rightarrow> usize \<Rightarrow> (i64 \<times> cbor) list \<Rightarrow> usize \<Rightarrow> bool"
  for data :: "byte list" and limit :: usize
where
  At_Pos: "arg_at data off n o2 \<Longrightarrow> major_at data off = 0 \<Longrightarrow> int n \<le> i64_max
    \<Longrightarrow> item_at data limit off depth (CInt (int n)) o2"
| At_Neg: "arg_at data off n o2 \<Longrightarrow> major_at data off = 1 \<Longrightarrow> int n \<le> i64_max
    \<Longrightarrow> item_at data limit off depth (CInt (- 1 - int n)) o2"
| At_Bytes: "arg_at data off n o1 \<Longrightarrow> major_at data off = 2 \<Longrightarrow> o1 + n \<le> length data
    \<Longrightarrow> b = take n (drop o1 data) \<Longrightarrow> item_at data limit off depth (CBytes b) (o1 + n)"
| At_Text: "arg_at data off n o1 \<Longrightarrow> major_at data off = 3 \<Longrightarrow> o1 + n \<le> length data
    \<Longrightarrow> w = string_of_bytes (take n (drop o1 data)) \<Longrightarrow> utf8_valid w
    \<Longrightarrow> item_at data limit off depth (CText w) (o1 + n)"
| At_Array: "arg_at data off (length a) o1 \<Longrightarrow> major_at data off = 4 \<Longrightarrow> depth < limit
    \<Longrightarrow> items_at data limit o1 (depth + 1) a o2 \<Longrightarrow> item_at data limit off depth (CArray a) o2"
| At_Map: "arg_at data off (length m) o1 \<Longrightarrow> major_at data off = 5 \<Longrightarrow> depth < limit
    \<Longrightarrow> entries_at data limit {} o1 (depth + 1) m o2 \<Longrightarrow> item_at data limit off depth (CMap m) o2"
| At_Simple: "off < length data \<Longrightarrow> major_at data off = 7
    \<Longrightarrow> (info_at data off, v) \<in> {(20, CBool False), (21, CBool True), (22, CNull)}
    \<Longrightarrow> o2 = off + 1 \<Longrightarrow> item_at data limit off depth v o2"
| At_Float: "off < length data \<Longrightarrow> major_at data off = 7 \<Longrightarrow> info_at data off \<in> {25, 26, 27}
    \<Longrightarrow> o2 = off + 1 + arg_width (info_at data off) \<Longrightarrow> o2 \<le> length data
    \<Longrightarrow> item_at data limit off depth (CFloat x) o2"
| Items_Nil: "items_at data limit o1 depth [] o1"
| Items_Cons: "item_at data limit o1 depth v o2 \<Longrightarrow> items_at data limit o2 depth vs o3
    \<Longrightarrow> items_at data limit o1 depth (v # vs) o3"
| Entries_Nil: "entries_at data limit seen o1 depth [] o1"
| Entries_Cons: "item_at data limit o1 depth (CInt k) o2 \<Longrightarrow> 0 \<le> k \<Longrightarrow> k \<notin> seen
    \<Longrightarrow> item_at data limit o2 depth v o3 \<Longrightarrow> entries_at data limit (insert k seen) o3 depth m o4
    \<Longrightarrow> entries_at data limit seen o1 depth ((k, v) # m) o4"

section \<open>Arguments\<close>

lemma take_at_eq:
  "take_at data off n = Inr b \<longleftrightarrow>
     off + n \<le> u64_max \<and> off + n \<le> length data \<and> b = take n (drop off data)"
  by (auto simp: take_at_def and_then_eq_Inr split: if_splits)

lemma info_cases:
  obtains "info < 24" | "info = 24" | "info = 25" | "info = 26" | "info = 27" | "27 < (info :: nat)"
  by linarith

lemma read_arg_width:
  assumes "read_arg data off info = Inr (n, o1)" "off \<le> length data"
  shows "info \<le> 27" "n = arg_value data off info" "o1 = off + arg_width info" "o1 \<le> length data"
  by (rule info_cases [of info];
      use assms in \<open>simp add: read_arg_def arg_value_def arg_width_def and_then_eq_Inr take_at_eq
        split: if_splits; fail\<close>)+

lemma span_append: "a \<le> b \<Longrightarrow> b \<le> c \<Longrightarrow> span data a b @ span data b c = span data a c"
proof -
  assume "a \<le> b" "b \<le> c"
  then have "take (c - a) (drop a data) = take (b - a) (drop a data) @ take (c - b) (drop (b - a) (drop a data))"
    by (metis take_add Nat.add_diff_assoc2 le_add_diff_inverse add.commute le_add_diff_inverse2)
  then show ?thesis using \<open>a \<le> b\<close> by (simp add: span_def)
qed

lemma span_empty [simp]: "span data a a = []"
  by (simp add: span_def)

section \<open>Every decoded value is in the grammar\<close>

lemma dec_cases:
  assumes "dec data off depth limit = Inr (v, o2)"
  obtains
    (Pos) n where "major_at data off = 0" "arg_at data off n o2"
      "int n \<le> i64_max" "v = CInt (int n)"
  | (Neg) n where "major_at data off = 1" "arg_at data off n o2"
      "int n \<le> i64_max" "v = CInt (- 1 - int n)"
  | (Bytes) n o1 where "major_at data off = 2" "arg_at data off n o1"
      "o2 = o1 + n" "o2 \<le> length data" "v = CBytes (take n (drop o1 data))"
  | (Text) n o1 where "major_at data off = 3" "arg_at data off n o1"
      "o2 = o1 + n" "o2 \<le> length data" "v = CText (string_of_bytes (take n (drop o1 data)))"
      "utf8_valid (string_of_bytes (take n (drop o1 data)))"
  | (Array) n o1 a where "major_at data off = 4" "arg_at data off n o1"
      "depth < limit" "dec_items data n o1 (depth + 1) limit = Inr (a, o2)" "v = CArray a"
  | (Map) n o1 m where "major_at data off = 5" "arg_at data off n o1"
      "depth < limit" "dec_entries data n [] o1 (depth + 1) limit = Inr (m, o2)" "v = CMap m"
  | (Simple) "major_at data off = 7" "info_at data off \<in> {20, 21, 22}" "o2 = off + 1"
      "v = (if info_at data off = 20 then CBool False
            else if info_at data off = 21 then CBool True else CNull)"
  | (Float) x where "major_at data off = 7" "info_at data off \<in> {25, 26, 27}"
      "o2 = off + 1 + arg_width (info_at data off)" "o2 \<le> length data" "v = CFloat x"
proof -
  let ?major = "major_at data off"
  have off: "\<not> off \<ge> length data" using assms by (auto simp: dec.simps [of data off])
  then have off': "off < length data" by simp
  note eq = assms [unfolded dec.simps [of data off] Let_def if_not_P [OF off],
      folded major_at_def info_at_def]
  note simps = and_then_eq_Inr arg_at_def off'
  consider "?major = 0" | "?major = 1" | "?major = 2" | "?major = 3" | "?major = 4" | "?major = 5"
    | "?major = 7" | "?major = 6" | "7 < ?major" by linarith
  then show thesis
  proof cases
    case 1
    then show thesis using eq Pos by (auto simp: simps i64_try_from_def split: if_splits)
  next
    case 2
    then show thesis using eq Neg by (auto simp: simps i64_try_from_def split: if_splits)
  next
    case 3
    then show thesis using eq Bytes by (auto simp: simps take_at_eq)
  next
    case 4
    then show thesis using eq Text by (auto simp: simps take_at_eq split: if_splits)
  next
    case 5
    then show thesis using eq Array by (auto simp: simps enter_def split: if_splits)
  next
    case 6
    then show thesis using eq Map by (auto simp: simps enter_def split: if_splits)
  next
    case 7
    then show thesis
      using eq Simple Float by (auto simp: simps take_at_eq arg_width_def split: if_splits)
  qed (use eq in simp_all)
qed

lemma dec_entries_Cons:
  assumes "n \<noteq> 0" "dec_entries data n seen o1 depth limit = Inr (m, o2)"
  shows "\<exists>k o2' v o3 ki m'. m = (ki, v) # m' \<and> dec data o1 depth limit = Inr (k, o2')
    \<and> map_key_of k = Inr ki \<and> ki \<notin> set seen \<and> dec data o2' depth limit = Inr (v, o3)
    \<and> dec_entries data (n - 1) (ki # seen) o3 depth limit = Inr (m', o2)"
  using assms(2) unfolding dec_entries.simps [of data n] if_not_P [OF assms(1)]
  by (auto simp: and_then_eq_Inr split: if_splits)

lemma dec_at:
  "dec data off depth limit = Inr (v, o2) \<Longrightarrow> item_at data limit off depth v o2"
  "dec_items data n o1 depth limit = Inr (a, o2) \<Longrightarrow> length a = n \<and> items_at data limit o1 depth a o2"
  "dec_entries data n seen o1 depth limit = Inr (m, o2) \<Longrightarrow>
     length m = n \<and> entries_at data limit (set seen) o1 depth m o2"
proof (induction data off depth limit and data n o1 depth limit and data n seen o1 depth limit
    arbitrary: v o2 and a o2 and m o2 rule: dec_dec_items_dec_entries.induct)
  case (1 data off depth limit)
  have off: "off < length data" using 1(3) by (auto simp: dec.simps [of data off] split: if_splits)
  from 1(3) show ?case
  proof (cases rule: dec_cases)
    case (Array n o1 a)
    then have "length a = n \<and> items_at data limit o1 (depth + 1) a o2"
      by (intro 1(1) [OF _ refl refl refl refl _ _ _ _ _ _ refl]) (use off in \<open>simp_all add: enter_def arg_at_def major_at_def info_at_def\<close>)
    then show ?thesis using Array off by (auto intro: At_Array)
  next
    case (Map n o1 m)
    then have "length m = n \<and> entries_at data limit (set []) o1 (depth + 1) m o2"
      by (intro 1(2) [OF _ refl refl refl refl _ _ _ _ _ _ _ refl]) (use off in \<open>simp_all add: enter_def arg_at_def major_at_def info_at_def\<close>)
    then show ?thesis using Map off by (auto intro: At_Map)
  qed (use off in \<open>auto intro: item_at_items_at_entries_at.intros\<close>)
next
  case (2 data n o1 depth limit)
  then show ?case
    by (cases "n = 0")
      (auto simp: dec_items.simps [of data n] dec_items.simps [of data 0] and_then_eq_Inr
        intro: item_at_items_at_entries_at.intros)
next
  case (3 data n seen o1 depth limit)
  show ?case
  proof (cases "n = 0")
    case False
    then obtain k o2' v o3 ki m' where m: "m = (ki, v) # m'" and
      d: "dec data o1 depth limit = Inr (k, o2')" "map_key_of k = Inr ki" "ki \<notin> set seen"
        "dec data o2' depth limit = Inr (v, o3)"
        "dec_entries data (n - 1) (ki # seen) o3 depth limit = Inr (m', o2)"
      using dec_entries_Cons [OF False 3(4)] by blast
    have k: "k = CInt ki" "0 \<le> ki" using d(2) by (auto simp: map_key_of_def split: cbor.splits if_splits)
    have "item_at data limit o1 depth k o2'" by (rule 3(1) [OF False d(1)])
    moreover have "item_at data limit o2' depth v o3"
      by (rule 3(2) [OF False d(1) refl d(2,3) d(4)])
    moreover have "length m' = n - 1 \<and> entries_at data limit (set (ki # seen)) o3 depth m' o2"
      by (rule 3(3) [OF False d(1) refl d(2,3,4) refl d(5)])
    ultimately show ?thesis
      using m k d(3) False Entries_Cons [of data limit o1 depth ki o2' "set seen" v o3 m' o2] by simp
  next
    case True
    then show ?thesis
      using 3(4) unfolding dec_entries.simps [of data n] if_P [OF True] by (auto intro: Entries_Nil)
  qed
qed

section \<open>Bounds and types\<close>

lemma arg_at_bounds: "arg_at data off n o1 \<Longrightarrow> off < o1 \<and> o1 \<le> length data"
  using read_arg_width [of data "off + 1" "info_at data off" n o1] by (simp add: arg_at_def)

lemma at_bounds:
  "item_at data limit off depth v o2 \<Longrightarrow> off < o2 \<and> o2 \<le> length data"
  "items_at data limit o1 depth a o2 \<Longrightarrow> o1 \<le> length data \<Longrightarrow> o1 \<le> o2 \<and> o2 \<le> length data"
  "entries_at data limit seen o1 depth m o2 \<Longrightarrow> o1 \<le> length data \<Longrightarrow> o1 \<le> o2 \<and> o2 \<le> length data"
  by (induction rule: item_at_items_at_entries_at.inducts) (auto dest: arg_at_bounds)

lemma at_sound:
  "item_at data limit off depth v o2 \<Longrightarrow> rust_cbor v \<and> unique_keys v \<and> depth_ok depth limit v"
  "items_at data limit o1 depth a o2 \<Longrightarrow>
     list_all (\<lambda>v. rust_cbor v \<and> unique_keys v \<and> depth_ok depth limit v) a"
  "entries_at data limit seen o1 depth m o2 \<Longrightarrow> distinct (map fst m) \<and> fst ` set m \<inter> seen = {}
     \<and> list_all (\<lambda>e. 0 \<le> fst e \<and> in_i64 (fst e) \<and> rust_cbor (snd e) \<and> unique_keys (snd e)
         \<and> depth_ok depth limit (snd e)) m"
proof (induction rule: item_at_items_at_entries_at.inducts)
  case (At_Array off a o1 depth o2)
  then show ?case by (simp add: list_all_iff)
next
  case (At_Map off m o1 depth o2)
  then show ?case by (simp add: list_all_iff)
next
  case (Entries_Cons o1 depth k o2 seen v o3 m o4)
  then show ?case by auto
qed (auto simp: in_i64_def i64_min_def i64_max_def)

section \<open>Encoding what was decoded\<close>

lemma be_value_bound: "be_value bs < 256 ^ length bs"
proof (induction bs rule: rev_induct)
  case (snoc b bs)
  have "unat b < 256" using unsigned_less [of b] by simp
  then show ?case using snoc by simp
qed (simp add: be_value_def)

lemma be_bytes_be_value: "be_bytes (length bs) (be_value bs) = bs"
proof (induction bs rule: rev_induct)
  case (snoc b bs)
  have "unat b < 256" using unsigned_less [of b] by simp
  then show ?case using snoc by simp
qed (simp add: be_value_def)

lemma span_Suc: "off < length data \<Longrightarrow> span data off (Suc off + k) = data ! off # take k (drop (Suc off) data)"
  by (simp add: span_def take_Suc_conv_app_nth Cons_nth_drop_Suc [symmetric])

lemma head_info:
  "n < 24 \<Longrightarrow> head major n = [of_nat (major * 32 + n)]"
  "24 \<le> n \<Longrightarrow> n < 256 \<Longrightarrow> head major n = of_nat (major * 32 + 24) # be_bytes 1 n"
  "256 \<le> n \<Longrightarrow> n < 65536 \<Longrightarrow> head major n = of_nat (major * 32 + 25) # be_bytes 2 n"
  "65536 \<le> n \<Longrightarrow> n < 4294967296 \<Longrightarrow> head major n = of_nat (major * 32 + 26) # be_bytes 4 n"
  "4294967296 \<le> n \<Longrightarrow> head major n = of_nat (major * 32 + 27) # be_bytes 8 n"
  by (simp_all add: head_def Let_def)

lemma byte_at: "data ! off = of_nat (major_at data off * 32 + info_at data off)"
  by (simp add: major_at_def info_at_def)

lemma read_arg_minimal:
  assumes "read_arg data off info = Inr (n, o1)"
  shows "info = 24 \<Longrightarrow> 24 \<le> n" "info = 25 \<Longrightarrow> 256 \<le> n" "info = 26 \<Longrightarrow> 65536 \<le> n"
    "info = 27 \<Longrightarrow> 4294967296 \<le> n"
  using assms by (auto simp: read_arg_def and_then_eq_Inr split: if_splits)

lemma arg_at_head:
  assumes "arg_at data off n o1"
  shows "span data off o1 = head (major_at data off) n"
proof -
  define info where "info = info_at data off"
  define b where "b = take (arg_width info) (drop (Suc off) data)"
  have r: "off < length data" "read_arg data (Suc off) info = Inr (n, o1)"
    using assms by (auto simp: arg_at_def info_def)
  note w = read_arg_width [OF r(2)] and m = read_arg_minimal [OF r(2)]
  have o1: "o1 = Suc off + arg_width info" "info \<le> 27" using w r(1) by simp_all
  have s: "span data off o1 = of_nat (major_at data off * 32 + info) # b"
    using r(1) span_Suc [of off data "arg_width info"] byte_at [of data off]
    unfolding o1(1) info_def [symmetric] b_def by metis
  have len: "length b = arg_width info" using w r(1) o1 by (simp add: b_def)
  have big: "24 \<le> info \<Longrightarrow> b = be_bytes (arg_width info) n \<and> n < 256 ^ arg_width info"
    using be_bytes_be_value [of b] be_value_bound [of b] len w(2) r(1) by (simp add: arg_value_def b_def)
  consider "info < 24" | "info = 24" | "info = 25" | "info = 26" | "info = 27" using o1(2) by linarith
  then show ?thesis
  proof cases
    case 1
    then show ?thesis using s w(2) r(1) len by (simp add: head_info(1) arg_value_def arg_width_def)
  next
    case 2
    then have "b = be_bytes 1 n" "n < 256" using big by (simp_all add: arg_width_def)
    then show ?thesis using s m(1) [OF 2] 2 by (simp only: head_info(2))
  next
    case 3
    then have "b = be_bytes 2 n" "n < 65536" using big by (simp_all add: arg_width_def)
    then show ?thesis using s m(2) [OF 3] 3 by (simp only: head_info(3))
  next
    case 4
    then have "b = be_bytes 4 n" "n < 4294967296" using big by (simp_all add: arg_width_def)
    then show ?thesis using s m(3) [OF 4] 4 by (simp only: head_info(4))
  next
    case 5
    then have "b = be_bytes 8 n" using big by (simp add: arg_width_def)
    then show ?thesis using s m(4) [OF 5] 5 by (simp only: head_info(5))
  qed
qed

lemma span_Cons: "o1 \<le> o2 \<Longrightarrow> o2 \<le> o3 \<Longrightarrow> x = span data o1 o2 \<Longrightarrow> y = span data o2 o3 \<Longrightarrow> x @ y = span data o1 o3"
  by (simp add: span_append)

lemma string_of_bytes_inverse [simp]: "string_bytes (string_of_bytes bs) = bs"
proof -
  have "of_char (char_of (unat b)) = b" for b :: byte
  proof -
    have "unat b < 256" using unsigned_less [of b] by simp
    then have "of_nat (of_char (char_of (unat b))) = b" by simp
    then show ?thesis by (simp only: of_nat_of_char)
  qed
  then show ?thesis by (simp add: string_bytes_def string_of_bytes_def map_idI)
qed

lemma at_reencode:
  "item_at data limit off depth v o2 \<Longrightarrow> ordered v \<Longrightarrow> enc v = span data off o2"
  "items_at data limit o1 depth a o2 \<Longrightarrow> list_all ordered a \<Longrightarrow> o1 \<le> length data
    \<Longrightarrow> concat (map enc a) = span data o1 o2"
  "entries_at data limit seen o1 depth m o2 \<Longrightarrow> list_all (\<lambda>e. ordered (snd e)) m \<Longrightarrow> o1 \<le> length data
    \<Longrightarrow> concat (map enc_entry m) = span data o1 o2"
proof (induction rule: item_at_items_at_entries_at.inducts)
  case (At_Pos off n o2 depth)
  then show ?case
    using arg_at_head [OF At_Pos(1)] by (simp add: i64_as_usize_nonneg)
next
  case (At_Neg off n o2 depth)
  then show ?case
    using arg_at_head [OF At_Neg(1)] by (simp add: i64_as_usize_nonneg)
next
  case (At_Bytes off n o1 b depth)
  have "length b = n" using At_Bytes by simp
  moreover have "head 2 n @ b = span data off (o1 + n)"
    using arg_at_head [OF At_Bytes(1)] arg_at_bounds [OF At_Bytes(1)] At_Bytes
    by (intro span_Cons [of off o1]) (simp_all add: span_def)
  ultimately show ?case by simp
next
  case (At_Text off n o1 w depth)
  have l: "string_bytes w = take n (drop o1 data)" using At_Text by simp
  then have "length w = n" using At_Text(3) string_bytes_length [of w] by simp
  moreover have "head 3 n @ string_bytes w = span data off (o1 + n)"
    using arg_at_head [OF At_Text(1)] arg_at_bounds [OF At_Text(1)] At_Text(2,3) l
    by (intro span_Cons [of off o1]) (simp_all add: span_def)
  ultimately show ?case by simp
next
  case (At_Array off a o1 depth o2)
  note b = arg_at_bounds [OF At_Array(1)] at_bounds(2) [OF At_Array(4)]
  have "head 4 (length a) @ concat (map enc a) = span data off o2"
    using b At_Array arg_at_head [OF At_Array(1)] by (intro span_Cons [of off o1]) simp_all
  then show ?case by simp
next
  case (At_Map off m o1 depth o2)
  note b = arg_at_bounds [OF At_Map(1)] at_bounds(3) [OF At_Map(4)]
  have "head 5 (length m) @ concat (map enc_entry m) = span data off o2"
    using b At_Map arg_at_head [OF At_Map(1)] by (intro span_Cons [of off o1]) simp_all
  then show ?case using At_Map(6) by (simp add: sort_key_id_if_sorted)
next
  case (At_Simple off v o2 depth)
  have "data ! off = of_nat (major_at data off * 32 + info_at data off)"
    by (simp add: major_at_def info_at_def)
  then show ?case using At_Simple span_Suc [of off data 0] by auto
next
  case (Items_Cons o1 depth v o2 vs o3)
  then show ?case
    using at_bounds(1) [OF Items_Cons(1)] at_bounds(2) [OF Items_Cons(3)]
    by (simp add: span_append)
next
  case (Entries_Cons o1 depth k o2 seen v o3 m o4)
  then show ?case
    using at_bounds(1) [of data limit o1 depth "CInt k" o2] at_bounds(1) [of data limit o2 depth v o3]
      at_bounds(3) [of data limit "insert k seen" o3 depth m o4]
    by (simp add: span_append)
qed simp_all

lemma try_decode_at: "try_decode data = Inr t \<Longrightarrow> item_at data 32 0 0 t (length data)"
  by (intro dec_at(1))
    (auto simp: try_decode_def try_decode_with_def default_max_depth_def max_depth_ceiling_def
      and_then_eq_Inr split: if_splits)

lemma try_decode_reencode:
  assumes "try_decode data = Inr t" "ordered t"
  shows "encode t = data"
  using at_reencode(1) [OF try_decode_at [OF assms(1)] assms(2)] by (simp add: encode_def span_def)

section \<open>Properties\<close>

text \<open>
  C13: the decoder returns only values of the Rust type. Integers are in the range of
  \<open>i64\<close>, texts are UTF-8, map keys are non-negative and distinct, and containers nest no
  deeper than the default limit.
\<close>

theorem decode_sound:
  assumes "try_decode data = Inr t"
  shows "rust_cbor t \<and> unique_keys t \<and> depth_ok 0 default_max_depth t"
  using at_sound(1) [OF try_decode_at [OF assms]] by (simp add: default_max_depth_def)

theorem decode_sound_witness: "rust_cbor (CArray [CInt 1]) \<and> unique_keys (CArray [CInt 1]) \<and> depth_ok 0 default_max_depth (CArray [CInt 1])"
  by (rule decode_sound [of "[0x81, 1]"]) code_simp

text \<open>
  C12: the encoding is canonical on trees without floats whose maps are in key order: the
  decoder accepts exactly one byte sequence for each of them, the one the encoder writes.
\<close>

theorem decode_reencode:
  assumes "try_decode data = Inr t" "ordered t"
  shows "encode t = data"
  using assms by (rule try_decode_reencode)

theorem decode_reencode_witness: "encode (CArray [CInt 1]) = [0x81, 1]"
  by (rule decode_reencode) code_simp+

text \<open>
  The order of the keys is needed: the decoder accepts a map whose keys are out of order, and
  re-encoding it gives other bytes.
\<close>

lemma decode_not_injective:
  "try_decode [0xa2, 2, 0, 1, 0] = Inr (CMap [(2, CInt 0), (1, CInt 0)])
   \<and> encode (CMap [(2, CInt 0), (1, CInt 0)]) \<noteq> [0xa2, 2, 0, 1, 0]"
  by code_simp

end
