(* ===== verification/Preflight.thy ===== *)
theory Preflight
  imports Codec Cbor_Grammar
begin

text \<open>
  The guarantee of the preflight scan, \<open>src/codec/preflight.rs\<close>: it runs on untrusted bytes
  before the allocating decoder, and whatever tree the decoder then builds has no more
  nodes, and no more charged memory, than the negotiated limits allow. The scan and the
  decoder are two readers of the same bytes; the proof runs them in step along the
  grammar.
\<close>

text \<open>The part of a state that the limits bound, and the room that is kept.\<close>

definition within :: "limits \<Rightarrow> scan \<Rightarrow> bool" where
  "within l s \<longleftrightarrow>
     scan_entries s \<le> i64_as_usize (lim_collection_entries l)
     \<and> scan_allocation s \<le> i64_as_usize (lim_decode_allocation l)"

section \<open>Steps of a successful scan\<close>

lemma scan_take_eq:
  "scan_take input n s = Inr (b, s') \<longleftrightarrow>
     scan_at s + n \<le> u64_max \<and> scan_at s + n \<le> length input \<and> b = take n (drop (scan_at s) input)
     \<and> s' = s\<lparr>scan_at := scan_at s + n\<rparr>"
  by (auto simp: scan_take_def and_then_eq_Inr split: if_splits)

lemma scan_charge_eq:
  "scan_charge l n s = Inr s' \<longleftrightarrow>
     scan_allocation s + n \<le> u64_max \<and> scan_allocation s + n \<le> i64_as_usize (lim_decode_allocation l)
     \<and> s' = s\<lparr>scan_allocation := scan_allocation s + n\<rparr>"
  by (auto simp: scan_charge_def and_then_eq_Inr split: if_splits)

lemma scan_head_width:
  assumes "scan_head input s = Inr ((major, n), s')"
  shows "scan_at s < length input" "major = unat (input ! scan_at s) div 32"
    "n = arg_value input (scan_at s + 1) (unat (input ! scan_at s) mod 32)"
    "s' = s\<lparr>scan_at := scan_at s + 1 + arg_width (unat (input ! scan_at s) mod 32)\<rparr>"
proof -
  let ?info = "unat (input ! scan_at s) mod 32" and ?s = "s\<lparr>scan_at := scan_at s + 1\<rparr>"
  have one: "scan_at s < length input" "scan_take input 1 s = Inr ([input ! scan_at s], ?s)"
    using assms by (auto simp: scan_head_def and_then_eq_Inr scan_take_eq take_Suc hd_drop_conv_nth)
  have eq: "scan_head input s = and_then
       (if ?info \<le> 23 then Inr (?info, ?s)
        else if ?info = 24 then and_then (scan_take input 1 ?s) (\<lambda>(b, s). Inr (be_value b, s))
        else if ?info = 25 then and_then (scan_take input 2 ?s) (\<lambda>(b, s). Inr (be_value b, s))
        else if ?info = 26 then and_then (scan_take input 4 ?s) (\<lambda>(b, s). Inr (be_value b, s))
        else if ?info = 27 then and_then (scan_take input 8 ?s) (\<lambda>(b, s). Inr (be_value b, s))
        else Inl Codec_Malformed)
       (\<lambda>(value, s2). Inr ((unat (input ! scan_at s) div 32, value), s2))"
    unfolding scan_head_def one(2) and_then_Inr prod.case Let_def list.sel ..
  show "scan_at s < length input" by (rule one)
  have "major = unat (input ! scan_at s) div 32 \<and> n = arg_value input (scan_at s + 1) ?info
    \<and> s' = s\<lparr>scan_at := scan_at s + 1 + arg_width ?info\<rparr>"
    by (rule info_cases [of ?info])
      (use assms in \<open>simp_all add: eq arg_value_def arg_width_def and_then_eq_Inr scan_take_eq\<close>)
  then show "major = unat (input ! scan_at s) div 32" "n = arg_value input (scan_at s + 1) ?info"
    "s' = s\<lparr>scan_at := scan_at s + 1 + arg_width ?info\<rparr>" by simp_all
qed


lemma scan_item_cases:
  assumes "scan_item l data d parent payload s = Inr s'"
  obtains
    (Leaf) s3 where "major_at data (scan_at s) \<in> {0, 1, 7}" "s' = s3"
      "scan_at s3 = scan_at s + 1 + arg_width (info_at data (scan_at s))"
      "scan_entries s3 = scan_entries s + 1" "scan_allocation s3 = scan_allocation s + node_charge" "within l s3"
  | (Str) "major_at data (scan_at s) \<in> {2, 3}"
      "scan_at s' = scan_at s + 1 + arg_width (info_at data (scan_at s))
         + arg_value data (scan_at s + 1) (info_at data (scan_at s))"
      "scan_entries s' = scan_entries s + 1"
      "scan_allocation s' = scan_allocation s + node_charge
         + arg_value data (scan_at s + 1) (info_at data (scan_at s)) * 4" "within l s'"
  | (Loop) s3 where "major_at data (scan_at s) \<in> {4, 5}"
      "scan_loop l data (major_at data (scan_at s))
         (arg_value data (scan_at s + 1) (info_at data (scan_at s))) d parent s3 = Inr s'"
      "scan_at s3 = scan_at s + 1 + arg_width (info_at data (scan_at s))"
      "scan_entries s3 = scan_entries s + 1" "scan_allocation s3 = scan_allocation s + node_charge" "within l s3"
proof -
  let ?s1 = "s\<lparr>scan_entries := scan_entries s + 1\<rparr>"
  let ?s2 = "?s1\<lparr>scan_allocation := scan_allocation s + node_charge\<rparr>"
  let ?n = "arg_value data (scan_at s + 1) (info_at data (scan_at s))"
  let ?major = "major_at data (scan_at s)"
  let ?s3 = "?s2\<lparr>scan_at := scan_at s + 1 + arg_width (info_at data (scan_at s))\<rparr>"
  define s4 where "s4 = (if d = 1 \<and> parent = 3 \<and> ?major = 0 \<and> ?n = 0 then ?s3\<lparr>scan_bootstrap := True\<rparr> else ?s3)"
  have d: "\<not> d > i64_as_usize (lim_nesting l)"
    and e: "\<not> scan_entries ?s1 > i64_as_usize (lim_collection_entries l)"
    using assms by (auto simp: scan_item.simps Let_def split: if_splits)
  obtain major n s3 where c: "scan_charge l node_charge ?s1 = Inr ?s2"
      and h: "scan_head data ?s2 = Inr ((major, n), s3)"
    using assms unfolding scan_item.simps Let_def if_not_P [OF d] if_not_P [OF e]
    by (auto simp: and_then_eq_Inr scan_charge_eq)
  have w: "major = ?major" "n = ?n" "s3 = ?s3"
    using scan_head_width [OF h] by (simp_all add: major_at_def info_at_def)
  have s4: "scan_at s4 = scan_at s + 1 + arg_width (info_at data (scan_at s))"
      "scan_entries s4 = scan_entries s + 1" "scan_allocation s4 = scan_allocation s + node_charge" "within l s4"
    using c e by (auto simp: s4_def within_def scan_charge_eq)
  note eq = assms [unfolded scan_item.simps Let_def if_not_P [OF d] if_not_P [OF e] c h and_then_Inr prod.case
      w, folded s4_def]
  consider "?major \<in> {0, 1, 7}" | "?major \<in> {2, 3}" | "?major \<in> {4, 5}" | "?major \<notin> {0, 1, 2, 3, 4, 5, 7}"
    by blast
  then show thesis
  proof cases
    case 1
    then have "s' = s4" using eq by auto
    with 1 show thesis by (intro Leaf [of s4]) (use s4 in simp_all)
  next
    case 2
    then have "s' = s4\<lparr>scan_allocation := scan_allocation s4 + ?n * 4, scan_at := scan_at s4 + ?n\<rparr>"
      and "scan_allocation s4 + ?n * 4 \<le> i64_as_usize (lim_decode_allocation l)"
      using eq by (auto simp: and_then_eq_Inr scan_charge_eq scan_take_eq checked_mul_u64_def split: if_splits)
    with 2 show thesis by (intro Str) (use s4 in \<open>simp_all add: within_def\<close>)
  next
    case 3
    then have "scan_loop l data ?major ?n d parent s4 = Inr s'" using eq by (auto split: if_splits)
    with 3 show thesis by (intro Loop [of s4]) (use s4 in simp_all)
  next
    case 4
    then show thesis using eq by simp
  qed
qed

inductive_cases item_at_CInt: "item_at data limit off depth (CInt k) o2"

lemma arg_at_parts:
  assumes "arg_at data off n o1"
  shows "n = arg_value data (off + 1) (info_at data off)" "o1 = off + 1 + arg_width (info_at data off)"
  using read_arg_width(2,3) [of data "off + 1" "info_at data off" n o1] assms by (simp_all add: arg_at_def)

section \<open>The scan follows the decoder\<close>

lemma scan_loop_array:
  "scan_loop l data 4 (Suc k) d parent s = Inr s' \<Longrightarrow>
     \<exists>s1. scan_item l data (d + 1) 0 False s = Inr s1 \<and> scan_loop l data 4 k d parent s1 = Inr s'"
  by (subst (asm) scan_loop.simps) (auto simp: and_then_eq_Inr)

lemma scan_loop_map:
  "scan_loop l data 5 (Suc k) d parent s = Inr s' \<Longrightarrow>
     \<exists>key s1 payload s2. scan_at s1 = scan_at s + 1 + arg_width (info_at data (scan_at s))
       \<and> scan_entries s1 = scan_entries s \<and> scan_allocation s1 = scan_allocation s + 32
       \<and> scan_item l data (d + 1) key payload s1 = Inr s2 \<and> scan_loop l data 5 k d parent s2 = Inr s'"
proof -
  assume "scan_loop l data 5 (Suc k) d parent s = Inr s'"
  then obtain key s1 s2 s3 where h: "scan_head data s = Inr ((0, key), s1)" "scan_charge l 32 s1 = Inr s2"
      "scan_item l data (d + 1) key (d = 1 \<and> parent = 16 \<and> key = 2) s2 = Inr s3"
      "scan_loop l data 5 k d parent s3 = Inr s'"
    by (subst (asm) scan_loop.simps) (auto simp: and_then_eq_Inr split: if_splits)
  then show ?thesis
    using scan_head_width(4) [OF h(1)] by (intro exI [of _ key] exI [of _ s2]) (auto simp: scan_charge_eq info_at_def)
qed

lemma at_scan:
  "item_at data limit off depth v o2 \<Longrightarrow> scan_item l data d parent payload s = Inr s' \<Longrightarrow> scan_at s = off \<Longrightarrow>
     scan_at s' = o2 \<and> scan_entries s' = scan_entries s + t_entries v
     \<and> scan_allocation s' = scan_allocation s + t_alloc v \<and> within l s'"
  "items_at data limit off depth a o2 \<Longrightarrow> scan_loop l data 4 (length a) d parent s = Inr s' \<Longrightarrow> scan_at s = off
     \<Longrightarrow> within l s \<Longrightarrow>
     scan_at s' = o2 \<and> scan_entries s' = scan_entries s + sum_list (map t_entries a)
     \<and> scan_allocation s' = scan_allocation s + sum_list (map t_alloc a) \<and> within l s'"
  "entries_at data limit seen off depth m o2 \<Longrightarrow> scan_loop l data 5 (length m) d parent s = Inr s'
     \<Longrightarrow> scan_at s = off \<Longrightarrow> within l s \<Longrightarrow>
     scan_at s' = o2 \<and> scan_entries s' = scan_entries s + sum_list (map (\<lambda>e. t_entries (snd e)) m)
     \<and> scan_allocation s' = scan_allocation s + sum_list (map (\<lambda>e. 32 + t_alloc (snd e)) m) \<and> within l s'"
proof (induction arbitrary: d parent payload s s' and d parent s s' and d parent s s' rule: item_at_items_at_entries_at.inducts)
  case (At_Pos off n o2 depth)
  from At_Pos(4) show ?case
    by (cases rule: scan_item_cases) (use At_Pos arg_at_parts [OF At_Pos(1)] in auto)
next
  case (At_Neg off n o2 depth)
  from At_Neg(4) show ?case
    by (cases rule: scan_item_cases) (use At_Neg arg_at_parts [OF At_Neg(1)] in auto)
next
  case (At_Bytes off n o1 b depth)
  from At_Bytes(5) show ?case
    by (cases rule: scan_item_cases) (use At_Bytes arg_at_parts [OF At_Bytes(1)] in auto)
next
  case (At_Text off n o1 w depth)
  have "length w = n" using At_Text(3,4) by (simp add: string_of_bytes_def)
  with At_Text(6) show ?case
    by (cases rule: scan_item_cases) (use At_Text arg_at_parts [OF At_Text(1)] in auto)
next
  case (At_Array off a o1 depth o2)
  from At_Array(6) show ?case
  proof (cases rule: scan_item_cases)
    case (Loop s3)
    then show ?thesis
      using At_Array(5) [of d parent s3 s'] At_Array(2,7) arg_at_parts [OF At_Array(1)] by simp
  qed (use At_Array(2,7) in simp_all)
next
  case (At_Map off m o1 depth o2)
  from At_Map(6) show ?case
  proof (cases rule: scan_item_cases)
    case (Loop s3)
    then show ?thesis
      using At_Map(5) [of d parent s3 s'] At_Map(2,7) arg_at_parts [OF At_Map(1)] by simp
  qed (use At_Map(2,7) in simp_all)
next
  case (At_Simple off v o2 depth)
  from At_Simple(5) show ?case
    by (cases rule: scan_item_cases) (use At_Simple in \<open>auto simp: arg_width_def\<close>)
next
  case (At_Float off o2 depth x)
  from At_Float(6) show ?case
    by (cases rule: scan_item_cases) (use At_Float in auto)
next
  case (Items_Nil o1 depth)
  then show ?case by (simp add: scan_loop.simps)
next
  case (Items_Cons o1 depth v o2 vs o3)
  then obtain s1 where "scan_item l data (d + 1) 0 False s = Inr s1"
      "scan_loop l data 4 (length vs) d parent s1 = Inr s'"
    using scan_loop_array [of l data "length vs" d parent s s'] by auto
  then show ?case using Items_Cons(2) [of "d + 1" 0 False s s1] Items_Cons(4) [of d parent s1 s'] Items_Cons(6) by simp
next
  case (Entries_Nil seen o1 depth)
  then show ?case by (simp add: scan_loop.simps)
next
  case (Entries_Cons o1 depth k o2 seen v o3 m o4)
  then obtain key s1 payload s2 where s:
      "scan_at s1 = scan_at s + 1 + arg_width (info_at data (scan_at s))"
      "scan_entries s1 = scan_entries s" "scan_allocation s1 = scan_allocation s + 32"
      "scan_item l data (d + 1) key payload s1 = Inr s2" "scan_loop l data 5 (length m) d parent s2 = Inr s'"
    using scan_loop_map [of l data "length m" d parent s s'] by auto
  have "o2 = o1 + 1 + arg_width (info_at data o1)"
    using Entries_Cons(1,7) by (auto elim!: item_at_CInt dest!: arg_at_parts(2))
  then show ?case
    using s Entries_Cons(4) [of "d + 1" key payload s1 s2] Entries_Cons(6) [of d parent s2 s'] Entries_Cons(10) by simp
qed


lemma preflight_bounds_tree:
  assumes "preflight_check data l = Inr ()" "try_decode data = Inr t"
  shows "t_entries t \<le> i64_as_usize (lim_collection_entries l)"
    "length data + t_alloc t \<le> i64_as_usize (lim_decode_allocation l)"
    "length data \<le> i64_as_usize (lim_encoded_frame l)"
proof -
  let ?s = "\<lparr>scan_at = 0, scan_entries = 0, scan_allocation = length data, scan_bootstrap = False\<rparr>"
  obtain s' where s: "scan_item l data 0 0 False ?s = Inr s'"
      and len: "length data \<le> i64_as_usize (lim_encoded_frame l)"
    using assms(1) by (auto simp: preflight_check_def and_then_eq_Inr split: if_splits)
  from at_scan(1) [OF try_decode_at [OF assms(2)] s] len
  show "t_entries t \<le> i64_as_usize (lim_collection_entries l)"
    "length data + t_alloc t \<le> i64_as_usize (lim_decode_allocation l)"
    "length data \<le> i64_as_usize (lim_encoded_frame l)"
    by (simp_all add: within_def)
qed

section \<open>Properties\<close>

text \<open>
  C2: the preflight scan bounds the decoder. A frame that passes it and decodes gives a tree
  with at most the negotiated number of nodes, whose charged memory together with the frame
  stays within the negotiated decode allocation.
\<close>

theorem preflight_bounds:
  assumes "preflight_check data l = Inr ()" "try_decode data = Inr t"
  shows "t_entries t \<le> i64_as_usize (lim_collection_entries l)
    \<and> length data + t_alloc t \<le> i64_as_usize (lim_decode_allocation l)
    \<and> length data \<le> i64_as_usize (lim_encoded_frame l)"
  using preflight_bounds_tree [OF assms] by simp

theorem preflight_bounds_witness:
  "t_entries (envelope_to_cbor sample_window) \<le> i64_as_usize (lim_collection_entries default_limits)
    \<and> length (encode (envelope_to_cbor sample_window)) + t_alloc (envelope_to_cbor sample_window)
      \<le> i64_as_usize (lim_decode_allocation default_limits)
    \<and> length (encode (envelope_to_cbor sample_window)) \<le> i64_as_usize (lim_encoded_frame default_limits)"
proof (rule preflight_bounds)
  show "preflight_check (encode (envelope_to_cbor sample_window)) default_limits = Inr ()"
    by (rule preflight_admissible [OF sample_rust sample_admissible]) simp
  show "try_decode (encode (envelope_to_cbor sample_window)) = Inr (envelope_to_cbor sample_window)"
    by (rule try_decode_encode [OF sample_rust])
      (simp_all add: sample_tree arith_defs head_def i64_as_usize_def string_bytes_def)
qed

end
