(* ===== verification/Control_Size.thy ===== *)
theory Control_Size
  imports Codec
begin

text \<open>
  How large a control message can be. Control messages are those that may use the control
  reserve of a queue; they are bounded by their validation, up to the texts an endpoint
  chooses freely (\<open>free_texts\<close>: the names of an opened connection and the fingerprint of
  a key). Each kind of body gets a bound on its nesting, entries, encoded bytes and
  allocation, and \<open>control_within\<close> bounds the whole message.
\<close>

text \<open>
  The messages a host may queue in its control reserve (\<open>enqueue\<close> of
  \<open>src/mux/mod.rs\<close>).
\<close>

definition control_kind :: "message_kind \<Rightarrow> bool" where
  "control_kind kind \<longleftrightarrow> kind \<notin> {Kind_Data, Kind_Open, Kind_CheckIdentity}"

text \<open>The texts of a control message that have no length limit of their own.\<close>

definition free_texts :: "envelope \<Rightarrow> string list" where
  "free_texts m =
     (case env_opened m of
       None \<Rightarrow> []
     | Some o' \<Rightarrow> [opened_connection_id o', opened_endpoint_id o', opened_trust_owner o'])
     @ List.map_filter (\<lambda>facts. Option.bind facts facts_key_fingerprint)
         [map_option opened_facts (env_opened m), map_option closed_facts (env_closed m),
          Option.bind (env_open_failed m) fail_facts, Option.bind (env_failed m) fail_facts]"

text \<open>
  A tree of bounded size: its nesting \<open>h\<close>, entries \<open>n\<close>, encoded bytes \<open>e\<close> and
  allocation \<open>a\<close>, with texts of at most 256 bytes.
\<close>

definition within :: "nat \<Rightarrow> nat \<Rightarrow> nat \<Rightarrow> nat \<Rightarrow> cbor \<Rightarrow> bool" where
  "within h n e a t \<longleftrightarrow> t_entries t \<le> n \<and> t_encoded t \<le> e \<and> t_alloc t \<le> a
     \<and> (\<forall>l d. d + h \<le> i64_as_usize (lim_nesting l) \<and> 256 \<le> i64_as_usize (lim_metadata_bytes l) \<longrightarrow> local_ok l d t)"

lemma within_mono: "within h n e a t \<Longrightarrow> h \<le> h' \<Longrightarrow> n \<le> n' \<Longrightarrow> e \<le> e' \<Longrightarrow> a \<le> a' \<Longrightarrow> within h' n' e' a' t"
  unfolding within_def by (meson add_left_mono order_trans)

lemma within_leaf:
  assumes "0 < n" "9 \<le> e" "160 \<le> a"
  shows "within h n e a (CInt x)" "within h n e a (CBool b)" "within h n e a CNull"
  using assms order_trans [OF budget_head_le assms(2)] by (simp_all add: within_def node_charge_def)

lemma within_text: "length s \<le> 256 \<Longrightarrow> 0 < n \<Longrightarrow> 265 \<le> e \<Longrightarrow> 1184 \<le> a \<Longrightarrow> within h n e a (CText s)"
  using budget_head_le [of "length s"] by (simp add: within_def node_charge_def max_metadata_def)

lemma within_opt:
  "0 < n \<Longrightarrow> 9 \<le> e \<Longrightarrow> 160 \<le> a \<Longrightarrow> (\<And>v. x = Some v \<Longrightarrow> within h n e a (f v)) \<Longrightarrow> within h n e a (opt_cbor f x)"
  by (cases x) (auto intro: within_leaf(3))

text \<open>A map of such trees, with the bounds of its entries.\<close>

definition entry_within :: "nat \<Rightarrow> i64 \<times> cbor \<Rightarrow> nat \<times> nat \<times> nat \<Rightarrow> bool" where
  "entry_within h x b \<longleftrightarrow> 0 \<le> fst x \<and> fst x < 256 \<and> within h (fst b) (fst (snd b)) (snd (snd b)) (snd x)"

lemma small_key: "0 \<le> k \<Longrightarrow> k < 256 \<Longrightarrow> budget_head (i64_as_usize k) \<le> 2"
  by (simp add: budget_head_def i64_as_usize_nonneg i64_max_def nat_less_iff)

lemma entries_within:
  assumes "list_all2 (entry_within h) es bs"
  shows "sum_list (map (\<lambda>x. t_entries (snd x)) es) \<le> sum_list (map fst bs)"
    "sum_list (map (\<lambda>x. budget_head (i64_as_usize (fst x)) + t_encoded (snd x)) es) \<le> sum_list (map (\<lambda>b. 2 + fst (snd b)) bs)"
    "sum_list (map (\<lambda>x. 32 + t_alloc (snd x)) es) \<le> sum_list (map (\<lambda>b. 32 + snd (snd b)) bs)"
    "d + h \<le> i64_as_usize (lim_nesting l) \<Longrightarrow> 256 \<le> i64_as_usize (lim_metadata_bytes l) \<Longrightarrow> list_all (\<lambda>x. local_ok l d (snd x)) es"
  using assms
  by (induction rule: list_all2_induct) (auto simp: entry_within_def within_def dest: small_key)

lemma within_map:
  assumes "list_all2 (entry_within h) es bs" "sum_list (map fst bs) < n" "9 + sum_list (map (\<lambda>b. 2 + fst (snd b)) bs) \<le> e"
    "160 + sum_list (map (\<lambda>b. 32 + snd (snd b)) bs) \<le> a"
  shows "within (Suc h) n e a (CMap es)"
  using entries_within [OF assms(1)] assms(2-4) budget_head_le [of "length es"]
  by (fastforce simp: within_def node_charge_def)

lemmas within_entry = entry_within_def within_leaf within_text within_opt

section \<open>The bodies of control messages\<close>

abbreviation number_bound :: "nat \<times> nat \<times> nat" where
  "number_bound \<equiv> (1, 9, 160)"

abbreviation text_bound :: "nat \<times> nat \<times> nat" where
  "text_bound \<equiv> (1, 265, 1184)"

lemma pair_within: "within (Suc h) 3 31 544 (CMap [(1, CInt a), (2, CInt b)])"
  by (rule within_map [of h _ "[number_bound, number_bound]"]) (simp_all add: within_entry)

lemma single_within: "within (Suc h) 3 31 544 (CMap [(1, CInt a)])"
  by (rule within_map [of h _ "[number_bound]"]) (simp_all add: within_entry)

lemma numbers_within:
  "within (Suc h) 3 31 544 (window_msg_to_cbor w)" "within (Suc h) 3 31 544 (barrier_to_cbor f)"
  "within (Suc h) 3 31 544 (end_write_msg_to_cbor x)" "within (Suc h) 3 31 544 (close_msg_to_cbor c)"
  "within (Suc h) 3 31 544 (cancel_msg_to_cbor y)" "within (Suc h) 3 31 544 (retry_attempt_to_cbor r)"
  by (simp_all add: window_msg_to_cbor_def barrier_to_cbor_def end_write_msg_to_cbor_def close_msg_to_cbor_def
      cancel_msg_to_cbor_def retry_attempt_to_cbor_def pair_within single_within)

lemma native_facts_within: "within (Suc h) 6 64 1120 (native_facts_to_cbor x)"
  unfolding native_facts_to_cbor_def
  by (rule within_map [of h _ "replicate 5 number_bound"]) (simp_all add: within_entry eval_nat_numeral)

lemma facts_within:
  assumes "\<And>s. facts_key_fingerprint x = Some s \<Longrightarrow> length s \<le> 256"
  shows "within (Suc (Suc h)) 13 408 3500 (facts_to_cbor x)"
  unfolding facts_to_cbor_def
  by (rule within_map [of "Suc h" _ "[number_bound, number_bound, number_bound, text_bound, number_bound, number_bound, (6, 64, 1120)]"])
    (simp_all add: within_entry assms native_facts_within)

lemma limits_within: "within (Suc h) 12 130 2272 (limits_to_cbor x)"
  unfolding limits_to_cbor_def
  by (rule within_map [of h _ "replicate 11 number_bound"]) (simp_all add: within_entry eval_nat_numeral)

lemma opened_within:
  assumes "\<And>s. facts_key_fingerprint (opened_facts x) = Some s \<Longrightarrow> length s \<le> 256"
    "length (opened_connection_id x) \<le> 256" "length (opened_endpoint_id x) \<le> 256" "length (opened_trust_owner x) \<le> 256"
  shows "within (Suc (Suc (Suc h))) 50 2000 20000 (opened_msg_to_cbor x)"
  unfolding opened_msg_to_cbor_def
  by (rule within_map [of "Suc (Suc h)" _ "[text_bound, number_bound, text_bound, text_bound, (13, 408, 3500), (12, 130, 2272)]"])
    (simp_all add: within_entry assms facts_within limits_within)

lemma capacity_within:
  assumes "\<And>s. cap_host x = Some s \<Longrightarrow> length s \<le> 256"
  shows "within (Suc h) 10 400 3500 (capacity_detail_to_cbor x)"
  unfolding capacity_detail_to_cbor_def
  by (rule within_map [of h _ "[number_bound, number_bound, text_bound, number_bound, number_bound, number_bound,
      number_bound, number_bound, number_bound]"]) (simp_all add: within_entry assms)

lemma array_within:
  assumes "length ss \<le> 4" "\<And>s. s \<in> set ss \<Longrightarrow> length s \<le> 256"
  shows "within (Suc h) 5 1100 5000 (CArray (map CText ss))"
proof -
  have t: "within h 1 265 1184 (CText s)" if "s \<in> set ss" for s using assms(2) that by (simp add: within_text)
  have "sum_list (map (\<lambda>s. t_entries (CText s)) ss) \<le> 1 * length ss"
    "sum_list (map (\<lambda>s. t_encoded (CText s)) ss) \<le> 265 * length ss"
    "sum_list (map (\<lambda>s. t_alloc (CText s)) ss) \<le> 1184 * length ss"
    using t unfolding within_def by (intro sum_list_le_times; blast)+
  then show ?thesis
    using assms(1) t budget_head_le [of "length ss"]
    by (auto simp: within_def node_charge_def comp_def list_all_iff simp del: t_encoded.simps(4) t_alloc.simps(4) local_ok.simps(4))
qed

lemma detail_within:
  assumes "\<And>s. fd_pipe_kind x = Some s \<Longrightarrow> length s \<le> 256"
    "\<And>ss. fd_schemes x = Some ss \<Longrightarrow> length ss \<le> 4 \<and> (\<forall>s\<in>set ss. length s \<le> 256)"
    "\<And>c s. fd_capacity x = Some c \<Longrightarrow> cap_host c = Some s \<Longrightarrow> length s \<le> 256"
  shows "within (Suc (Suc h)) 30 2000 12000 (failure_detail_to_cbor x)"
  unfolding failure_detail_to_cbor_def
  by (rule within_map [of "Suc h" _ "[number_bound, text_bound, (5, 1100, 5000), (3, 31, 544), number_bound, (10, 400, 3500)]"])
    (simp_all add: within_entry assms numbers_within array_within capacity_within)

lemma failure_within:
  assumes "\<And>d. fail_detail x = Some d \<Longrightarrow> within (Suc (Suc h)) 30 2000 12000 (failure_detail_to_cbor d)"
    "\<And>f s. fail_facts x = Some f \<Longrightarrow> facts_key_fingerprint f = Some s \<Longrightarrow> length s \<le> 256"
  shows "within (Suc (Suc (Suc h))) 50 2500 18000 (failure_to_cbor x)"
  unfolding failure_to_cbor_def
  by (rule within_map [of "Suc (Suc h)" _ "[number_bound, number_bound, (13, 408, 3500), number_bound, (30, 2000, 12000)]"])
    (simp_all add: within_entry assms facts_within)

lemma closed_within:
  assumes "\<And>f. closed_failure x = Some f \<Longrightarrow> within (Suc (Suc (Suc h))) 50 2500 18000 (failure_to_cbor f)"
    "\<And>s. facts_key_fingerprint (closed_facts x) = Some s \<Longrightarrow> length s \<le> 256"
  shows "within (Suc (Suc (Suc (Suc h)))) 70 3000 23000 (closed_msg_to_cbor x)"
  unfolding closed_msg_to_cbor_def
  by (rule within_map [of "Suc (Suc (Suc h))" _ "[number_bound, number_bound, (13, 408, 3500), (50, 2500, 18000)]"])
    (simp_all add: within_entry assms facts_within)

section \<open>Texts that validation bounds\<close>

lemma pipe_kind_short: "pipe_kind s \<Longrightarrow> length s \<le> 256"
  by (auto simp: pipe_kind_def pipe_kinds_def)

lemma capacity_host_short: "capacity_host s \<Longrightarrow> length s \<le> 256"
  by (simp add: capacity_host_def split: if_splits)

lemma valid_capacity_host:
  assumes "validate_capacity f d c = Inr ()" "cap_host c = Some s"
  shows "length s \<le> 256"
  using assms capacity_host_short [of s]
  by (auto simp: validate_capacity_def Let_def and_then_eq_Inr split: if_splits option.splits)

lemma valid_detail:
  assumes "validate_failure_detail f = Inr ()" "fail_detail f = Some d"
  shows "\<And>s. fd_pipe_kind d = Some s \<Longrightarrow> length s \<le> 256"
    "\<And>ss. fd_schemes d = Some ss \<Longrightarrow> length ss \<le> 4 \<and> (\<forall>s\<in>set ss. length s \<le> 256)"
    "\<And>c s. fd_capacity d = Some c \<Longrightarrow> cap_host c = Some s \<Longrightarrow> length s \<le> 256"
proof -
  note v = assms(1) [unfolded validate_failure_detail_def assms(2) option.case and_then_eq_Inr]
  show "length s \<le> 256" if "fd_pipe_kind d = Some s" for s
    using v that pipe_kind_short [of s]
    by (cases "fd_helper_cause d") (auto split: helper_failure_cause.splits if_splits)
  show "length ss \<le> 4 \<and> (\<forall>s\<in>set ss. length s \<le> 256)" if "fd_schemes d = Some ss" for ss
    using v that by (auto simp: list_ex_iff scheme_token_def)
  show "length s \<le> 256" if "fd_capacity d = Some c" "cap_host c = Some s" for c s
    using v that valid_capacity_host [of f d c s] by auto
qed

lemma valid_failure_within:
  assumes "validate_failure_detail x = Inr ()"
    "\<And>f s. fail_facts x = Some f \<Longrightarrow> facts_key_fingerprint f = Some s \<Longrightarrow> length s \<le> 256"
  shows "within (Suc (Suc (Suc h))) 50 2500 18000 (failure_to_cbor x)"
  using detail_within valid_detail [OF assms(1)] assms(2) by (intro failure_within) blast+

section \<open>Control messages under usable limits\<close>

lemma free_texts_bound:
  assumes "\<forall>s\<in>set (free_texts m). length s \<le> 256"
  shows "\<And>x s. env_opened m = Some x \<Longrightarrow> facts_key_fingerprint (opened_facts x) = Some s \<Longrightarrow> length s \<le> 256"
    "\<And>x s. env_closed m = Some x \<Longrightarrow> facts_key_fingerprint (closed_facts x) = Some s \<Longrightarrow> length s \<le> 256"
    "\<And>x f s. env_open_failed m = Some x \<Longrightarrow> fail_facts x = Some f \<Longrightarrow> facts_key_fingerprint f = Some s \<Longrightarrow> length s \<le> 256"
    "\<And>x f s. env_failed m = Some x \<Longrightarrow> fail_facts x = Some f \<Longrightarrow> facts_key_fingerprint f = Some s \<Longrightarrow> length s \<le> 256"
    "\<And>x. env_opened m = Some x \<Longrightarrow> length (opened_connection_id x) \<le> 256
       \<and> length (opened_endpoint_id x) \<le> 256 \<and> length (opened_trust_owner x) \<le> 256"
  using assms by (auto simp: free_texts_def map_filter_def split: option.splits)

lemma valid_failures:
  assumes "validate_envelope m = Inr ()"
  shows "\<And>x. env_open_failed m = Some x \<Longrightarrow> validate_failure_detail x = Inr ()"
    "\<And>x. env_failed m = Some x \<Longrightarrow> validate_failure_detail x = Inr ()"
    "\<And>x. env_identity_check_failed m = Some x \<Longrightarrow> validate_failure_detail x = Inr () \<and> fail_facts x = None"
    "\<And>x f. env_closed m = Some x \<Longrightarrow> closed_failure x = Some f \<Longrightarrow> validate_failure_detail f = Inr () \<and> fail_facts f = None"
  using assms by (auto simp: validate_envelope_def validate_failures_def and_then_eq_Inr for_each_ok is_some_eq)

lemma control_bodies:
  assumes "validate_envelope m = Inr ()" "\<forall>s\<in>set (free_texts m). length s \<le> 256"
  shows "\<And>x. env_opened m = Some x \<Longrightarrow> within 4 70 3000 23000 (opened_msg_to_cbor x)"
    "\<And>x. env_open_failed m = Some x \<Longrightarrow> within 4 70 3000 23000 (failure_to_cbor x)"
    "\<And>x. env_failed m = Some x \<Longrightarrow> within 4 70 3000 23000 (failure_to_cbor x)"
    "\<And>x. env_identity_check_failed m = Some x \<Longrightarrow> within 4 70 3000 23000 (failure_to_cbor x)"
    "\<And>x. env_closed m = Some x \<Longrightarrow> within 4 70 3000 23000 (closed_msg_to_cbor x)"
    "\<And>x. within 4 70 3000 23000 (identity_checked_msg_to_cbor x)"
proof -
  note b = free_texts_bound [OF assms(2)] and v = valid_failures [OF assms(1)]
  have f: "within 4 70 3000 23000 t" if "within (Suc (Suc (Suc 0))) 50 2500 18000 t" for t
    by (rule within_mono [OF that]) simp_all
  show "within 4 70 3000 23000 (opened_msg_to_cbor x)" if "env_opened m = Some x" for x
    by (rule within_mono [OF opened_within [of x 0]]) (use b that in auto)
  show "within 4 70 3000 23000 (failure_to_cbor x)" if "env_open_failed m = Some x" for x
    by (rule f, rule valid_failure_within) (use v b that in auto)
  show "within 4 70 3000 23000 (failure_to_cbor x)" if "env_failed m = Some x" for x
    by (rule f, rule valid_failure_within) (use v b that in auto)
  show "within 4 70 3000 23000 (failure_to_cbor x)" if "env_identity_check_failed m = Some x" for x
    by (rule f, rule valid_failure_within) (use v that in auto)
  show "within 4 70 3000 23000 (closed_msg_to_cbor x)" if "env_closed m = Some x" for x
    by (rule within_mono [OF closed_within [of x 0]], rule valid_failure_within) (use v b that in auto)
  show "within 4 70 3000 23000 (identity_checked_msg_to_cbor x)" for x
    unfolding identity_checked_msg_to_cbor_def
    by (rule within_mono [OF within_map [of 0 _ "[]" 70 3000 23000]]) simp_all
qed

lemma numbers_within_wide:
  "within 4 70 3000 23000 (window_msg_to_cbor w)" "within 4 70 3000 23000 (barrier_to_cbor f)"
  "within 4 70 3000 23000 (end_write_msg_to_cbor x)" "within 4 70 3000 23000 (close_msg_to_cbor c)"
  "within 4 70 3000 23000 (cancel_msg_to_cbor y)"
  by (rule within_mono [OF numbers_within(1) [of 0]] within_mono [OF numbers_within(2) [of 0]]
      within_mono [OF numbers_within(3) [of 0]] within_mono [OF numbers_within(4) [of 0]]
      within_mono [OF numbers_within(5) [of 0]]; simp)+

text \<open>The room of a body: enough for the body of the message's kind, a null for the others.\<close>

definition slot :: "message_kind \<Rightarrow> message_kind \<Rightarrow> nat \<times> nat \<times> nat" where
  "slot kind k = (if k = kind then (70, 3000, 23000) else (1, 9, 160))"

lemma slot_within:
  assumes "kind \<noteq> k \<Longrightarrow> x = None" "\<And>v. x = Some v \<Longrightarrow> within h 70 3000 23000 (f v)"
  shows "entry_within h (j, opt_cbor f x) (slot kind k) \<longleftrightarrow> 0 \<le> j \<and> j < 256"
  using assms by (cases x) (auto simp: entry_within_def slot_def within_leaf)

lemma slot_absent: "kind \<noteq> k \<Longrightarrow> entry_within h (j, CNull) (slot kind k) \<longleftrightarrow> 0 \<le> j \<and> j < 256"
  by (auto simp: entry_within_def slot_def within_leaf)

lemma control_within:
  assumes "validate_envelope m = Inr ()" "control_kind (env_kind m)" "env_stream_id m \<noteq> 0"
    and "\<forall>s\<in>set (free_texts m). length s \<le> 256"
  shows "within 5 128 4096 40000 (envelope_to_cbor m)"
proof -
  have h: "validate_header m = Inr ()" using assms(1) by (auto simp: validate_envelope_def and_then_eq_Inr)
  have k: "env_kind m \<notin> {Kind_Data, Kind_Open, Kind_CheckIdentity, Kind_Bind, Kind_Bound, Kind_BindRejected}"
    and s: "length (env_session_id m) \<le> 256"
    using h assms(2,3) by (auto simp: control_kind_def validate_header_def and_then_eq_Inr Let_def)
  note a = absent_bodies [OF h] and b = control_bodies [OF assms(1,4)]
  let ?slots = "map (slot (env_kind m)) [Kind_Bind, Kind_Bound, Kind_BindRejected, Kind_Open, Kind_Opened, Kind_OpenFailed,
    Kind_Data, Kind_Window, Kind_Flush, Kind_Flushed, Kind_EndWrite, Kind_Close, Kind_Closed, Kind_Cancel, Kind_Failed,
    Kind_CheckIdentity, Kind_IdentityChecked, Kind_IdentityCheckFailed]"
  have none: "env_bind m = None" "env_bound m = None" "env_bind_rejected m = None" "env_open m = None"
      "env_data m = None" "env_check_identity m = None"
    using a k by auto
  have "within (Suc 4) 128 4096 40000 (envelope_to_cbor m)"
    unfolding envelope_to_cbor_def
  proof (rule within_map [of 4 _ "[number_bound, text_bound, number_bound, number_bound, number_bound] @ ?slots"], goal_cases)
    case 1
    show ?case
      using a k s b numbers_within_wide
      by (simp add: none slot_within slot_absent) (simp add: within_entry)
  qed (use k in \<open>cases "env_kind m"; simp add: slot_def\<close>)+
  then show ?thesis by simp
qed

end
