(* ===== verification/Binding.thy ===== *)
theory Binding
  imports Control_Size
begin

text \<open>
  Endpoint capability binding, \<open>src/binding.rs\<close>: the offer of a host, the endpoint's
  acceptance, the host's verification of the acknowledgement, and the checks of a request
  against the binding. No step has an effect; each is a function of its messages.

  The \<open>profile\<close> module is compiled in one of two forms, by the feature
  \<open>unstable-sequenced\<close>. A \<open>profile\<close> record stands for the module that is compiled, and
  \<open>profile_stable\<close> and \<open>profile_sequenced\<close> are its two forms. The second calls
  \<open>valid_limits\<close> of \<open>src/sequenced.rs\<close>, whose two size constants depend on the
  compiler's layout of private structs and are parameters.
\<close>

section \<open>Offers and limits\<close>

definition offer :: "string \<Rightarrow> endpoint_role \<Rightarrow> envelope" where
  "offer session_id role = default_envelope
     \<lparr>env_version := 1, env_session_id := session_id, env_stream_id := 0, env_kind := Kind_Bind,
      env_bind := Some
        \<lparr>bind_versions = [1], bind_role = role, bind_schemes = [Scheme_Ssh, Scheme_Https],
         bind_policies = [Policy_SshAmbient, Policy_SshExplicit, Policy_Anonymous, Policy_Gh],
         bind_receive_limits = default_limits\<rparr>\<rparr>"

definition binding_failure :: "error_code \<Rightarrow> failure" where
  "binding_failure code =
     \<lparr>fail_code = code, fail_effect = Effect_None, fail_facts = None, fail_setup_cause = None,
      fail_detail = None\<rparr>"

text \<open>
  The sums and differences of \<open>usable\<close> are exact here. Its callers have validated the
  limits, so they are far below the range of \<open>i64\<close>.
\<close>

definition usable :: "limits \<Rightarrow> failure + unit" where
  "usable l =
     refuse_if
       (lim_encoded_frame l < 4096
        \<or> lim_metadata_bytes l < 256
        \<or> lim_nesting l < 10
        \<or> lim_collection_entries l < 128
        \<or> lim_decode_allocation l < 65536
        \<or> lim_control_reserve_bytes l < 4096
        \<or> lim_control_reserve_frames l < 2
        \<or> lim_queued_bytes l - lim_control_reserve_bytes l < lim_encoded_frame l + lim_decode_allocation l
        \<or> lim_queued_frames l - lim_control_reserve_frames l < 2
        \<or> lim_receive_window l > lim_queued_bytes l - lim_control_reserve_bytes l)
       (binding_failure Code_UnsupportedOperation)"

definition no_greater :: "limits \<Rightarrow> limits \<Rightarrow> bool" where
  "no_greater a b \<longleftrightarrow>
     list_all (\<lambda>(left, right). left \<le> right)
       [(lim_encoded_frame a, lim_encoded_frame b),
        (lim_data_payload a, lim_data_payload b),
        (lim_metadata_bytes a, lim_metadata_bytes b),
        (lim_nesting a, lim_nesting b),
        (lim_collection_entries a, lim_collection_entries b),
        (lim_decode_allocation a, lim_decode_allocation b),
        (lim_queued_bytes a, lim_queued_bytes b),
        (lim_queued_frames a, lim_queued_frames b),
        (lim_receive_window a, lim_receive_window b),
        (lim_control_reserve_bytes a, lim_control_reserve_bytes b),
        (lim_control_reserve_frames a, lim_control_reserve_frames b)]"

definition minimum :: "limits \<Rightarrow> limits \<Rightarrow> limits" where
  "minimum a b =
     \<lparr>lim_encoded_frame = min (lim_encoded_frame a) (lim_encoded_frame b),
      lim_data_payload = min (lim_data_payload a) (lim_data_payload b),
      lim_metadata_bytes = min (lim_metadata_bytes a) (lim_metadata_bytes b),
      lim_nesting = min (lim_nesting a) (lim_nesting b),
      lim_collection_entries = min (lim_collection_entries a) (lim_collection_entries b),
      lim_decode_allocation = min (lim_decode_allocation a) (lim_decode_allocation b),
      lim_queued_bytes = min (lim_queued_bytes a) (lim_queued_bytes b),
      lim_queued_frames = min (lim_queued_frames a) (lim_queued_frames b),
      lim_receive_window = min (lim_receive_window a) (lim_receive_window b),
      lim_control_reserve_bytes = min (lim_control_reserve_bytes a) (lim_control_reserve_bytes b),
      lim_control_reserve_frames = min (lim_control_reserve_frames a) (lim_control_reserve_frames b)\<rparr>"

section \<open>The compiled profile\<close>

record profile =
  prof_bindable :: "i64 list"
  prof_admit :: "i64 \<Rightarrow> limits \<Rightarrow> failure + unit"

definition profile_stable :: profile where
  "profile_stable = \<lparr>prof_bindable = [1, 2], prof_admit = (\<lambda>_ _. Inr ())\<rparr>"

text \<open>\<open>sequenced::Error\<close>\<close>

datatype seq_error =
    Seq_InvalidMessage
  | Seq_WrongSession
  | Seq_Capacity
  | Seq_WouldBlock
  | Seq_Protocol
  | Seq_GapTimeout
  | Seq_ApplyRejected
  | Seq_Closed

definition valid_limits :: "usize \<Rightarrow> usize \<Rightarrow> limits \<Rightarrow> seq_error + unit" where
  "valid_limits record_charge frame_overhead l =
     and_then (map_err (\<lambda>_. Seq_Capacity) (admit_limited (offer ''probe'' Role_Local) l)) (\<lambda>_.
     and_then (ok_or Seq_Capacity
       (Option.bind (checked_add_i64 (lim_encoded_frame l) (lim_decode_allocation l)) (\<lambda>sum.
        checked_add_i64 sum (int frame_overhead)))) (\<lambda>worst.
     and_then (ok_or Seq_Capacity
       (Option.bind (checked_mul_i64 worst 2) (\<lambda>sum.
        Option.bind (checked_add_i64 sum (lim_control_reserve_bytes l)) (\<lambda>sum.
        checked_add_i64 sum (int record_charge))))) (\<lambda>required.
     refuse_if
       (lim_queued_bytes l < required \<or> lim_queued_frames l < lim_control_reserve_frames l + 2)
       Seq_Capacity)))"

definition profile_sequenced :: "usize \<Rightarrow> usize \<Rightarrow> profile" where
  "profile_sequenced record_charge frame_overhead =
     \<lparr>prof_bindable = [1, 2, 3],
      prof_admit = (\<lambda>version l.
        if version = 3 then
          map_err (\<lambda>_. binding_failure Code_UnsupportedOperation)
            (valid_limits record_charge frame_overhead l)
        else Inr ())\<rparr>"

section \<open>Bindings\<close>

record endpoint_config =
  ec_endpoint_id :: string
  ec_role :: endpoint_role
  ec_schemes :: "scheme list"
  ec_policies :: "auth_policy list"
  ec_limits :: limits
  ec_trust_owner :: string

record binding =
  binding_session_id :: string
  binding_bound :: bound_msg

definition check_open :: "binding \<Rightarrow> envelope \<Rightarrow> failure + unit" where
  "check_open self message =
     (let bound = binding_bound self in
      and_then (map_err (\<lambda>_. binding_failure Code_InvalidRequest)
        (admit_limited message (bound_receive_limits bound))) (\<lambda>_.
      and_then (ok_or (binding_failure Code_InvalidRequest) (env_open message)) (\<lambda>opn.
      and_then (refuse_if (env_version message \<noteq> bound_version bound)
        (binding_failure Code_UnsupportedVersion)) (\<lambda>_.
      and_then (refuse_if
        (env_kind message \<noteq> Kind_Open
         \<or> env_session_id message \<noteq> binding_session_id self
         \<or> open_endpoint_id opn \<noteq> bound_endpoint_id bound)
        (binding_failure Code_Unavailable)) (\<lambda>_.
      and_then (refuse_if
        (dest_scheme (open_destination opn) \<notin> set (bound_schemes bound)
         \<or> open_policy opn \<notin> set (bound_policies bound)
         \<or> \<not> no_greater (open_receive_limits opn) (bound_receive_limits bound))
        (binding_failure Code_UnsupportedOperation)) (\<lambda>_.
      usable (open_receive_limits opn)))))))"

definition binding_check_identity :: "binding \<Rightarrow> envelope \<Rightarrow> failure + unit" where
  "binding_check_identity self message =
     (let bound = binding_bound self in
      and_then (map_err (\<lambda>_. binding_failure Code_InvalidRequest)
        (admit_limited message (bound_receive_limits bound))) (\<lambda>_.
      and_then (ok_or (binding_failure Code_InvalidRequest) (env_check_identity message)) (\<lambda>check.
      and_then (refuse_if
        (bound_version bound \<notin> {2, 3} \<or> env_version message \<noteq> bound_version bound)
        (binding_failure Code_UnsupportedVersion)) (\<lambda>_.
      and_then (refuse_if
        (env_kind message \<noteq> Kind_CheckIdentity
         \<or> env_session_id message \<noteq> binding_session_id self
         \<or> check_endpoint_id check \<noteq> bound_endpoint_id bound
         \<or> check_operation_id check = []
         \<or> check_timeout_ms check \<le> 0
         \<or> check_timeout_ms check > i32_max
         \<or> ident_mode (check_identity check) \<noteq> Identity_ExplicitKey)
        (binding_failure Code_InvalidRequest)) (\<lambda>_.
      refuse_if (is_none_or (\<lambda>p. p = []) (ident_key_path (check_identity check)))
        (binding_failure Code_InvalidRequest))))))"

text \<open>\<open>iter().max()\<close>\<close>

definition max_of :: "i64 list \<Rightarrow> i64 option" where
  "max_of xs = (if xs = [] then None else Some (Max (set xs)))"

text \<open>The schemes and policies both sides have, closed under the compatibility relation.\<close>

definition accept_capabilities ::
    "endpoint_config \<Rightarrow> bind_msg \<Rightarrow> i64 \<Rightarrow> scheme list \<times> auth_policy list" where
  "accept_capabilities self bind version =
     (let schemes0 = filter (\<lambda>s. s \<in> set (bind_schemes bind)) (ec_schemes self);
          policies0 = filter (\<lambda>p. p \<in> set (bind_policies bind)) (ec_policies self);
          policies1 = (if version = 1 then filter (\<lambda>p. \<not> native p) policies0 else policies0);
          schemes = filter (\<lambda>s. list_ex (\<lambda>p. supports s p) policies1) schemes0;
          policies = filter (\<lambda>p. list_ex (\<lambda>s. supports s p) schemes) policies1
      in (schemes, policies))"

definition bound_reply :: "string \<Rightarrow> bound_msg \<Rightarrow> envelope" where
  "bound_reply session_id bound = default_envelope
     \<lparr>env_version := 1, env_session_id := session_id, env_stream_id := 0,
      env_kind := Kind_Bound, env_bound := Some bound\<rparr>"

definition accept :: "profile \<Rightarrow> endpoint_config \<Rightarrow> envelope \<Rightarrow> failure + (envelope \<times> binding)" where
  "accept prof self message =
     and_then (refuse_if (\<not> capabilities (ec_schemes self) (ec_policies self))
       (binding_failure Code_UnsupportedOperation)) (\<lambda>_.
     and_then (map_err (\<lambda>_. binding_failure Code_InvalidRequest) (admit message)) (\<lambda>_.
     and_then (ok_or (binding_failure Code_InvalidRequest) (env_bind message)) (\<lambda>bind.
     and_then (refuse_if (bind_role bind \<noteq> ec_role self)
       (binding_failure Code_UnsupportedOperation)) (\<lambda>_.
     and_then (ok_or (binding_failure Code_UnsupportedVersion)
       (max_of (filter (\<lambda>c. c \<in> set (bind_versions bind)) (prof_bindable prof)))) (\<lambda>version.
     and_then (map_err (\<lambda>_. binding_failure Code_InvalidRequest)
       (validate_limits (ec_limits self))) (\<lambda>_.
     let (schemes, policies) = accept_capabilities self bind version in
     and_then (refuse_if (schemes = [] \<or> policies = [])
       (binding_failure Code_UnsupportedOperation)) (\<lambda>_.
     let receive_limits = minimum (bind_receive_limits bind) (ec_limits self) in
     and_then (usable receive_limits) (\<lambda>_.
     and_then (prof_admit prof version receive_limits) (\<lambda>_.
     let bound = \<lparr>bound_version = version, bound_endpoint_id = ec_endpoint_id self,
           bound_role = ec_role self, bound_schemes = schemes, bound_policies = policies,
           bound_receive_limits = receive_limits, bound_trust_owner = ec_trust_owner self\<rparr>;
         reply = bound_reply (env_session_id message) bound
     in
     and_then (map_err (\<lambda>_. binding_failure Code_InvalidRequest) (admit reply)) (\<lambda>_.
     Inr (reply, \<lparr>binding_session_id = env_session_id message, binding_bound = bound\<rparr>)))))))))))"

definition verify :: "profile \<Rightarrow> envelope \<Rightarrow> envelope \<Rightarrow> failure + binding" where
  "verify prof offered reply =
     and_then (map_err (\<lambda>_. binding_failure Code_InvalidRequest) (admit offered)) (\<lambda>_.
     and_then (map_err (\<lambda>_. binding_failure Code_InvalidRequest) (admit reply)) (\<lambda>_.
     and_then (ok_or (binding_failure Code_InvalidRequest) (env_bind offered)) (\<lambda>requested.
     and_then (ok_or (binding_failure Code_Unavailable) (env_bound reply)) (\<lambda>bound.
     and_then (refuse_if
       (env_session_id reply \<noteq> env_session_id offered
        \<or> bound_role bound \<noteq> bind_role requested
        \<or> bound_version bound \<notin> set (prof_bindable prof)
        \<or> bound_version bound \<notin> set (bind_versions requested)
        \<or> \<not> list_all (\<lambda>v. v \<in> set (bind_schemes requested)) (bound_schemes bound)
        \<or> \<not> list_all (\<lambda>v. v \<in> set (bind_policies requested)) (bound_policies bound)
        \<or> \<not> no_greater (bound_receive_limits bound) (bind_receive_limits requested))
       (binding_failure Code_InvalidRequest)) (\<lambda>_.
     and_then (usable (bound_receive_limits bound)) (\<lambda>_.
     and_then (prof_admit prof (bound_version bound) (bound_receive_limits bound)) (\<lambda>_.
     Inr \<lparr>binding_session_id = env_session_id reply, binding_bound = bound\<rparr>)))))))"

text \<open>The control messages of one stream that hold numbers only.\<close>

definition flow_kind :: "message_kind \<Rightarrow> bool" where
  "flow_kind k \<longleftrightarrow> k \<in> {Kind_Window, Kind_Flush, Kind_Flushed, Kind_EndWrite, Kind_Close, Kind_Cancel}"

text \<open>A concrete endpoint, its binding with the default offer, and a request.\<close>

definition sample_endpoint :: endpoint_config where
  "sample_endpoint = \<lparr>ec_endpoint_id = ''e'', ec_role = Role_Local, ec_schemes = [Scheme_Https],
     ec_policies = [Policy_Anonymous], ec_limits = default_limits, ec_trust_owner = ''t''\<rparr>"

definition sample_binding :: binding where
  "sample_binding = \<lparr>binding_session_id = ''s'', binding_bound =
     \<lparr>bound_version = 1, bound_endpoint_id = ''e'', bound_role = Role_Local, bound_schemes = [Scheme_Https],
      bound_policies = [Policy_Anonymous], bound_receive_limits = default_limits,
      bound_trust_owner = ''t''\<rparr>\<rparr>"

definition sample_failed :: envelope where
  "sample_failed = default_envelope
     \<lparr>env_version := 2, env_session_id := ''s'', env_stream_id := 1, env_kind := Kind_Failed,
      env_failed := Some
        \<lparr>fail_code = Code_Timeout, fail_effect = Effect_Possible,
         fail_facts = Some
           \<lparr>facts_method = Method_SshKey, facts_credential_offered = True, facts_authenticated = Some False,
            facts_key_fingerprint = Some ''SHA256:f'', facts_http_status = None, facts_ssh_exit_status = Some 255,
            facts_native = None\<rparr>,
         fail_setup_cause = None,
         fail_detail = Some
           \<lparr>fd_helper_cause = None, fd_pipe_kind = None, fd_schemes = Some [''Basic''], fd_retry_attempt = None,
            fd_helper_budget_ms = None, fd_capacity = None\<rparr>\<rparr>\<rparr>"

definition sample_reply :: envelope where
  "sample_reply = bound_reply ''s'' (binding_bound sample_binding)"

definition sample_open :: envelope where
  "sample_open = default_envelope
     \<lparr>env_version := 1, env_session_id := ''s'', env_stream_id := 1, env_kind := Kind_Open,
      env_open := Some
        \<lparr>open_endpoint_id = ''e'', open_operation_id = ''o'',
         open_destination = \<lparr>dest_scheme = Scheme_Https, dest_host = ''h'', dest_port = 443,
           dest_path = ''/'', dest_ssh_username = None, dest_https_username = None\<rparr>,
         open_service = Service_UploadPackAdvertisement,
         open_identity = \<lparr>ident_mode = Identity_CredentialsDisabled, ident_key_path = None, ident_path_base = None\<rparr>,
         open_policy = Policy_Anonymous,
         open_deadlines = \<lparr>dl_allocation_ms = 1, dl_connect_ms = 1, dl_io_ms = 1,
           dl_interaction_ms = 1, dl_cleanup_ms = 1\<rparr>,
         open_receive_limits = default_limits\<rparr>\<rparr>"

section \<open>Limits and capabilities\<close>

lemma usable_ok:
  "usable l = Inr () \<longleftrightarrow>
     4096 \<le> lim_encoded_frame l \<and> 256 \<le> lim_metadata_bytes l \<and> 10 \<le> lim_nesting l
     \<and> 128 \<le> lim_collection_entries l \<and> 65536 \<le> lim_decode_allocation l
     \<and> 4096 \<le> lim_control_reserve_bytes l \<and> 2 \<le> lim_control_reserve_frames l
     \<and> lim_encoded_frame l + lim_decode_allocation l \<le> lim_queued_bytes l - lim_control_reserve_bytes l
     \<and> 2 \<le> lim_queued_frames l - lim_control_reserve_frames l
     \<and> lim_receive_window l \<le> lim_queued_bytes l - lim_control_reserve_bytes l"
  by (auto simp: usable_def)

lemma no_greater_refl [simp]: "no_greater l l"
  by (simp add: no_greater_def)

lemma no_greater_trans: "no_greater a b \<Longrightarrow> no_greater b c \<Longrightarrow> no_greater a c"
  by (auto simp: no_greater_def)

lemma minimum_no_greater: "no_greater (minimum a b) a" "no_greater (minimum a b) b"
  by (simp_all add: no_greater_def minimum_def)

lemma minimum_greatest: "no_greater c a \<Longrightarrow> no_greater c b \<Longrightarrow> no_greater c (minimum a b)"
  by (simp add: no_greater_def minimum_def)

lemma minimum_valid:
  "validate_limits a = Inr () \<Longrightarrow> validate_limits b = Inr () \<Longrightarrow> validate_limits (minimum a b) = Inr ()"
  by (simp add: validate_limits_ok minimum_def min_le_iff_disj min_less_iff_disj)

lemma max_of_Some: "max_of xs = Some m \<Longrightarrow> m \<in> set xs \<and> (\<forall>x\<in>set xs. x \<le> m)"
  by (auto simp: max_of_def split: if_splits)

lemma accept_capabilities_closed:
  assumes "accept_capabilities cfg bind version = (schemes, policies)" "schemes \<noteq> []" "policies \<noteq> []"
  shows "capabilities schemes policies"
    "set schemes \<subseteq> set (bind_schemes bind) \<inter> set (ec_schemes cfg)"
    "set policies \<subseteq> set (bind_policies bind) \<inter> set (ec_policies cfg)"
    "version = 1 \<Longrightarrow> \<not> list_ex native policies"
proof -
  define ss where "ss = filter (\<lambda>s. s \<in> set (bind_schemes bind)) (ec_schemes cfg)"
  define ps where "ps = (let qs = filter (\<lambda>p. p \<in> set (bind_policies bind)) (ec_policies cfg)
    in if version = 1 then filter (\<lambda>p. \<not> native p) qs else qs)"
  have s: "schemes = filter (\<lambda>s. list_ex (\<lambda>p. supports s p) ps) ss"
    and p: "policies = filter (\<lambda>p. list_ex (\<lambda>s. supports s p) schemes) ps"
    using assms(1) unfolding accept_capabilities_def ss_def ps_def Let_def prod.inject by blast+
  have ps: "set policies = {p \<in> set ps. \<exists>s\<in>set schemes. supports s p}"
    by (simp add: p list_ex_iff)
  have ss: "set schemes = {s \<in> set ss. \<exists>p\<in>set ps. supports s p}"
    by (simp add: s list_ex_iff)
  have "\<forall>s\<in>set schemes. \<exists>p\<in>set policies. supports s p" using ps ss by blast
  moreover have "\<forall>p\<in>set policies. \<exists>s\<in>set schemes. supports s p" using ps by blast
  ultimately show "capabilities schemes policies"
    using assms(2,3) by (simp add: capabilities_def list_all_iff list_ex_iff)
  have "set ss \<subseteq> set (bind_schemes bind) \<inter> set (ec_schemes cfg)" by (auto simp: ss_def)
  then show "set schemes \<subseteq> set (bind_schemes bind) \<inter> set (ec_schemes cfg)" using ss by blast
  have "set ps \<subseteq> set (bind_policies bind) \<inter> set (ec_policies cfg)"
    by (auto simp: ps_def Let_def)
  then show "set policies \<subseteq> set (bind_policies bind) \<inter> set (ec_policies cfg)" using ps by blast
  have "version = 1 \<Longrightarrow> \<forall>p\<in>set ps. \<not> native p" by (simp add: ps_def Let_def)
  then show "version = 1 \<Longrightarrow> \<not> list_ex native policies" using ps by (auto simp: list_ex_iff)
qed

text \<open>What a successful acceptance decided.\<close>

lemma acceptE:
  assumes "accept prof cfg m = Inr (reply, b)"
  obtains bind bound where
    "admit m = Inr ()" "admit reply = Inr ()" "env_bind m = Some bind" "bind_role bind = ec_role cfg"
    "max_of (filter (\<lambda>c. c \<in> set (bind_versions bind)) (prof_bindable prof)) = Some (bound_version bound)"
    "validate_limits (ec_limits cfg) = Inr ()"
    "capabilities (bound_schemes bound) (bound_policies bound)"
    "set (bound_schemes bound) \<subseteq> set (bind_schemes bind) \<inter> set (ec_schemes cfg)"
    "set (bound_policies bound) \<subseteq> set (bind_policies bind) \<inter> set (ec_policies cfg)"
    "bound_version bound = 1 \<longrightarrow> \<not> list_ex native (bound_policies bound)"
    "bound_receive_limits bound = minimum (bind_receive_limits bind) (ec_limits cfg)"
    "usable (bound_receive_limits bound) = Inr ()"
    "prof_admit prof (bound_version bound) (bound_receive_limits bound) = Inr ()"
    "bound_role bound = ec_role cfg" "bound_endpoint_id bound = ec_endpoint_id cfg"
    "bound_trust_owner bound = ec_trust_owner cfg"
    "reply = bound_reply (env_session_id m) bound"
    "b = \<lparr>binding_session_id = env_session_id m, binding_bound = bound\<rparr>"
proof -
  from assms obtain bind version where b: "admit m = Inr ()" "env_bind m = Some bind"
      "bind_role bind = ec_role cfg" "validate_limits (ec_limits cfg) = Inr ()"
      "max_of (filter (\<lambda>c. c \<in> set (bind_versions bind)) (prof_bindable prof)) = Some version"
      "capabilities (ec_schemes cfg) (ec_policies cfg)"
    by (auto simp: accept_def and_then_eq_Inr Let_def)
  obtain schemes policies where c: "accept_capabilities cfg bind version = (schemes, policies)"
    by fastforce
  note eq = assms [unfolded accept_def b c Let_def map_err_Inr ok_or_Some and_then_Inr prod.case]
  define bound where "bound = \<lparr>bound_version = version, bound_endpoint_id = ec_endpoint_id cfg,
    bound_role = ec_role cfg, bound_schemes = schemes, bound_policies = policies,
    bound_receive_limits = minimum (bind_receive_limits bind) (ec_limits cfg),
    bound_trust_owner = ec_trust_owner cfg\<rparr>"
  have r: "schemes \<noteq> []" "policies \<noteq> []"
      "usable (bound_receive_limits bound) = Inr ()"
      "prof_admit prof version (bound_receive_limits bound) = Inr ()"
      "admit reply = Inr ()"
      "reply = bound_reply (env_session_id m) bound"
      "b = \<lparr>binding_session_id = env_session_id m, binding_bound = bound\<rparr>"
    using eq b(3,6) unfolding bound_def by (elim and_then_InrE; simp)+
  have acc: "bound_version bound = version" "bound_schemes bound = schemes" "bound_policies bound = policies"
      "bound_receive_limits bound = minimum (bind_receive_limits bind) (ec_limits cfg)"
      "bound_role bound = ec_role cfg" "bound_endpoint_id bound = ec_endpoint_id cfg"
      "bound_trust_owner bound = ec_trust_owner cfg"
    by (simp_all add: bound_def)
  note k = accept_capabilities_closed [OF c r(1,2)]
  show thesis
    using that [of bind bound, unfolded acc, OF b(1) r(5) b(2,3,5,4) k(1,2,3) _ refl r(3,4) [unfolded acc]
        refl refl refl r(6,7)] k(4) by blast
qed

lemma bind_limits_valid:
  assumes "admit m = Inr ()" "env_bind m = Some bind"
  shows "validate_limits (bind_receive_limits bind) = Inr ()"
  using assms by (auto simp: admit_def admit_limited_def validate_envelope_def validate_bind_def and_then_eq_Inr)

section \<open>Control messages under usable limits\<close>

lemma control_message_admitted:
  assumes "validate_limits l = Inr ()" "usable l = Inr ()"
    and "validate_envelope m = Inr ()" "control_kind (env_kind m)" "env_stream_id m \<noteq> 0"
    and "\<forall>s\<in>set (free_texts m). length s \<le> 256"
  shows "admit_limited m l = Inr ()"
proof -
  have caps: "4096 \<le> i64_as_usize (lim_encoded_frame l)" "256 \<le> i64_as_usize (lim_metadata_bytes l)"
      "10 \<le> i64_as_usize (lim_nesting l)" "128 \<le> i64_as_usize (lim_collection_entries l)"
      "65536 \<le> i64_as_usize (lim_decode_allocation l)"
    using assms(1,2) by (auto simp: valid_caps usable_ok)
  then have "admit_envelope m l = Inr ()"
    using control_within [OF assms(3-6)] assms(5) by (auto simp: within_def admit_envelope_ok admissible_iff)
  then show ?thesis using assms(1,3) by (simp add: admit_limited_def)
qed

lemma flow_message_admitted:
  assumes "validate_limits l = Inr ()" "usable l = Inr ()"
    and "validate_envelope m = Inr ()" "flow_kind (env_kind m)"
  shows "admit_limited m l = Inr ()"
proof (rule control_message_admitted [OF assms(1-3)])
  have h: "validate_header m = Inr ()" using assms(3) by (auto simp: validate_envelope_def and_then_eq_Inr)
  then show "env_stream_id m \<noteq> 0"
    using assms(4) by (auto simp: validate_header_def flow_kind_def and_then_eq_Inr split: if_splits)
  show "\<forall>s\<in>set (free_texts m). length s \<le> 256"
    using absent_bodies [OF h] assms(4) by (auto simp: free_texts_def flow_kind_def map_filter_def)
qed (use assms(4) in \<open>auto simp: control_kind_def flow_kind_def\<close>)

section \<open>A bound pair\<close>

lemma usable_default: "usable default_limits = Inr ()"
  by (simp add: usable_ok) (simp add: default_limits_def)

lemma minimum_same: "minimum l l = l"
  by (simp add: minimum_def)

lemma offer_valid: "validate_envelope (offer ''s'' Role_Local) = Inr ()"
  by (simp add: validate_envelope_def validate_header_def validate_failures_def validate_stream_bodies_def
      bodies_def offer_def default_envelope_def validate_bind_def capabilities_def supports_def native_def)

lemma limits_tree: "limits_to_cbor default_limits = CMap
    [(1, CInt 131072), (2, CInt 65536), (3, CInt 16384), (4, CInt 16), (5, CInt 256), (6, CInt 524288),
     (7, CInt 4194304), (8, CInt 64), (9, CInt 1048576), (10, CInt 65536), (11, CInt 8)]"
  by (simp add: limits_to_cbor_def default_limits_def)

lemma offer_admitted: "admit (offer ''s'' Role_Local) = Inr ()"
  unfolding admit_def admit_limited_def offer_valid validate_default and_then_Inr admit_envelope_ok admissible_iff
  by (simp add: envelope_to_cbor_def offer_def default_envelope_def bind_msg_to_cbor_def limits_tree
     budget_head_def node_charge_def i64_as_usize_numeral
      i64_as_usize_one max_metadata_def max_bootstrap_def max_bootstrap_allocation_def)

lemma reply_valid: "validate_envelope sample_reply = Inr ()"
  by (simp add: validate_envelope_def validate_header_def validate_failures_def validate_stream_bodies_def
      bodies_def sample_reply_def bound_reply_def sample_binding_def default_envelope_def validate_bound_def capabilities_def supports_def native_def)

lemma reply_admitted: "admit sample_reply = Inr ()"
  unfolding admit_def admit_limited_def reply_valid validate_default and_then_Inr admit_envelope_ok admissible_iff
  by (simp add: envelope_to_cbor_def sample_reply_def bound_reply_def sample_binding_def default_envelope_def bound_msg_to_cbor_def limits_tree
     budget_head_def node_charge_def i64_as_usize_numeral
      i64_as_usize_one max_metadata_def max_bootstrap_def max_bootstrap_allocation_def)

lemma sample_accept: "accept profile_stable sample_endpoint (offer ''s'' Role_Local) = Inr (sample_reply, sample_binding)"
proof -
  have o: "env_bind (offer ''s'' Role_Local) = Some
        \<lparr>bind_versions = [1], bind_role = Role_Local, bind_schemes = [Scheme_Ssh, Scheme_Https],
         bind_policies = [Policy_SshAmbient, Policy_SshExplicit, Policy_Anonymous, Policy_Gh],
         bind_receive_limits = default_limits\<rparr>" "env_session_id (offer ''s'' Role_Local) = ''s''"
    by (simp_all add: offer_def)
  show ?thesis using reply_admitted unfolding sample_reply_def
  by (simp add: accept_def offer_admitted o sample_endpoint_def sample_binding_def profile_stable_def capabilities_def supports_def native_def
     max_of_def accept_capabilities_def minimum_same usable_default Let_def)
qed

lemma selector_plain: "\<not> has_decoded_control ''/''"
  by (simp add: has_decoded_control_def str_bytes_def byte_is_ascii_control_def utf8_scan.simps utf8_width_def
      char_is_control_def)

lemma open_destination_valid:
  "validate_destination \<lparr>dest_scheme = Scheme_Https, dest_host = ''h'', dest_port = 443,
     dest_path = ''/'', dest_ssh_username = None, dest_https_username = None\<rparr> = Inr ()"
  by (simp add: validate_destination_def selector_plain str_chars_def str_bytes_def utf8_scan.simps
      utf8_width_def char_is_control_def char_is_whitespace_def)

lemma open_valid: "validate_envelope sample_open = Inr ()"
  by (simp add: validate_envelope_def validate_header_def validate_failures_def validate_stream_bodies_def
      bodies_def sample_open_def default_envelope_def validate_open_def open_destination_valid
      valid_identity_def native_def i32_max_def)

lemma open_admitted: "admit_limited sample_open default_limits = Inr ()"
  unfolding admit_limited_def open_valid validate_default and_then_Inr admit_envelope_ok admissible_iff
  by (simp add: envelope_to_cbor_def sample_open_def default_envelope_def open_msg_to_cbor_def limits_tree
     destination_to_cbor_def identity_to_cbor_def deadlines_to_cbor_def
     budget_head_def node_charge_def i64_as_usize_numeral
      i64_as_usize_one max_metadata_def max_bootstrap_def max_bootstrap_allocation_def)

lemma sample_check: "check_open sample_binding sample_open = Inr ()"
proof -
  have "env_open sample_open \<noteq> None" "env_version sample_open = 1" "env_kind sample_open = Kind_Open"
     "env_session_id sample_open = ''s''" by (simp_all add: sample_open_def)
  then show ?thesis
    by (simp add: check_open_def sample_binding_def open_admitted usable_default) (simp add: sample_open_def usable_default)
qed

lemma sample_failed_valid: "validate_envelope sample_failed = Inr ()"
  by (simp add: validate_envelope_def validate_header_def validate_failures_def validate_stream_bodies_def
      bodies_def sample_failed_def default_envelope_def validate_failure_detail_def validate_native_facts_def
      scheme_token_def byte_in_def str_bytes_def byte_is_ascii_alphanumeric_def failure_has_v2_fields_def)

section \<open>Properties\<close>

text \<open>
  C14: the two sides of a binding agree. When the endpoint accepts an offer, the host's check
  of the reply succeeds, with the same binding.
\<close>

theorem accept_verify:
  assumes "accept prof cfg m = Inr (reply, b)"
  shows "verify prof m reply = Inr b"
  using assms
proof (rule acceptE)
  fix bind bound
  assume a: "admit m = Inr ()" "admit reply = Inr ()" "env_bind m = Some bind" "bind_role bind = ec_role cfg"
    "max_of (filter (\<lambda>c. c \<in> set (bind_versions bind)) (prof_bindable prof)) = Some (bound_version bound)"
    "set (bound_schemes bound) \<subseteq> set (bind_schemes bind) \<inter> set (ec_schemes cfg)"
    "set (bound_policies bound) \<subseteq> set (bind_policies bind) \<inter> set (ec_policies cfg)"
    "bound_receive_limits bound = minimum (bind_receive_limits bind) (ec_limits cfg)"
    "usable (bound_receive_limits bound) = Inr ()"
    "prof_admit prof (bound_version bound) (bound_receive_limits bound) = Inr ()"
    "bound_role bound = ec_role cfg" and
    r: "reply = bound_reply (env_session_id m) bound"
    "b = \<lparr>binding_session_id = env_session_id m, binding_bound = bound\<rparr>"
  have e: "env_session_id reply = env_session_id m" "env_bound reply = Some bound" using r by (simp_all add: bound_reply_def)
  have v: "bound_version bound \<in> set (prof_bindable prof)" "bound_version bound \<in> set (bind_versions bind)"
    using max_of_Some [OF a(5)] by simp_all
  have l: "no_greater (bound_receive_limits bound) (bind_receive_limits bind)"
    by (simp add: a(8) minimum_no_greater)
  have c: "list_all (\<lambda>v. v \<in> set (bind_schemes bind)) (bound_schemes bound)"
      "list_all (\<lambda>v. v \<in> set (bind_policies bind)) (bound_policies bound)"
    using a(6,7) by (auto simp: list_all_iff)
  show ?thesis
    by (simp add: verify_def a(1-4,9-11) e v l c r(2))
qed

theorem accept_verify_witness:
  "verify profile_stable (offer ''s'' Role_Local) sample_reply = Inr sample_binding"
  using accept_verify [OF sample_accept] .

text \<open>
  C15: what is negotiated. An accepted binding is for the session, role and endpoint asked
  for; its version was offered, is one the endpoint can bind, and is the greatest such; its
  schemes and policies were offered and configured and are closed under the policy relation,
  with no native policy in version 1; its limits are valid, usable and no greater than either side's.
\<close>

theorem negotiated_binding:
  assumes "accept prof cfg m = Inr (reply, b)" "env_bind m = Some bind"
  shows "let bound = binding_bound b; l = bound_receive_limits bound in
    binding_session_id b = env_session_id m
    \<and> bound_role bound = bind_role bind \<and> bound_endpoint_id bound = ec_endpoint_id cfg
    \<and> bound_trust_owner bound = ec_trust_owner cfg
    \<and> bound_version bound \<in> set (bind_versions bind) \<and> bound_version bound \<in> set (prof_bindable prof)
    \<and> (\<forall>v\<in>set (prof_bindable prof). v \<in> set (bind_versions bind) \<longrightarrow> v \<le> bound_version bound)
    \<and> set (bound_schemes bound) \<subseteq> set (bind_schemes bind) \<inter> set (ec_schemes cfg)
    \<and> set (bound_policies bound) \<subseteq> set (bind_policies bind) \<inter> set (ec_policies cfg)
    \<and> capabilities (bound_schemes bound) (bound_policies bound)
    \<and> (bound_version bound = 1 \<longrightarrow> \<not> list_ex native (bound_policies bound))
    \<and> validate_limits l = Inr () \<and> usable l = Inr ()
    \<and> no_greater l (bind_receive_limits bind) \<and> no_greater l (ec_limits cfg)"
  using assms(1)
proof (rule acceptE)
  fix bind' bound
  assume a: "admit m = Inr ()" "env_bind m = Some bind'" "bind_role bind' = ec_role cfg"
    "max_of (filter (\<lambda>c. c \<in> set (bind_versions bind')) (prof_bindable prof)) = Some (bound_version bound)"
    "validate_limits (ec_limits cfg) = Inr ()"
    "set (bound_schemes bound) \<subseteq> set (bind_schemes bind') \<inter> set (ec_schemes cfg)"
    "set (bound_policies bound) \<subseteq> set (bind_policies bind') \<inter> set (ec_policies cfg)"
    "capabilities (bound_schemes bound) (bound_policies bound)"
    "bound_version bound = 1 \<longrightarrow> \<not> list_ex native (bound_policies bound)"
    "bound_receive_limits bound = minimum (bind_receive_limits bind') (ec_limits cfg)"
    "usable (bound_receive_limits bound) = Inr ()" "bound_role bound = ec_role cfg"
    "bound_endpoint_id bound = ec_endpoint_id cfg" "bound_trust_owner bound = ec_trust_owner cfg"
    "b = \<lparr>binding_session_id = env_session_id m, binding_bound = bound\<rparr>"
  have "bind' = bind" using a(2) assms(2) by simp
  then show ?thesis
    using a max_of_Some [OF a(4)] minimum_valid [OF bind_limits_valid [OF a(1,2)] a(5)]
    by (auto simp: Let_def minimum_no_greater)
qed

theorem negotiated_binding_witness:
  "bound_version (binding_bound sample_binding) \<in> set [1 :: i64]
   \<and> usable (bound_receive_limits (binding_bound sample_binding)) = Inr ()"
  using negotiated_binding [OF sample_accept, of "the (env_bind (offer ''s'' Role_Local))"]
  by (simp add: Let_def offer_def)

text \<open>
  C17: an admitted request to open a stream is for the bound session, endpoint and version,
  names a scheme and a policy of the binding that allow its identity, and asks for limits
  that are valid, usable and within the binding's.
\<close>

theorem check_open_ok:
  assumes "check_open b m = Inr ()"
  shows "\<exists>opn. env_open m = Some opn \<and> env_kind m = Kind_Open
    \<and> env_version m = bound_version (binding_bound b)
    \<and> env_session_id m = binding_session_id b
    \<and> open_endpoint_id opn = bound_endpoint_id (binding_bound b)
    \<and> dest_scheme (open_destination opn) \<in> set (bound_schemes (binding_bound b))
    \<and> open_policy opn \<in> set (bound_policies (binding_bound b))
    \<and> allows (dest_scheme (open_destination opn)) (open_policy opn) (ident_mode (open_identity opn))
    \<and> no_greater (open_receive_limits opn) (bound_receive_limits (binding_bound b))
    \<and> usable (open_receive_limits opn) = Inr ()
    \<and> validate_limits (open_receive_limits opn) = Inr ()"
proof -
  obtain opn where o: "env_open m = Some opn" "admit_limited m (bound_receive_limits (binding_bound b)) = Inr ()"
    using assms by (auto simp: check_open_def and_then_eq_Inr Let_def)
  then have "validate_open (env_version m) opn = Inr ()"
    by (auto simp: admit_limited_def validate_envelope_def and_then_eq_Inr)
  then have v: "validate_limits (open_receive_limits opn) = Inr ()"
      "allows (dest_scheme (open_destination opn)) (open_policy opn) (ident_mode (open_identity opn))"
    by (auto simp: validate_open_def and_then_eq_Inr)
  show ?thesis
    using assms o v by (auto simp: check_open_def and_then_eq_Inr Let_def)
qed

theorem check_open_ok_witness:
  "\<exists>opn. env_open sample_open = Some opn \<and> usable (open_receive_limits opn) = Inr ()"
  using check_open_ok [OF sample_check] by blast

text \<open>
  C16: under usable limits the codec admits every valid control message of a stream, whatever
  its kind and the numbers, causes and details it holds, as long as the texts an endpoint
  chooses freely (the names of an opened connection, the fingerprint of a key) have at most
  256 bytes, the least metadata limit that is usable. So the minimums of \<open>usable\<close> are
  enough for control traffic: flow control, failures and closing never stop on a codec bound.
\<close>

theorem control_admitted:
  assumes "validate_limits l = Inr ()" "usable l = Inr ()"
    and "validate_envelope m = Inr ()" "control_kind (env_kind m)" "env_stream_id m \<noteq> 0"
    and "\<forall>s\<in>set (free_texts m). length s \<le> 256"
  shows "admit_limited m l = Inr ()"
  using assms by (rule control_message_admitted)

theorem control_admitted_witness: "admit_limited sample_failed default_limits = Inr ()"
proof (rule control_admitted [OF validate_default usable_default sample_failed_valid])
  show "control_kind (env_kind sample_failed)" "env_stream_id sample_failed \<noteq> 0"
    "\<forall>s\<in>set (free_texts sample_failed). length s \<le> 256"
    by (simp_all add: sample_failed_def control_kind_def free_texts_def default_envelope_def map_filter_def)
qed

end
