(* ===== verification/Io_Clock.thy ===== *)
theory Io_Clock
  imports Protocol
begin

text \<open>
  The activity clock of a stream, \<open>src/stream/io_clock.rs\<close>, with the part of
  \<open>src/stream/mod.rs\<close> it uses: the host reports what the backend is doing, and the clock
  charges the time to the allowance of that activity. Times are milliseconds of the host's
  monotonic clock, u64 values that saturate.
\<close>

section \<open>The clock\<close>

datatype io_state = Io_Idle | Io_Network | Io_Backpressure | Io_Interaction

record io_status =
  ios_state :: io_state
  ios_remaining_network_ms :: u64
  ios_remaining_interaction_ms :: u64
  ios_active_deadline :: "u64 option"

text \<open>\<open>stream::Error\<close>\<close>

datatype stream_error =
    Stream_WouldBlock
  | Stream_InvalidConfig
  | Stream_Protocol
  | Stream_Cancelled
  | Stream_CarrierLost
  | Stream_Timeout
  | Stream_WrongState
  | Stream_WriteClosed
  | Stream_Closed
  | Stream_WrongSide
  | Stream_WaiterCapacity
  | Stream_PeerFailed error_code effect

record io_clock =
  ioc_state :: io_state
  ioc_network_remaining_ms :: u64
  ioc_interaction_remaining_ms :: u64
  ioc_deadline :: "u64 option"

definition io_new :: "u64 \<Rightarrow> u64 \<Rightarrow> io_clock" where
  "io_new network_ms interaction_ms =
     \<lparr>ioc_state = Io_Idle, ioc_network_remaining_ms = network_ms,
      ioc_interaction_remaining_ms = interaction_ms, ioc_deadline = None\<rparr>"

definition io_account :: "u64 \<Rightarrow> io_clock \<Rightarrow> io_clock" where
  "io_account now self =
     (case ioc_deadline self of
       None \<Rightarrow> self
     | Some deadline \<Rightarrow>
         let remaining = saturating_sub_u64 deadline now in
         (case ioc_state self of
           Io_Network \<Rightarrow> self\<lparr>ioc_network_remaining_ms := remaining, ioc_deadline := None\<rparr>
         | Io_Interaction \<Rightarrow> self\<lparr>ioc_interaction_remaining_ms := remaining, ioc_deadline := None\<rparr>
         | _ \<Rightarrow> self\<lparr>ioc_deadline := None\<rparr>))"

definition io_set_state :: "u64 \<Rightarrow> io_state \<Rightarrow> io_clock \<Rightarrow> io_clock" where
  "io_set_state now state self =
     (if ioc_state self = state then self
      else
        let self = io_account now self in
        self\<lparr>ioc_state := state,
          ioc_deadline := (case state of
            Io_Network \<Rightarrow>
              if ioc_network_remaining_ms self > 0
              then Some (saturating_add_u64 now (ioc_network_remaining_ms self))
              else None
          | Io_Interaction \<Rightarrow> Some (saturating_add_u64 now (ioc_interaction_remaining_ms self))
          | _ \<Rightarrow> None)\<rparr>)"

definition io_progress :: "u64 \<Rightarrow> usize \<Rightarrow> u64 \<Rightarrow> io_clock \<Rightarrow> (stream_error + unit) \<times> io_clock" where
  "io_progress now transferred timeout_ms self =
     (if transferred = 0 then (Inr (), self)
      else if ioc_state self \<noteq> Io_Network then (Inl Stream_WrongState, self)
      else
        (Inr (),
         self\<lparr>ioc_network_remaining_ms := timeout_ms,
           ioc_deadline := (if timeout_ms > 0 then Some (saturating_add_u64 now timeout_ms) else None)\<rparr>))"

definition io_stop :: "u64 \<Rightarrow> io_clock \<Rightarrow> io_clock" where
  "io_stop now self = (io_account now self)\<lparr>ioc_state := Io_Idle\<rparr>"

definition io_due :: "u64 \<Rightarrow> io_clock \<Rightarrow> bool" where
  "io_due now self = is_some_and (\<lambda>deadline. now \<ge> deadline) (ioc_deadline self)"

definition io_clock_status :: "u64 \<Rightarrow> io_clock \<Rightarrow> io_status" where
  "io_clock_status now self =
     (let (network, interaction) =
        (case ioc_state self of
          Io_Network \<Rightarrow>
            (case ioc_deadline self of
               None \<Rightarrow> ioc_network_remaining_ms self
             | Some at \<Rightarrow> saturating_sub_u64 at now,
             ioc_interaction_remaining_ms self)
        | Io_Interaction \<Rightarrow>
            (ioc_network_remaining_ms self,
             case ioc_deadline self of
               None \<Rightarrow> ioc_interaction_remaining_ms self
             | Some at \<Rightarrow> saturating_sub_u64 at now)
        | _ \<Rightarrow> (ioc_network_remaining_ms self, ioc_interaction_remaining_ms self))
      in \<lparr>ios_state = ioc_state self, ios_remaining_network_ms = network,
          ios_remaining_interaction_ms = interaction, ios_active_deadline = ioc_deadline self\<rparr>)"

section \<open>The allowances\<close>

text \<open>
  What holds of a clock whose network allowance is enabled, between reports: outside the
  network state the allowance is not used up, inside it there is a deadline, and the other
  states have none.
\<close>

definition io_wf :: "u64 \<Rightarrow> io_clock \<Rightarrow> bool" where
  "io_wf timeout_ms c \<longleftrightarrow>
     (case ioc_state c of
        Io_Network \<Rightarrow> (timeout_ms > 0 \<longrightarrow> ioc_deadline c \<noteq> None)
      | Io_Interaction \<Rightarrow> (timeout_ms > 0 \<longrightarrow> ioc_network_remaining_ms c > 0) \<and> ioc_deadline c \<noteq> None
      | _ \<Rightarrow> (timeout_ms > 0 \<longrightarrow> ioc_network_remaining_ms c > 0) \<and> ioc_deadline c = None)"

lemma io_new_wf: "io_wf t (io_new t i)"
  by (simp add: io_wf_def io_new_def)

lemma io_due_simps:
  "ioc_deadline c = None \<Longrightarrow> \<not> io_due now c"
  "ioc_deadline c = Some d \<Longrightarrow> io_due now c \<longleftrightarrow> d \<le> now"
  by (simp_all add: io_due_def)

lemma io_set_state_wf: "io_wf t c \<Longrightarrow> \<not> io_due now c \<Longrightarrow> io_wf t (io_set_state now s c)"
  by (cases "ioc_state c"; cases s; cases "ioc_deadline c")
    (auto simp: io_wf_def io_set_state_def io_account_def io_due_simps Let_def)

lemma io_progress_wf: "io_wf t c \<Longrightarrow> io_wf t (snd (io_progress now n t c))"
  by (auto simp: io_wf_def io_progress_def split: io_state.splits)

text \<open>
  What is left of the interaction allowance at a time. A change of state at that time never
  refills it and, unless the clock saturates, leaves it as it was; progress and stopping leave
  it as it was.
\<close>

lemma io_set_state_interaction:
  assumes "io_wf t c"
  shows "ios_remaining_interaction_ms (io_clock_status now (io_set_state now s c))
      \<le> ios_remaining_interaction_ms (io_clock_status now c)"
    and "now + ios_remaining_interaction_ms (io_clock_status now c) \<le> u64_max \<Longrightarrow>
      ios_remaining_interaction_ms (io_clock_status now (io_set_state now s c))
      = ios_remaining_interaction_ms (io_clock_status now c)"
  using assms
  by (cases "ioc_state c"; cases s; cases "ioc_deadline c";
      auto simp: io_wf_def io_clock_status_def io_set_state_def io_account_def Let_def saturating_add_u64_def)+

lemma io_progress_interaction:
  "ios_remaining_interaction_ms (io_clock_status now (snd (io_progress at n t c)))
     = ios_remaining_interaction_ms (io_clock_status now c)"
  by (cases "ioc_state c"; cases "ioc_deadline c") (simp_all add: io_clock_status_def io_progress_def)

lemma io_stop_interaction:
  "ios_remaining_interaction_ms (io_clock_status now (io_stop now c)) = ios_remaining_interaction_ms (io_clock_status now c)"
  by (cases "ioc_state c"; cases "ioc_deadline c") (simp_all add: io_clock_status_def io_stop_def io_account_def Let_def)

text \<open>Waiting costs the interaction allowance its duration in the interaction state only.\<close>

lemma io_wait_interaction:
  assumes "io_wf t c" "now \<le> at" "\<not> io_due at c"
  shows "(if ioc_state c = Io_Interaction then at - now else 0)
      + ios_remaining_interaction_ms (io_clock_status at c)
      = ios_remaining_interaction_ms (io_clock_status now c)"
  using assms
  by (cases "ioc_state c"; cases "ioc_deadline c") (auto simp: io_wf_def io_clock_status_def io_due_simps)

end
