(* ===== verification/Stream.thy ===== *)
theory Stream
  imports Binding Io_Clock
begin

text \<open>
  The stream machine, \<open>src/stream/{mod,state,machine,incoming,outgoing}.rs\<close>: one side of an
  open stream, with its two buffers, its credit in both directions, its flush barriers, the
  half close, the closing handshake, and its timers. A method with \<open>&mut self\<close> is a function
  that returns the new state; a method that can also fail returns the pair of its result and
  the new state, so that what an error leaves behind is visible.

  Lengths and configured sizes are usize values that the code converts to i64. Buffers are
  shorter than \<open>2^63\<close> bytes, and \<open>validate_config\<close> bounds every configured size before its
  first conversion, so the conversion is \<open>int\<close>. The byte offsets are plain integers here,
  and that they stay in the i64 range is part of the invariant.
\<close>

section \<open>Configuration\<close>

datatype side = Side_Initiator | Side_Endpoint

record config =
  cfg_session_id :: string
  cfg_stream_id :: i64
  cfg_side :: side
  cfg_profile_version :: i64
  cfg_receive_limits :: limits
  cfg_peer_limits :: limits
  cfg_send_buffer :: usize
  cfg_receive_window :: usize
  cfg_peer_receive_window :: usize
  cfg_max_payload :: usize
  cfg_coalesce_delay_ms :: u64
  cfg_close_timeout_ms :: u64
  cfg_io_timeout_ms :: u64
  cfg_interaction_budget_ms :: u64
  cfg_max_waiters :: usize

definition config_new :: "string \<Rightarrow> i64 \<Rightarrow> side \<Rightarrow> config" where
  "config_new session_id stream_id side =
     \<lparr>cfg_session_id = session_id, cfg_stream_id = stream_id, cfg_side = side,
      cfg_profile_version = 1, cfg_receive_limits = default_limits, cfg_peer_limits = default_limits,
      cfg_send_buffer = 65536, cfg_receive_window = 65536, cfg_peer_receive_window = 65536,
      cfg_max_payload = 16384, cfg_coalesce_delay_ms = 100, cfg_close_timeout_ms = 5000,
      cfg_io_timeout_ms = 3000, cfg_interaction_budget_ms = 120000, cfg_max_waiters = 64\<rparr>"

text \<open>The probe: the largest data message at the greatest offset.\<close>

definition config_probe :: "config \<Rightarrow> envelope" where
  "config_probe self = default_envelope
     \<lparr>env_version := 1, env_session_id := cfg_session_id self, env_stream_id := cfg_stream_id self,
      env_kind := Kind_Data,
      env_data := Some \<lparr>data_offset = i64_max - int (cfg_max_payload self),
        data_payload = replicate (cfg_max_payload self) 0\<rparr>\<rparr>"

definition validate_config :: "config \<Rightarrow> stream_error + unit" where
  "validate_config self =
     and_then (for_each
       (\<lambda>limits. and_then (map_err (\<lambda>_. Stream_InvalidConfig) (validate_limits limits)) (\<lambda>_.
          map_err (\<lambda>_. Stream_InvalidConfig) (usable limits)))
       [Some (cfg_receive_limits self), Some (cfg_peer_limits self)]) (\<lambda>_.
     and_then (refuse_if
       (cfg_session_id self = []
        \<or> length (cfg_session_id self) > 128
        \<or> cfg_stream_id self \<le> 0
        \<or> \<not> (1 \<le> cfg_profile_version self \<and> cfg_profile_version self \<le> 2)
        \<or> cfg_send_buffer self = 0
        \<or> cfg_send_buffer self > 4 * 1024 * 1024
        \<or> cfg_receive_window self = 0
        \<or> cfg_receive_window self > 4 * 1024 * 1024
        \<or> cfg_peer_receive_window self = 0
        \<or> cfg_peer_receive_window self > 4 * 1024 * 1024
        \<or> cfg_max_payload self = 0
        \<or> cfg_max_payload self > 65536
        \<or> cfg_close_timeout_ms self = 0
        \<or> cfg_io_timeout_ms self > nat i32_max
        \<or> cfg_interaction_budget_ms self > 86400000
        \<or> cfg_max_waiters self = 0
        \<or> cfg_max_waiters self > 1024
        \<or> int (cfg_receive_window self) > lim_receive_window (cfg_receive_limits self)
        \<or> int (cfg_peer_receive_window self) > lim_receive_window (cfg_peer_limits self)
        \<or> int (cfg_max_payload self)
            > min (lim_data_payload (cfg_receive_limits self)) (lim_data_payload (cfg_peer_limits self))
        \<or> int (cfg_send_buffer self)
            > lim_queued_bytes (cfg_peer_limits self) - lim_control_reserve_bytes (cfg_peer_limits self))
       Stream_InvalidConfig) (\<lambda>_.
     for_each (\<lambda>limits. map_err (\<lambda>_. Stream_InvalidConfig) (admit_limited (config_probe self) limits))
       [Some (cfg_receive_limits self), Some (cfg_peer_limits self)]))"

section \<open>State\<close>

record close_result =
  cr_disposition :: disposition
  cr_unread_response_discarded :: bool
  cr_facts :: facts

record snapshot =
  snap_send_buffer :: usize
  snap_received_buffer :: usize
  snap_peak_send_buffer :: usize
  snap_peak_received_buffer :: usize
  snap_sent :: i64
  snap_received :: i64
  snap_consumed :: i64
  snap_peer_limit :: i64
  snap_advertised_limit :: i64
  snap_end_sent :: bool
  snap_end_received :: bool
  snap_terminal :: bool

record pending_flush =
  pf_id :: i64
  pf_offset :: i64
  pf_sent :: bool

record stream_machine =
  sm_config :: config
  sm_send :: "byte list"
  sm_recv :: "byte list"
  sm_now :: u64
  sm_io :: io_clock
  sm_batch_deadline :: "u64 option"
  sm_force_send :: bool
  sm_sent :: i64
  sm_received :: i64
  sm_consumed :: i64
  sm_peer_limit :: i64
  sm_advertised_limit :: i64
  sm_end_requested :: bool
  sm_end_sent :: bool
  sm_end_received :: bool
  sm_flush :: "pending_flush option"
  sm_flush_serial :: i64
  sm_flush_acked :: i64
  sm_peer_flush :: "barrier option"
  sm_peer_flush_serial :: i64
  sm_close_deadline :: "u64 option"
  sm_close_sent :: bool
  sm_close_received :: bool
  sm_discarding :: bool
  sm_discarded :: bool
  sm_close_pending :: "closed_msg option"
  sm_completed :: "close_result option"
  sm_error :: "stream_error option"
  sm_failure_facts :: "facts option"
  sm_retained_failure :: "failure option"
  sm_terminal_message :: "envelope option"
  sm_peak_send :: usize
  sm_peak_recv :: usize
  sm_revision :: "64 word"

definition stream_new :: "config \<Rightarrow> stream_error + stream_machine" where
  "stream_new config =
     and_then (validate_config config) (\<lambda>_. Inr
       \<lparr>sm_config = config, sm_send = [], sm_recv = [], sm_now = 0,
        sm_io = io_new (cfg_io_timeout_ms config) (cfg_interaction_budget_ms config),
        sm_batch_deadline = None, sm_force_send = False, sm_sent = 0, sm_received = 0,
        sm_consumed = 0, sm_peer_limit = int (cfg_peer_receive_window config),
        sm_advertised_limit = int (cfg_receive_window config), sm_end_requested = False,
        sm_end_sent = False, sm_end_received = False, sm_flush = None, sm_flush_serial = 0,
        sm_flush_acked = 0, sm_peer_flush = None, sm_peer_flush_serial = 0,
        sm_close_deadline = None, sm_close_sent = False, sm_close_received = False,
        sm_discarding = False, sm_discarded = False, sm_close_pending = None,
        sm_completed = None, sm_error = None, sm_failure_facts = None,
        sm_retained_failure = None, sm_terminal_message = None, sm_peak_send = 0,
        sm_peak_recv = 0, sm_revision = 0\<rparr>)"

section \<open>Shared steps\<close>

definition stream_terminal :: "stream_machine \<Rightarrow> bool" where
  "stream_terminal self \<longleftrightarrow> is_some (sm_error self) \<or> is_some (sm_completed self)"

definition stream_live :: "stream_machine \<Rightarrow> stream_error + unit" where
  "stream_live self =
     (case sm_error self of
       Some error \<Rightarrow> Inl error
     | None \<Rightarrow> refuse_if (is_some (sm_completed self)) Stream_Closed)"

definition touch :: "stream_machine \<Rightarrow> stream_machine" where
  "touch self = self\<lparr>sm_revision := sm_revision self + 1\<rparr>"

definition stream_envelope :: "message_kind \<Rightarrow> stream_machine \<Rightarrow> envelope" where
  "stream_envelope kind self = default_envelope
     \<lparr>env_version := cfg_profile_version (sm_config self),
      env_session_id := cfg_session_id (sm_config self),
      env_stream_id := cfg_stream_id (sm_config self), env_kind := kind\<rparr>"

text \<open>The message by which a failing side tells its peer.\<close>

definition failure_notice :: "stream_error \<Rightarrow> stream_machine \<Rightarrow> envelope" where
  "failure_notice error self =
     (if (error = Stream_Cancelled \<or> error = Stream_Timeout) \<and> cfg_side (sm_config self) = Side_Initiator
         \<or> error = Stream_Cancelled
      then (stream_envelope Kind_Cancel self)
        \<lparr>env_cancel := Some \<lparr>cancel_reason =
           (if error = Stream_Timeout then Code_Timeout else Code_Cancelled)\<rparr>\<rparr>
      else (stream_envelope Kind_Failed self)
        \<lparr>env_failed := Some \<lparr>fail_code = (if error = Stream_Timeout then Code_Timeout else Code_Protocol),
           fail_effect = Effect_Possible, fail_facts = None, fail_setup_cause = None,
           fail_detail = None\<rparr>\<rparr>)"

definition stream_fail :: "stream_error \<Rightarrow> bool \<Rightarrow> stream_machine \<Rightarrow> stream_machine" where
  "stream_fail error notify self =
     (if stream_terminal self then self
      else
        touch (self
          \<lparr>sm_error := Some error, sm_send := [], sm_flush := None, sm_peer_flush := None,
           sm_close_pending := None, sm_batch_deadline := None,
           sm_io := io_stop (sm_now self) (sm_io self),
           sm_terminal_message :=
             (if notify then Some (failure_notice error self) else sm_terminal_message self)\<rparr>))"

definition io_expired :: "stream_machine \<Rightarrow> bool" where
  "io_expired self \<longleftrightarrow>
     is_some_and (\<lambda>at. sm_now self \<ge> at) (sm_close_deadline self) \<or> io_due (sm_now self) (sm_io self)"

definition expire_io_if_due :: "stream_machine \<Rightarrow> (stream_error + unit) \<times> stream_machine" where
  "expire_io_if_due self =
     (if io_expired self then (Inl Stream_Timeout, stream_fail Stream_Timeout True self)
      else (Inr (), self))"

definition stop_io_clock :: "stream_machine \<Rightarrow> stream_machine" where
  "stop_io_clock self = self\<lparr>sm_io := io_stop (sm_now self) (sm_io self)\<rparr>"

section \<open>Operations of the application\<close>

text \<open>The result of \<open>write\<close> is the length of the prefix it took.\<close>

definition stream_write :: "byte list \<Rightarrow> stream_machine \<Rightarrow> (stream_error + usize) \<times> stream_machine" where
  "stream_write input self =
     (case stream_live self of
       Inl e \<Rightarrow> (Inl e, self)
     | Inr _ \<Rightarrow>
         if sm_end_requested self then (Inl Stream_WriteClosed, self)
         else if input = [] then (Inr 0, self)
         else if is_some (sm_flush self) then (Inl Stream_WouldBlock, self)
         else
           let taken = min (length input) (cfg_send_buffer (sm_config self) - length (sm_send self)) in
           if taken = 0 then (Inl Stream_WouldBlock, self)
           else if Option.bind (checked_add_i64 (sm_sent self) (int (length (sm_send self))))
                     (\<lambda>v. checked_add_i64 v (int taken)) = None
           then (Inl Stream_Protocol, stream_fail Stream_Protocol True self)
           else
             let self = (if sm_send self = [] then self\<lparr>sm_batch_deadline :=
                   Some (saturating_add_u64 (sm_now self) (cfg_coalesce_delay_ms (sm_config self)))\<rparr>
                   else self);
                 self = self\<lparr>sm_send := sm_send self @ take taken input\<rparr>;
                 self = self\<lparr>sm_peak_send := max (sm_peak_send self) (length (sm_send self))\<rparr>
             in (Inr taken, touch self))"

text \<open>A reader that waits for an answer has its own buffered bytes sent without delay.\<close>

definition read_force :: "stream_machine \<Rightarrow> stream_machine" where
  "read_force self =
     (if sm_send self \<noteq> [] \<and> \<not> sm_force_send self
      then touch (self\<lparr>sm_force_send := True\<rparr>) else self)"

text \<open>
  The argument of \<open>read\<close> is the length of the output buffer and its result the bytes put
  there, whose number the code returns.
\<close>

definition stream_read :: "usize \<Rightarrow> stream_machine \<Rightarrow> (stream_error + byte list) \<times> stream_machine" where
  "stream_read output_len self =
     (if output_len = 0 then (Inr [], self)
      else
        let self = read_force self in
        if sm_recv self \<noteq> [] then
          let n = min output_len (length (sm_recv self)) in
          (Inr (take n (sm_recv self)),
           touch (self\<lparr>sm_recv := drop n (sm_recv self), sm_consumed := sm_consumed self + int n\<rparr>))
        else
          (case sm_error self of
            Some error \<Rightarrow> (Inl error, self)
          | None \<Rightarrow>
              if sm_discarding self \<or> is_some (sm_completed self) then (Inl Stream_Closed, self)
              else if sm_end_received self then (Inr [], self)
              else (Inl Stream_WouldBlock, self)))"

definition start_flush :: "stream_machine \<Rightarrow> (stream_error + i64) \<times> stream_machine" where
  "start_flush self =
     (case stream_live self of
       Inl e \<Rightarrow> (Inl e, self)
     | Inr _ \<Rightarrow>
        (case sm_flush self of
          Some flush \<Rightarrow> (Inr (pf_id flush), self)
        | None \<Rightarrow>
            if sm_end_sent self then (Inl Stream_WriteClosed, self)
            else
              (case checked_add_i64 (sm_flush_serial self) 1 of
                None \<Rightarrow> (Inl Stream_Protocol, self)
              | Some serial \<Rightarrow>
                  let self = self\<lparr>sm_flush_serial := serial\<rparr> in
                  (case checked_add_i64 (sm_sent self) (int (length (sm_send self))) of
                    None \<Rightarrow> (Inl Stream_Protocol, self)
                  | Some offset \<Rightarrow>
                      (Inr serial,
                       touch (self\<lparr>sm_flush := Some \<lparr>pf_id = serial, pf_offset = offset, pf_sent = False\<rparr>,
                         sm_force_send := True\<rparr>))))))"

definition flush_complete :: "i64 \<Rightarrow> stream_machine \<Rightarrow> stream_error + bool" where
  "flush_complete ticket self =
     (case sm_error self of Some error \<Rightarrow> Inl error | None \<Rightarrow> Inr (ticket \<le> sm_flush_acked self))"

definition end_write :: "stream_machine \<Rightarrow> (stream_error + unit) \<times> stream_machine" where
  "end_write self =
     (case stream_live self of
       Inl e \<Rightarrow> (Inl e, self)
     | Inr _ \<Rightarrow>
         (Inr (), if \<not> sm_end_requested self
                  then touch (self\<lparr>sm_end_requested := True, sm_force_send := True\<rparr>) else self))"

text \<open>The start of closing, before the end of writing: unread bytes are discarded.\<close>

definition close_discard :: "stream_machine \<Rightarrow> stream_machine" where
  "close_discard self =
     (let self = stop_io_clock self in
      self\<lparr>sm_close_deadline :=
          Some (saturating_add_u64 (sm_now self) (cfg_close_timeout_ms (sm_config self))),
        sm_discarding := True,
        sm_discarded := (sm_discarded self \<or> sm_recv self \<noteq> []),
        sm_consumed := sm_consumed self + int (length (sm_recv self)),
        sm_recv := []\<rparr>)"

definition start_close :: "stream_machine \<Rightarrow> (stream_error + unit) \<times> stream_machine" where
  "start_close self =
     (if is_some (sm_completed self) then (Inr (), self)
      else
       (case stream_live self of
         Inl e \<Rightarrow> (Inl e, self)
       | Inr _ \<Rightarrow>
           if cfg_side (sm_config self) \<noteq> Side_Initiator then (Inl Stream_WrongSide, self)
           else if sm_close_deadline self = None then
             (case end_write (close_discard self) of
               (Inl e, self) \<Rightarrow> (Inl e, self)
             | (Inr _, self) \<Rightarrow> (Inr (), touch self))
           else (Inr (), self)))"

definition stream_close_result :: "stream_machine \<Rightarrow> stream_error + close_result" where
  "stream_close_result self =
     (case sm_error self of
       Some error \<Rightarrow> Inl error
     | None \<Rightarrow> ok_or Stream_WouldBlock (sm_completed self))"

definition cancel :: "stream_machine \<Rightarrow> stream_machine" where
  "cancel self = stream_fail Stream_Cancelled True self"

definition disconnect :: "stream_machine \<Rightarrow> stream_machine" where
  "disconnect self = touch ((stream_fail Stream_CarrierLost False self)\<lparr>sm_terminal_message := None\<rparr>)"

section \<open>Operations of the endpoint's host\<close>

definition fail_terminal :: "failure \<Rightarrow> stream_machine \<Rightarrow> (stream_error + unit) \<times> stream_machine" where
  "fail_terminal failure self =
     (case stream_live self of
       Inl e \<Rightarrow> (Inl e, self)
     | Inr _ \<Rightarrow>
         if cfg_side (sm_config self) \<noteq> Side_Endpoint then (Inl Stream_WrongSide, self)
         else
           let message = (stream_envelope Kind_Failed self)\<lparr>env_failed := Some failure\<rparr> in
           (case admit_limited message (cfg_peer_limits (sm_config self)) of
             Inl _ \<Rightarrow> (Inl Stream_Protocol, self)
           | Inr _ \<Rightarrow>
               let self = self\<lparr>sm_failure_facts := fail_facts failure\<rparr>;
                   self = stream_fail (Stream_PeerFailed (fail_code failure) (fail_effect failure)) False self
               in (Inr (), self\<lparr>sm_terminal_message := Some message\<rparr>)))"

definition complete_close_with_failure ::
    "disposition \<Rightarrow> facts \<Rightarrow> failure option \<Rightarrow> stream_machine \<Rightarrow> (stream_error + unit) \<times> stream_machine" where
  "complete_close_with_failure disposition facts failure self =
     (case stream_live self of
       Inl e \<Rightarrow> (Inl e, self)
     | Inr _ \<Rightarrow>
         if cfg_side (sm_config self) \<noteq> Side_Endpoint then (Inl Stream_WrongSide, self)
         else if \<not> sm_close_received self \<or> \<not> sm_end_sent self \<or> \<not> sm_end_received self
           \<or> sm_recv self \<noteq> [] \<or> is_some (sm_peer_flush self) \<or> is_some (sm_flush self)
         then (Inl Stream_WouldBlock, self)
         else if sm_close_pending self = None then
           let closed = \<lparr>closed_disposition = disposition,
                 closed_unread_response_discarded = sm_discarded self,
                 closed_facts = facts, closed_failure = failure\<rparr>;
               message = (stream_envelope Kind_Closed self)\<lparr>env_closed := Some closed\<rparr>
           in
           (case admit_limited message (cfg_peer_limits (sm_config self)) of
             Inl _ \<Rightarrow> (Inl Stream_Protocol, self)
           | Inr _ \<Rightarrow> (Inr (), touch (self\<lparr>sm_close_pending := Some closed\<rparr>)))
         else (Inr (), self))"

definition complete_close ::
    "disposition \<Rightarrow> facts \<Rightarrow> stream_machine \<Rightarrow> (stream_error + unit) \<times> stream_machine" where
  "complete_close disposition facts self = complete_close_with_failure disposition facts None self"

definition complete_close_failure ::
    "disposition \<Rightarrow> facts \<Rightarrow> error_code \<Rightarrow> effect \<Rightarrow> stream_machine \<Rightarrow> (stream_error + unit) \<times> stream_machine" where
  "complete_close_failure disposition facts code effect self =
     complete_close_with_failure disposition facts
       (Some \<lparr>fail_code = code, fail_effect = effect, fail_facts = None, fail_setup_cause = None,
          fail_detail = None\<rparr>) self"

definition set_io_state :: "io_state \<Rightarrow> stream_machine \<Rightarrow> (stream_error + unit) \<times> stream_machine" where
  "set_io_state state self =
     (if cfg_side (sm_config self) \<noteq> Side_Endpoint then (Inl Stream_WrongSide, self)
      else
       (case stream_live self of
         Inl e \<Rightarrow> (Inl e, self)
       | Inr _ \<Rightarrow>
           if is_some (sm_close_deadline self) \<or> sm_close_received self then (Inl Stream_WrongState, self)
           else
             (case expire_io_if_due self of
               (Inl e, self) \<Rightarrow> (Inl e, self)
             | (Inr _, self) \<Rightarrow>
                 let before = io_clock_status (sm_now self) (sm_io self);
                     self = self\<lparr>sm_io := io_set_state (sm_now self) state (sm_io self)\<rparr>
                 in
                 if ios_state before = state then (Inr (), self)
                 else if io_due (sm_now self) (sm_io self)
                 then (Inl Stream_Timeout, stream_fail Stream_Timeout True self)
                 else (Inr (), self))))"

definition record_io_progress :: "usize \<Rightarrow> stream_machine \<Rightarrow> (stream_error + unit) \<times> stream_machine" where
  "record_io_progress transferred self =
     (if cfg_side (sm_config self) \<noteq> Side_Endpoint then (Inl Stream_WrongSide, self)
      else
       (case stream_live self of
         Inl e \<Rightarrow> (Inl e, self)
       | Inr _ \<Rightarrow>
           if is_some (sm_close_deadline self) \<or> sm_close_received self then (Inl Stream_WrongState, self)
           else
             (case expire_io_if_due self of
               (Inl e, self) \<Rightarrow> (Inl e, self)
             | (Inr _, self) \<Rightarrow>
                 (case io_progress (sm_now self) transferred (cfg_io_timeout_ms (sm_config self)) (sm_io self) of
                   (r, io) \<Rightarrow> (r, self\<lparr>sm_io := io\<rparr>)))))"

definition stream_io_status :: "stream_machine \<Rightarrow> io_status" where
  "stream_io_status self = io_clock_status (sm_now self) (sm_io self)"

section \<open>Time and reports\<close>

definition stream_advance :: "u64 \<Rightarrow> stream_machine \<Rightarrow> stream_machine" where
  "stream_advance now_ms self =
     (if now_ms < sm_now self then self
      else
        let was_due = is_some_and (\<lambda>at. sm_now self \<ge> at) (sm_batch_deadline self);
            self = self\<lparr>sm_now := now_ms\<rparr>
        in
        if stream_terminal self then self
        else if io_expired self then stream_fail Stream_Timeout True self
        else if \<not> was_due \<and> is_some_and (\<lambda>at. sm_now self \<ge> at) (sm_batch_deadline self) then touch self
        else self)"

definition next_deadline :: "stream_machine \<Rightarrow> u64 option" where
  "next_deadline self =
     (if stream_terminal self then None
      else
        let batch = (case sm_batch_deadline self of
              Some at \<Rightarrow> if at > sm_now self \<and> \<not> sm_force_send self then Some at else None
            | None \<Rightarrow> None)
        in opt_min (opt_min (ioc_deadline (sm_io self)) batch) (sm_close_deadline self))"

definition stats :: "stream_machine \<Rightarrow> snapshot" where
  "stats self =
     \<lparr>snap_send_buffer = length (sm_send self), snap_received_buffer = length (sm_recv self),
      snap_peak_send_buffer = sm_peak_send self, snap_peak_received_buffer = sm_peak_recv self,
      snap_sent = sm_sent self, snap_received = sm_received self, snap_consumed = sm_consumed self,
      snap_peer_limit = sm_peer_limit self, snap_advertised_limit = sm_advertised_limit self,
      snap_end_sent = sm_end_sent self, snap_end_received = sm_end_received self,
      snap_terminal = stream_terminal self\<rparr>"

section \<open>Incoming messages\<close>

text \<open>
  The cases of \<open>accept\<close>, one function each. Each checks its message before it changes
  anything, so an error leaves no new state; a success ends with \<open>touch\<close>, except for a window
  that brings no credit, which returns early.
\<close>

definition accept_data :: "envelope \<Rightarrow> stream_machine \<Rightarrow> stream_error + stream_machine" where
  "accept_data message self =
     and_then (ok_or Stream_Protocol (env_data message)) (\<lambda>data.
     let n = length (data_payload data) in
     and_then (ok_or Stream_Protocol (checked_add_i64 (data_offset data) (int n))) (\<lambda>stop.
     and_then (refuse_if
       (sm_end_received self
        \<or> data_offset data \<noteq> sm_received self
        \<or> data_payload data = []
        \<or> n > cfg_max_payload (sm_config self)
        \<or> stop > sm_advertised_limit self) Stream_Protocol) (\<lambda>_.
     if sm_discarding self then
       Inr (touch (self\<lparr>sm_consumed := stop, sm_discarded := True, sm_received := stop\<rparr>))
     else
       and_then (refuse_if (length (sm_recv self) + n > cfg_receive_window (sm_config self))
         Stream_Protocol) (\<lambda>_.
       let recv = sm_recv self @ data_payload data in
       Inr (touch (self\<lparr>sm_recv := recv, sm_peak_recv := max (sm_peak_recv self) (length recv),
         sm_received := stop\<rparr>))))))"

definition accept_window :: "envelope \<Rightarrow> stream_machine \<Rightarrow> stream_error + stream_machine" where
  "accept_window message self =
     and_then (ok_or Stream_Protocol (env_window message)) (\<lambda>window.
     let limit = window_max_offset window in
     if limit \<le> sm_peer_limit self then Inr self
     else
       and_then (refuse_if
         (limit > saturating_add_i64 (sm_sent self) (int (cfg_peer_receive_window (sm_config self))))
         Stream_Protocol) (\<lambda>_.
       Inr (touch (self\<lparr>sm_peer_limit := limit\<rparr>))))"

definition accept_flush :: "envelope \<Rightarrow> stream_machine \<Rightarrow> stream_error + stream_machine" where
  "accept_flush message self =
     and_then (ok_or Stream_Protocol (env_flush message)) (\<lambda>barrier.
     and_then (refuse_if
       (is_some (sm_peer_flush self)
        \<or> barrier_barrier_id barrier \<le> sm_peer_flush_serial self
        \<or> barrier_offset barrier \<noteq> sm_received self
        \<or> sm_end_received self) Stream_Protocol) (\<lambda>_.
     Inr (touch (self\<lparr>sm_peer_flush_serial := barrier_barrier_id barrier,
       sm_peer_flush := Some barrier\<rparr>))))"

definition accept_flushed :: "envelope \<Rightarrow> stream_machine \<Rightarrow> stream_error + stream_machine" where
  "accept_flushed message self =
     and_then (ok_or Stream_Protocol (env_flushed message)) (\<lambda>barrier.
     and_then (ok_or Stream_Protocol (sm_flush self)) (\<lambda>pending.
     and_then (refuse_if
       (\<not> pf_sent pending
        \<or> pf_id pending \<noteq> barrier_barrier_id barrier
        \<or> pf_offset pending \<noteq> barrier_offset barrier) Stream_Protocol) (\<lambda>_.
     Inr (touch (self\<lparr>sm_flush_acked := pf_id pending, sm_flush := None\<rparr>)))))"

definition accept_end_write :: "envelope \<Rightarrow> stream_machine \<Rightarrow> stream_error + stream_machine" where
  "accept_end_write message self =
     and_then (ok_or Stream_Protocol (env_end_write message)) (\<lambda>e.
     and_then (refuse_if (endw_final_offset e \<noteq> sm_received self) Stream_Protocol) (\<lambda>_.
     Inr (touch (self\<lparr>sm_end_received := True\<rparr>))))"

definition accept_close :: "envelope \<Rightarrow> stream_machine \<Rightarrow> stream_error + stream_machine" where
  "accept_close message self =
     and_then (refuse_if
       (cfg_side (sm_config self) \<noteq> Side_Endpoint \<or> \<not> sm_end_received self) Stream_Protocol) (\<lambda>_.
     and_then (ok_or Stream_Protocol (env_close message)) (\<lambda>c.
     and_then (refuse_if (close_final_offset c \<noteq> sm_received self) Stream_Protocol) (\<lambda>_.
     Inr (touch
       (if \<not> sm_close_received self then
          (stop_io_clock (self\<lparr>sm_close_received := True\<rparr>))
            \<lparr>sm_close_deadline :=
               Some (saturating_add_u64 (sm_now self) (cfg_close_timeout_ms (sm_config self)))\<rparr>
        else self)))))"

definition accept_closed :: "envelope \<Rightarrow> stream_machine \<Rightarrow> stream_error + stream_machine" where
  "accept_closed message self =
     and_then (refuse_if
       (cfg_side (sm_config self) \<noteq> Side_Initiator \<or> \<not> sm_close_sent self \<or> \<not> sm_end_received self)
       Stream_Protocol) (\<lambda>_.
     and_then (ok_or Stream_Protocol (env_closed message)) (\<lambda>closed.
     Inr (touch
       (case closed_failure closed of
         Some failure \<Rightarrow>
           (stream_fail (Stream_PeerFailed (fail_code failure) (fail_effect failure)) False
              (self\<lparr>sm_failure_facts := Some (closed_facts closed)\<rparr>))
             \<lparr>sm_retained_failure := Some failure\<rparr>
       | None \<Rightarrow>
           self\<lparr>sm_completed := Some
             \<lparr>cr_disposition = closed_disposition closed,
              cr_unread_response_discarded =
                (sm_discarded self \<or> closed_unread_response_discarded closed),
              cr_facts = closed_facts closed\<rparr>\<rparr>))))"

definition accept_cancel :: "envelope \<Rightarrow> stream_machine \<Rightarrow> stream_error + stream_machine" where
  "accept_cancel message self =
     and_then (ok_or Stream_Protocol (env_cancel message)) (\<lambda>c.
     Inr (touch (stream_fail
       (if cancel_reason c = Code_Timeout then Stream_Timeout else Stream_Cancelled) False self)))"

definition accept_failed :: "envelope \<Rightarrow> stream_machine \<Rightarrow> stream_error + stream_machine" where
  "accept_failed message self =
     and_then (ok_or Stream_Protocol (env_failed message)) (\<lambda>failure.
     Inr (touch
       ((stream_fail (Stream_PeerFailed (fail_code failure) (fail_effect failure)) False
           (self\<lparr>sm_failure_facts := fail_facts failure\<rparr>))
          \<lparr>sm_retained_failure := Some failure\<rparr>)))"

definition accept_body :: "envelope \<Rightarrow> stream_machine \<Rightarrow> stream_error + stream_machine" where
  "accept_body message self =
     (case env_kind message of
       Kind_Data \<Rightarrow> accept_data message self
     | Kind_Window \<Rightarrow> accept_window message self
     | Kind_Flush \<Rightarrow> accept_flush message self
     | Kind_Flushed \<Rightarrow> accept_flushed message self
     | Kind_EndWrite \<Rightarrow> accept_end_write message self
     | Kind_Close \<Rightarrow> accept_close message self
     | Kind_Closed \<Rightarrow> accept_closed message self
     | Kind_Cancel \<Rightarrow> accept_cancel message self
     | Kind_Failed \<Rightarrow> accept_failed message self
     | _ \<Rightarrow> Inl Stream_Protocol)"

definition stream_accept :: "envelope \<Rightarrow> stream_machine \<Rightarrow> stream_error + stream_machine" where
  "stream_accept message self =
     and_then (refuse_if
       (env_session_id message \<noteq> cfg_session_id (sm_config self)
        \<or> env_stream_id message \<noteq> cfg_stream_id (sm_config self)
        \<or> env_version message \<noteq> cfg_profile_version (sm_config self)) Stream_Protocol) (\<lambda>_.
     and_then (map_err (\<lambda>_. Stream_Protocol)
       (admit_limited message (cfg_receive_limits (sm_config self)))) (\<lambda>_.
     accept_body message self))"

definition stream_receive :: "envelope \<Rightarrow> stream_machine \<Rightarrow> (stream_error + unit) \<times> stream_machine" where
  "stream_receive message self =
     (if stream_terminal self then (Inr (), self)
      else
       (case expire_io_if_due self of
         (Inl e, self) \<Rightarrow> (Inl e, self)
       | (Inr _, self) \<Rightarrow>
           (case stream_accept message self of
             Inl e \<Rightarrow> (Inl e, stream_fail Stream_Protocol True self)
           | Inr self \<Rightarrow> (Inr (), self))))"

section \<open>Outgoing messages\<close>

text \<open>
  The steps of \<open>next_message\<close>, each giving a message and the new state, or nothing when its
  condition does not hold and the next step is tried.
\<close>

definition sink_offset :: "stream_machine \<Rightarrow> i64" where
  "sink_offset self =
     (if cfg_side (sm_config self) = Side_Initiator then sm_received self else sm_consumed self)"

definition emit_flushed :: "stream_machine \<Rightarrow> (envelope \<times> stream_machine) option" where
  "emit_flushed self =
     (if is_some_and (\<lambda>barrier. barrier_offset barrier \<le> sink_offset self) (sm_peer_flush self) then
        Some ((stream_envelope Kind_Flushed self)\<lparr>env_flushed := sm_peer_flush self\<rparr>,
              touch (self\<lparr>sm_peer_flush := None\<rparr>))
      else None)"

definition emit_window :: "stream_machine \<Rightarrow> (envelope \<times> stream_machine) option" where
  "emit_window self =
     (let limit = saturating_add_i64 (sm_consumed self) (int (cfg_receive_window (sm_config self))) in
      if limit > sm_advertised_limit self then
        Some ((stream_envelope Kind_Window self)\<lparr>env_window := Some \<lparr>window_max_offset = limit\<rparr>\<rparr>,
              touch (self\<lparr>sm_advertised_limit := limit\<rparr>))
      else None)"

definition emit_closed :: "stream_machine \<Rightarrow> (envelope \<times> stream_machine) option" where
  "emit_closed self =
     (case sm_close_pending self of
       Some closed \<Rightarrow>
         Some ((stream_envelope Kind_Closed self)\<lparr>env_closed := Some closed\<rparr>,
               touch (self\<lparr>sm_close_pending := None, sm_completed := Some
                 \<lparr>cr_disposition = closed_disposition closed,
                  cr_unread_response_discarded = closed_unread_response_discarded closed,
                  cr_facts = closed_facts closed\<rparr>\<rparr>))
     | None \<Rightarrow> None)"

definition emit_flush :: "stream_machine \<Rightarrow> (envelope \<times> stream_machine) option" where
  "emit_flush self =
     (case sm_flush self of
       Some flush \<Rightarrow>
         if \<not> pf_sent flush \<and> sm_sent self = pf_offset flush then
           Some ((stream_envelope Kind_Flush self)
                   \<lparr>env_flush := Some \<lparr>barrier_barrier_id = pf_id flush, barrier_offset = pf_offset flush\<rparr>\<rparr>,
                 touch (self\<lparr>sm_flush := Some (flush\<lparr>pf_sent := True\<rparr>)\<rparr>))
         else None
     | None \<Rightarrow> None)"

definition send_eligible :: "stream_machine \<Rightarrow> bool" where
  "send_eligible self \<longleftrightarrow>
     sm_force_send self
     \<or> length (sm_send self) \<ge> cfg_max_payload (sm_config self)
     \<or> length (sm_send self) = cfg_send_buffer (sm_config self)
     \<or> is_some_and (\<lambda>at. sm_now self \<ge> at) (sm_batch_deadline self)"

text \<open>The bytes of a data message leave the buffer, and with the last one the reasons to hurry.\<close>

definition send_drain :: "usize \<Rightarrow> stream_machine \<Rightarrow> stream_machine" where
  "send_drain n self =
     (let self = self\<lparr>sm_send := drop n (sm_send self), sm_sent := sm_sent self + int n\<rparr>
      in if sm_send self = [] then self\<lparr>sm_batch_deadline := None, sm_force_send := False\<rparr> else self)"

definition emit_data :: "stream_machine \<Rightarrow> (envelope \<times> stream_machine) option" where
  "emit_data self =
     (let credit = i64_as_usize (sm_peer_limit self - sm_sent self) in
      if sm_send self \<noteq> [] \<and> send_eligible self \<and> credit > 0 then
        let n = min (min (length (sm_send self)) (cfg_max_payload (sm_config self))) credit;
            data = \<lparr>data_offset = sm_sent self, data_payload = take n (sm_send self)\<rparr>;
            self = send_drain n self
        in Some ((stream_envelope Kind_Data self)\<lparr>env_data := Some data\<rparr>, touch self)
      else None)"

definition emit_end_write :: "stream_machine \<Rightarrow> (envelope \<times> stream_machine) option" where
  "emit_end_write self =
     (if sm_end_requested self \<and> \<not> sm_end_sent self \<and> sm_send self = [] then
        Some ((stream_envelope Kind_EndWrite self)
                \<lparr>env_end_write := Some \<lparr>endw_final_offset = sm_sent self\<rparr>\<rparr>,
              touch (self\<lparr>sm_end_sent := True\<rparr>))
      else None)"

definition emit_close :: "stream_machine \<Rightarrow> (envelope \<times> stream_machine) option" where
  "emit_close self =
     (if cfg_side (sm_config self) = Side_Initiator \<and> is_some (sm_close_deadline self)
         \<and> sm_end_sent self \<and> \<not> sm_close_sent self then
        Some ((stream_envelope Kind_Close self)
                \<lparr>env_close := Some \<lparr>close_final_offset = sm_sent self\<rparr>\<rparr>,
              touch (self\<lparr>sm_close_sent := True\<rparr>))
      else None)"

text \<open>The first of the steps that gives a message.\<close>

fun first_emit :: "(stream_machine \<Rightarrow> (envelope \<times> stream_machine) option) list
    \<Rightarrow> stream_machine \<Rightarrow> envelope option \<times> stream_machine" where
  "first_emit [] self = (None, self)"
| "first_emit (f # fs) self =
     (case f self of Some (message, self') \<Rightarrow> (Some message, self') | None \<Rightarrow> first_emit fs self)"

definition next_message :: "stream_machine \<Rightarrow> envelope option \<times> stream_machine" where
  "next_message self =
     (case sm_terminal_message self of
       Some message \<Rightarrow> (Some message, touch (self\<lparr>sm_terminal_message := None\<rparr>))
     | None \<Rightarrow>
         if stream_terminal self then (None, self)
         else first_emit [emit_flushed, emit_window, emit_closed, emit_flush, emit_data,
                emit_end_write, emit_close] self)"

end
