(* ===== verification/Stream_Invariant.thy ===== *)
theory Stream_Invariant
  imports Stream
begin

text \<open>
  The stream machine keeps its invariant. Each operation is first described by the forms its
  result can take, then shown to preserve the invariant, which has one predicate for each
  group of fields. The forms are also what the theory of two connected machines builds on.
\<close>

section \<open>The invariant\<close>

text \<open>The send buffer, the credit the peer gave and what was sent under it.\<close>

definition send_inv :: "stream_machine \<Rightarrow> bool" where
  "send_inv s \<longleftrightarrow>
     length (sm_send s) \<le> sm_peak_send s \<and> sm_peak_send s \<le> cfg_send_buffer (sm_config s)
     \<and> 0 \<le> sm_sent s \<and> sm_sent s \<le> sm_peer_limit s \<and> sm_peer_limit s \<le> i64_max
     \<and> sm_peer_limit s \<le> sm_sent s + int (cfg_peer_receive_window (sm_config s))
     \<and> sm_sent s + int (length (sm_send s)) \<le> i64_max
     \<and> (sm_end_sent s \<longrightarrow> sm_end_requested s \<and> sm_send s = [])"

text \<open>The receive buffer and the credit given to the peer.\<close>

definition recv_inv :: "stream_machine \<Rightarrow> bool" where
  "recv_inv s \<longleftrightarrow>
     length (sm_recv s) \<le> sm_peak_recv s \<and> sm_peak_recv s \<le> cfg_receive_window (sm_config s)
     \<and> 0 \<le> sm_consumed s \<and> sm_consumed s + int (length (sm_recv s)) = sm_received s
     \<and> sm_received s \<le> sm_advertised_limit s \<and> sm_advertised_limit s \<le> i64_max
     \<and> sm_advertised_limit s \<le> sm_consumed s + int (cfg_receive_window (sm_config s))
     \<and> (sm_discarding s \<longrightarrow> sm_recv s = [])"

text \<open>The own flush barrier covers everything written; a barrier of the peer has been reached.\<close>

definition flush_inv :: "stream_machine \<Rightarrow> bool" where
  "flush_inv s \<longleftrightarrow>
     0 \<le> sm_flush_acked s \<and> sm_flush_acked s \<le> sm_flush_serial s \<and> sm_flush_serial s \<le> i64_max
     \<and> (\<forall>f. sm_flush s = Some f \<longrightarrow>
          pf_id f = sm_flush_serial s \<and> sm_flush_acked s < pf_id f
          \<and> pf_offset f = sm_sent s + int (length (sm_send s)) \<and> (pf_sent f \<longrightarrow> sm_send s = [])
          \<and> (sm_end_sent s \<longrightarrow> pf_sent f))
     \<and> 0 \<le> sm_peer_flush_serial s
     \<and> (\<forall>b. sm_peer_flush s = Some b \<longrightarrow>
          barrier_barrier_id b = sm_peer_flush_serial s \<and> 0 < sm_peer_flush_serial s
          \<and> 0 \<le> barrier_offset b \<and> barrier_offset b \<le> sm_received s)"

text \<open>The order of the closing handshake.\<close>

definition close_inv :: "stream_machine \<Rightarrow> bool" where
  "close_inv s \<longleftrightarrow>
     (sm_close_sent s \<longrightarrow> sm_end_sent s \<and> cfg_side (sm_config s) = Side_Initiator)
     \<and> (sm_close_received s \<longrightarrow> sm_end_received s \<and> cfg_side (sm_config s) = Side_Endpoint)
     \<and> (sm_discarding s \<longrightarrow> sm_end_requested s \<and> cfg_side (sm_config s) = Side_Initiator)"

text \<open>What a queued closing report presupposes.\<close>

definition pending_inv :: "stream_machine \<Rightarrow> bool" where
  "pending_inv s \<longleftrightarrow>
     (sm_close_pending s \<noteq> None \<longrightarrow>
        sm_close_received s \<and> sm_end_sent s \<and> sm_recv s = [] \<and> sm_flush s = None \<and> sm_peer_flush s = None)"

text \<open>What a completed stream presupposes.\<close>

definition done_inv :: "stream_machine \<Rightarrow> bool" where
  "done_inv s \<longleftrightarrow>
     (sm_completed s \<noteq> None \<longrightarrow>
        sm_error s = None \<and> sm_end_sent s \<and> sm_end_received s
        \<and> (if cfg_side (sm_config s) = Side_Initiator then sm_close_sent s
           else sm_close_received s \<and> sm_recv s = []))"

text \<open>A failed stream has nothing to send but its last message.\<close>

definition dead_inv :: "stream_machine \<Rightarrow> bool" where
  "dead_inv s \<longleftrightarrow>
     (if sm_error s \<noteq> None
      then sm_send s = [] \<and> sm_flush s = None \<and> sm_peer_flush s = None \<and> sm_close_pending s = None
      else sm_terminal_message s = None)"

text \<open>The activity clock of a live stream; the initiator never runs it.\<close>

definition io_inv :: "stream_machine \<Rightarrow> bool" where
  "io_inv s \<longleftrightarrow>
     (\<not> stream_terminal s \<longrightarrow> io_wf (cfg_io_timeout_ms (sm_config s)) (sm_io s)
        \<and> (cfg_side (sm_config s) = Side_Initiator \<longrightarrow> ioc_state (sm_io s) = Io_Idle))"

definition sm_inv :: "stream_machine \<Rightarrow> bool" where
  "sm_inv s \<longleftrightarrow> validate_config (sm_config s) = Inr () \<and> send_inv s \<and> recv_inv s \<and> flush_inv s
     \<and> close_inv s \<and> pending_inv s \<and> done_inv s \<and> dead_inv s \<and> io_inv s"

section \<open>Histories of one machine\<close>

datatype stream_op =
    Op_Write "byte list"
  | Op_Read usize
  | Op_StartFlush
  | Op_EndWrite
  | Op_StartClose
  | Op_Cancel
  | Op_Disconnect
  | Op_FailTerminal failure
  | Op_CompleteClose disposition facts "failure option"
  | Op_SetIoState io_state
  | Op_RecordIoProgress usize
  | Op_Advance u64
  | Op_Receive envelope
  | Op_NextMessage

fun stream_apply :: "stream_op \<Rightarrow> stream_machine \<Rightarrow> stream_machine" where
  "stream_apply (Op_Write input) s = snd (stream_write input s)"
| "stream_apply (Op_Read n) s = snd (stream_read n s)"
| "stream_apply Op_StartFlush s = snd (start_flush s)"
| "stream_apply Op_EndWrite s = snd (end_write s)"
| "stream_apply Op_StartClose s = snd (start_close s)"
| "stream_apply Op_Cancel s = cancel s"
| "stream_apply Op_Disconnect s = disconnect s"
| "stream_apply (Op_FailTerminal f) s = snd (fail_terminal f s)"
| "stream_apply (Op_CompleteClose d fa f) s = snd (complete_close_with_failure d fa f s)"
| "stream_apply (Op_SetIoState st) s = snd (set_io_state st s)"
| "stream_apply (Op_RecordIoProgress n) s = snd (record_io_progress n s)"
| "stream_apply (Op_Advance t) s = stream_advance t s"
| "stream_apply (Op_Receive m) s = snd (stream_receive m s)"
| "stream_apply Op_NextMessage s = snd (next_message s)"

definition stream_step :: "stream_machine \<Rightarrow> stream_machine \<Rightarrow> bool" where
  "stream_step s s' \<longleftrightarrow> (\<exists>op. s' = stream_apply op s)"

definition stream_start :: "stream_machine \<Rightarrow> bool" where
  "stream_start s \<longleftrightarrow> (\<exists>c. stream_new c = Inr s)"

text \<open>What is final: the outcome and the evidence of a stream that has one.\<close>

definition outcome :: "stream_machine \<Rightarrow> stream_error option \<times> close_result option \<times> failure option \<times> facts option" where
  "outcome s = (sm_error s, sm_completed s, sm_retained_failure s, sm_failure_facts s)"

text \<open>The state after a data message that passed every check.\<close>

definition data_taken :: "data_msg \<Rightarrow> stream_machine \<Rightarrow> stream_machine" where
  "data_taken d s =
     (let stop = data_offset d + int (length (data_payload d)) in
      touch (if sm_discarding s then s\<lparr>sm_consumed := stop, sm_discarded := True, sm_received := stop\<rparr>
        else s\<lparr>sm_recv := sm_recv s @ data_payload d,
          sm_peak_recv := max (sm_peak_recv s) (length (sm_recv s @ data_payload d)), sm_received := stop\<rparr>))"

text \<open>The state after a closing report that passed every check.\<close>

definition closed_taken :: "closed_msg \<Rightarrow> stream_machine \<Rightarrow> stream_machine" where
  "closed_taken c s = touch (case closed_failure c of
       Some f \<Rightarrow> (stream_fail (Stream_PeerFailed (fail_code f) (fail_effect f)) False
           (s\<lparr>sm_failure_facts := Some (closed_facts c)\<rparr>))\<lparr>sm_retained_failure := Some f\<rparr>
     | None \<Rightarrow> s\<lparr>sm_completed := Some
           \<lparr>cr_disposition = closed_disposition c,
            cr_unread_response_discarded = (sm_discarded s \<or> closed_unread_response_discarded c),
            cr_facts = closed_facts c\<rparr>\<rparr>)"

text \<open>A machine with the default configuration.\<close>

definition sample_machine :: "side \<Rightarrow> stream_machine" where
  "sample_machine sd = projr (stream_new (config_new ''s'' 1 sd))"

section \<open>What the shared steps leave unchanged\<close>

lemma stream_terminal_iff: "stream_terminal s \<longleftrightarrow> sm_error s \<noteq> None \<or> sm_completed s \<noteq> None"
  by (simp add: stream_terminal_def is_some_def)

lemma stream_live_ok: "stream_live s = Inr u \<longleftrightarrow> \<not> stream_terminal s"
  by (cases "sm_error s") (simp_all add: stream_live_def stream_terminal_iff is_some_def)

lemma stream_live_cases:
  "(if stream_terminal s then \<exists>e. stream_live s = Inl e else stream_live s = Inr ())"
  by (cases "sm_error s") (auto simp: stream_live_def stream_terminal_iff is_some_def refuse_if_def)

lemma touch_simps [simp]:
  "sm_config (touch s) = sm_config s" "sm_send (touch s) = sm_send s" "sm_recv (touch s) = sm_recv s"
  "sm_now (touch s) = sm_now s" "sm_io (touch s) = sm_io s" "sm_batch_deadline (touch s) = sm_batch_deadline s"
  "sm_force_send (touch s) = sm_force_send s" "sm_sent (touch s) = sm_sent s" "sm_received (touch s) = sm_received s"
  "sm_consumed (touch s) = sm_consumed s" "sm_peer_limit (touch s) = sm_peer_limit s" "sm_advertised_limit (touch s) = sm_advertised_limit s"
  "sm_end_requested (touch s) = sm_end_requested s" "sm_end_sent (touch s) = sm_end_sent s" "sm_end_received (touch s) = sm_end_received s"
  "sm_flush (touch s) = sm_flush s" "sm_flush_serial (touch s) = sm_flush_serial s" "sm_flush_acked (touch s) = sm_flush_acked s"
  "sm_peer_flush (touch s) = sm_peer_flush s" "sm_peer_flush_serial (touch s) = sm_peer_flush_serial s" "sm_close_deadline (touch s) = sm_close_deadline s"
  "sm_close_sent (touch s) = sm_close_sent s" "sm_close_received (touch s) = sm_close_received s" "sm_discarding (touch s) = sm_discarding s"
  "sm_discarded (touch s) = sm_discarded s" "sm_close_pending (touch s) = sm_close_pending s" "sm_completed (touch s) = sm_completed s"
  "sm_error (touch s) = sm_error s" "sm_failure_facts (touch s) = sm_failure_facts s" "sm_retained_failure (touch s) = sm_retained_failure s"
  "sm_terminal_message (touch s) = sm_terminal_message s" "sm_peak_send (touch s) = sm_peak_send s" "sm_peak_recv (touch s) = sm_peak_recv s"
  by (simp_all add: touch_def)

lemma stream_fail_simps [simp]:
  "sm_config (stream_fail e b s) = sm_config s" "sm_recv (stream_fail e b s) = sm_recv s"
  "sm_now (stream_fail e b s) = sm_now s" "sm_force_send (stream_fail e b s) = sm_force_send s"
  "sm_sent (stream_fail e b s) = sm_sent s" "sm_received (stream_fail e b s) = sm_received s"
  "sm_consumed (stream_fail e b s) = sm_consumed s" "sm_peer_limit (stream_fail e b s) = sm_peer_limit s"
  "sm_advertised_limit (stream_fail e b s) = sm_advertised_limit s" "sm_end_requested (stream_fail e b s) = sm_end_requested s"
  "sm_end_sent (stream_fail e b s) = sm_end_sent s" "sm_end_received (stream_fail e b s) = sm_end_received s"
  "sm_flush_serial (stream_fail e b s) = sm_flush_serial s" "sm_flush_acked (stream_fail e b s) = sm_flush_acked s"
  "sm_peer_flush_serial (stream_fail e b s) = sm_peer_flush_serial s" "sm_close_deadline (stream_fail e b s) = sm_close_deadline s"
  "sm_close_sent (stream_fail e b s) = sm_close_sent s" "sm_close_received (stream_fail e b s) = sm_close_received s"
  "sm_discarding (stream_fail e b s) = sm_discarding s" "sm_discarded (stream_fail e b s) = sm_discarded s"
  "sm_completed (stream_fail e b s) = sm_completed s" "sm_failure_facts (stream_fail e b s) = sm_failure_facts s"
  "sm_retained_failure (stream_fail e b s) = sm_retained_failure s" "sm_peak_send (stream_fail e b s) = sm_peak_send s"
  "sm_peak_recv (stream_fail e b s) = sm_peak_recv s"
  by (simp_all add: stream_fail_def)

lemma touch_terminal [simp]: "stream_terminal (touch s) = stream_terminal s"
  by (simp add: stream_terminal_iff)

lemma stream_fail_terminal [simp]: "stream_terminal s \<Longrightarrow> stream_fail e b s = s"
  by (simp add: stream_fail_def)

lemma stream_fail_live [simp]:
  "\<not> stream_terminal s \<Longrightarrow> sm_error (stream_fail e b s) = Some e"
  "\<not> stream_terminal s \<Longrightarrow> sm_send (stream_fail e b s) = []"
  "\<not> stream_terminal s \<Longrightarrow> sm_flush (stream_fail e b s) = None"
  "\<not> stream_terminal s \<Longrightarrow> sm_peer_flush (stream_fail e b s) = None"
  "\<not> stream_terminal s \<Longrightarrow> sm_close_pending (stream_fail e b s) = None"
  "\<not> stream_terminal s \<Longrightarrow> sm_terminal_message (stream_fail e b s) =
     (if b then Some (failure_notice e s) else sm_terminal_message s)"
  by (simp_all add: stream_fail_def)

lemmas inv_defs = sm_inv_def send_inv_def recv_inv_def flush_inv_def close_inv_def pending_inv_def
  done_inv_def dead_inv_def io_inv_def

lemma validate_config_ok:
  assumes "validate_config c = Inr ()"
  shows "validate_limits (cfg_receive_limits c) = Inr ()" "usable (cfg_receive_limits c) = Inr ()"
    "validate_limits (cfg_peer_limits c) = Inr ()" "usable (cfg_peer_limits c) = Inr ()"
    "cfg_session_id c \<noteq> []" "length (cfg_session_id c) \<le> 128" "0 < cfg_stream_id c"
    "1 \<le> cfg_profile_version c" "cfg_profile_version c \<le> 2"
    "0 < cfg_send_buffer c" "cfg_send_buffer c \<le> 4194304"
    "0 < cfg_receive_window c" "cfg_receive_window c \<le> 4194304"
    "0 < cfg_peer_receive_window c" "cfg_peer_receive_window c \<le> 4194304"
    "0 < cfg_max_payload c" "cfg_max_payload c \<le> 65536"
    "admit_limited (config_probe c) (cfg_receive_limits c) = Inr ()"
    "admit_limited (config_probe c) (cfg_peer_limits c) = Inr ()"
  using assms by (auto simp: validate_config_def and_then_eq_Inr)

lemma new_inv: "stream_new c = Inr s \<Longrightarrow> sm_inv s"
  using validate_config_ok [of c]
  by (auto simp: stream_new_def and_then_eq_Inr inv_defs i64_max_def io_new_wf) (simp add: io_new_def)

section \<open>Frames\<close>

lemma send_inv_frame [simp]:
  "send_inv (sm_recv_update x0 s) = send_inv s" "send_inv (sm_now_update x1 s) = send_inv s"
  "send_inv (sm_io_update x2 s) = send_inv s" "send_inv (sm_batch_deadline_update x3 s) = send_inv s"
  "send_inv (sm_force_send_update x4 s) = send_inv s" "send_inv (sm_received_update x5 s) = send_inv s"
  "send_inv (sm_consumed_update x6 s) = send_inv s" "send_inv (sm_advertised_limit_update x7 s) = send_inv s"
  "send_inv (sm_end_received_update x8 s) = send_inv s" "send_inv (sm_flush_update x9 s) = send_inv s"
  "send_inv (sm_flush_serial_update x10 s) = send_inv s" "send_inv (sm_flush_acked_update x11 s) = send_inv s"
  "send_inv (sm_peer_flush_update x12 s) = send_inv s" "send_inv (sm_peer_flush_serial_update x13 s) = send_inv s"
  "send_inv (sm_close_deadline_update x14 s) = send_inv s" "send_inv (sm_close_sent_update x15 s) = send_inv s"
  "send_inv (sm_close_received_update x16 s) = send_inv s" "send_inv (sm_discarding_update x17 s) = send_inv s"
  "send_inv (sm_discarded_update x18 s) = send_inv s" "send_inv (sm_close_pending_update x19 s) = send_inv s"
  "send_inv (sm_completed_update x20 s) = send_inv s" "send_inv (sm_error_update x21 s) = send_inv s"
  "send_inv (sm_failure_facts_update x22 s) = send_inv s" "send_inv (sm_retained_failure_update x23 s) = send_inv s"
  "send_inv (sm_terminal_message_update x24 s) = send_inv s" "send_inv (sm_peak_recv_update x25 s) = send_inv s"
  "send_inv (sm_revision_update x26 s) = send_inv s"
  by (simp_all add: send_inv_def)

lemma recv_inv_frame [simp]:
  "recv_inv (sm_send_update x0 s) = recv_inv s" "recv_inv (sm_now_update x1 s) = recv_inv s"
  "recv_inv (sm_io_update x2 s) = recv_inv s" "recv_inv (sm_batch_deadline_update x3 s) = recv_inv s"
  "recv_inv (sm_force_send_update x4 s) = recv_inv s" "recv_inv (sm_sent_update x5 s) = recv_inv s"
  "recv_inv (sm_peer_limit_update x6 s) = recv_inv s" "recv_inv (sm_end_requested_update x7 s) = recv_inv s"
  "recv_inv (sm_end_sent_update x8 s) = recv_inv s" "recv_inv (sm_end_received_update x9 s) = recv_inv s"
  "recv_inv (sm_flush_update x10 s) = recv_inv s" "recv_inv (sm_flush_serial_update x11 s) = recv_inv s"
  "recv_inv (sm_flush_acked_update x12 s) = recv_inv s" "recv_inv (sm_peer_flush_update x13 s) = recv_inv s"
  "recv_inv (sm_peer_flush_serial_update x14 s) = recv_inv s" "recv_inv (sm_close_deadline_update x15 s) = recv_inv s"
  "recv_inv (sm_close_sent_update x16 s) = recv_inv s" "recv_inv (sm_close_received_update x17 s) = recv_inv s"
  "recv_inv (sm_discarded_update x18 s) = recv_inv s" "recv_inv (sm_close_pending_update x19 s) = recv_inv s"
  "recv_inv (sm_completed_update x20 s) = recv_inv s" "recv_inv (sm_error_update x21 s) = recv_inv s"
  "recv_inv (sm_failure_facts_update x22 s) = recv_inv s" "recv_inv (sm_retained_failure_update x23 s) = recv_inv s"
  "recv_inv (sm_terminal_message_update x24 s) = recv_inv s" "recv_inv (sm_peak_send_update x25 s) = recv_inv s"
  "recv_inv (sm_revision_update x26 s) = recv_inv s"
  by (simp_all add: recv_inv_def)

lemma flush_inv_frame [simp]:
  "flush_inv (sm_config_update x0 s) = flush_inv s" "flush_inv (sm_recv_update x1 s) = flush_inv s"
  "flush_inv (sm_now_update x2 s) = flush_inv s" "flush_inv (sm_io_update x3 s) = flush_inv s"
  "flush_inv (sm_batch_deadline_update x4 s) = flush_inv s" "flush_inv (sm_force_send_update x5 s) = flush_inv s"
  "flush_inv (sm_consumed_update x6 s) = flush_inv s" "flush_inv (sm_peer_limit_update x7 s) = flush_inv s"
  "flush_inv (sm_advertised_limit_update x8 s) = flush_inv s" "flush_inv (sm_end_requested_update x9 s) = flush_inv s"
  "flush_inv (sm_end_received_update x10 s) = flush_inv s" "flush_inv (sm_close_deadline_update x11 s) = flush_inv s"
  "flush_inv (sm_close_sent_update x12 s) = flush_inv s" "flush_inv (sm_close_received_update x13 s) = flush_inv s"
  "flush_inv (sm_discarding_update x14 s) = flush_inv s" "flush_inv (sm_discarded_update x15 s) = flush_inv s"
  "flush_inv (sm_close_pending_update x16 s) = flush_inv s" "flush_inv (sm_completed_update x17 s) = flush_inv s"
  "flush_inv (sm_error_update x18 s) = flush_inv s" "flush_inv (sm_failure_facts_update x19 s) = flush_inv s"
  "flush_inv (sm_retained_failure_update x20 s) = flush_inv s" "flush_inv (sm_terminal_message_update x21 s) = flush_inv s"
  "flush_inv (sm_peak_send_update x22 s) = flush_inv s" "flush_inv (sm_peak_recv_update x23 s) = flush_inv s"
  "flush_inv (sm_revision_update x24 s) = flush_inv s"
  by (simp_all add: flush_inv_def)

lemma close_inv_frame [simp]:
  "close_inv (sm_send_update x0 s) = close_inv s" "close_inv (sm_recv_update x1 s) = close_inv s"
  "close_inv (sm_now_update x2 s) = close_inv s" "close_inv (sm_io_update x3 s) = close_inv s"
  "close_inv (sm_batch_deadline_update x4 s) = close_inv s" "close_inv (sm_force_send_update x5 s) = close_inv s"
  "close_inv (sm_sent_update x6 s) = close_inv s" "close_inv (sm_received_update x7 s) = close_inv s"
  "close_inv (sm_consumed_update x8 s) = close_inv s" "close_inv (sm_peer_limit_update x9 s) = close_inv s"
  "close_inv (sm_advertised_limit_update x10 s) = close_inv s" "close_inv (sm_flush_update x11 s) = close_inv s"
  "close_inv (sm_flush_serial_update x12 s) = close_inv s" "close_inv (sm_flush_acked_update x13 s) = close_inv s"
  "close_inv (sm_peer_flush_update x14 s) = close_inv s" "close_inv (sm_peer_flush_serial_update x15 s) = close_inv s"
  "close_inv (sm_close_deadline_update x16 s) = close_inv s" "close_inv (sm_discarded_update x17 s) = close_inv s"
  "close_inv (sm_close_pending_update x18 s) = close_inv s" "close_inv (sm_completed_update x19 s) = close_inv s"
  "close_inv (sm_error_update x20 s) = close_inv s" "close_inv (sm_failure_facts_update x21 s) = close_inv s"
  "close_inv (sm_retained_failure_update x22 s) = close_inv s" "close_inv (sm_terminal_message_update x23 s) = close_inv s"
  "close_inv (sm_peak_send_update x24 s) = close_inv s" "close_inv (sm_peak_recv_update x25 s) = close_inv s"
  "close_inv (sm_revision_update x26 s) = close_inv s"
  by (simp_all add: close_inv_def)

lemma pending_inv_frame [simp]:
  "pending_inv (sm_config_update x0 s) = pending_inv s" "pending_inv (sm_send_update x1 s) = pending_inv s"
  "pending_inv (sm_now_update x2 s) = pending_inv s" "pending_inv (sm_io_update x3 s) = pending_inv s"
  "pending_inv (sm_batch_deadline_update x4 s) = pending_inv s" "pending_inv (sm_force_send_update x5 s) = pending_inv s"
  "pending_inv (sm_sent_update x6 s) = pending_inv s" "pending_inv (sm_received_update x7 s) = pending_inv s"
  "pending_inv (sm_consumed_update x8 s) = pending_inv s" "pending_inv (sm_peer_limit_update x9 s) = pending_inv s"
  "pending_inv (sm_advertised_limit_update x10 s) = pending_inv s" "pending_inv (sm_end_requested_update x11 s) = pending_inv s"
  "pending_inv (sm_end_received_update x12 s) = pending_inv s" "pending_inv (sm_flush_serial_update x13 s) = pending_inv s"
  "pending_inv (sm_flush_acked_update x14 s) = pending_inv s" "pending_inv (sm_peer_flush_serial_update x15 s) = pending_inv s"
  "pending_inv (sm_close_deadline_update x16 s) = pending_inv s" "pending_inv (sm_close_sent_update x17 s) = pending_inv s"
  "pending_inv (sm_discarding_update x18 s) = pending_inv s" "pending_inv (sm_discarded_update x19 s) = pending_inv s"
  "pending_inv (sm_completed_update x20 s) = pending_inv s" "pending_inv (sm_error_update x21 s) = pending_inv s"
  "pending_inv (sm_failure_facts_update x22 s) = pending_inv s" "pending_inv (sm_retained_failure_update x23 s) = pending_inv s"
  "pending_inv (sm_terminal_message_update x24 s) = pending_inv s" "pending_inv (sm_peak_send_update x25 s) = pending_inv s"
  "pending_inv (sm_peak_recv_update x26 s) = pending_inv s" "pending_inv (sm_revision_update x27 s) = pending_inv s"
  by (simp_all add: pending_inv_def)

lemma done_inv_frame [simp]:
  "done_inv (sm_send_update x0 s) = done_inv s" "done_inv (sm_now_update x1 s) = done_inv s"
  "done_inv (sm_io_update x2 s) = done_inv s" "done_inv (sm_batch_deadline_update x3 s) = done_inv s"
  "done_inv (sm_force_send_update x4 s) = done_inv s" "done_inv (sm_sent_update x5 s) = done_inv s"
  "done_inv (sm_received_update x6 s) = done_inv s" "done_inv (sm_consumed_update x7 s) = done_inv s"
  "done_inv (sm_peer_limit_update x8 s) = done_inv s" "done_inv (sm_advertised_limit_update x9 s) = done_inv s"
  "done_inv (sm_end_requested_update x10 s) = done_inv s" "done_inv (sm_flush_update x11 s) = done_inv s"
  "done_inv (sm_flush_serial_update x12 s) = done_inv s" "done_inv (sm_flush_acked_update x13 s) = done_inv s"
  "done_inv (sm_peer_flush_update x14 s) = done_inv s" "done_inv (sm_peer_flush_serial_update x15 s) = done_inv s"
  "done_inv (sm_close_deadline_update x16 s) = done_inv s" "done_inv (sm_discarding_update x17 s) = done_inv s"
  "done_inv (sm_discarded_update x18 s) = done_inv s" "done_inv (sm_close_pending_update x19 s) = done_inv s"
  "done_inv (sm_failure_facts_update x20 s) = done_inv s" "done_inv (sm_retained_failure_update x21 s) = done_inv s"
  "done_inv (sm_terminal_message_update x22 s) = done_inv s" "done_inv (sm_peak_send_update x23 s) = done_inv s"
  "done_inv (sm_peak_recv_update x24 s) = done_inv s" "done_inv (sm_revision_update x25 s) = done_inv s"
  by (simp_all add: done_inv_def)

lemma dead_inv_frame [simp]:
  "dead_inv (sm_config_update x0 s) = dead_inv s" "dead_inv (sm_recv_update x1 s) = dead_inv s"
  "dead_inv (sm_now_update x2 s) = dead_inv s" "dead_inv (sm_io_update x3 s) = dead_inv s"
  "dead_inv (sm_batch_deadline_update x4 s) = dead_inv s" "dead_inv (sm_force_send_update x5 s) = dead_inv s"
  "dead_inv (sm_sent_update x6 s) = dead_inv s" "dead_inv (sm_received_update x7 s) = dead_inv s"
  "dead_inv (sm_consumed_update x8 s) = dead_inv s" "dead_inv (sm_peer_limit_update x9 s) = dead_inv s"
  "dead_inv (sm_advertised_limit_update x10 s) = dead_inv s" "dead_inv (sm_end_requested_update x11 s) = dead_inv s"
  "dead_inv (sm_end_sent_update x12 s) = dead_inv s" "dead_inv (sm_end_received_update x13 s) = dead_inv s"
  "dead_inv (sm_flush_serial_update x14 s) = dead_inv s" "dead_inv (sm_flush_acked_update x15 s) = dead_inv s"
  "dead_inv (sm_peer_flush_serial_update x16 s) = dead_inv s" "dead_inv (sm_close_deadline_update x17 s) = dead_inv s"
  "dead_inv (sm_close_sent_update x18 s) = dead_inv s" "dead_inv (sm_close_received_update x19 s) = dead_inv s"
  "dead_inv (sm_discarding_update x20 s) = dead_inv s" "dead_inv (sm_discarded_update x21 s) = dead_inv s"
  "dead_inv (sm_completed_update x22 s) = dead_inv s" "dead_inv (sm_failure_facts_update x23 s) = dead_inv s"
  "dead_inv (sm_retained_failure_update x24 s) = dead_inv s" "dead_inv (sm_peak_send_update x25 s) = dead_inv s"
  "dead_inv (sm_peak_recv_update x26 s) = dead_inv s" "dead_inv (sm_revision_update x27 s) = dead_inv s"
  by (simp_all add: dead_inv_def)

lemma io_inv_frame [simp]:
  "io_inv (sm_send_update x0 s) = io_inv s" "io_inv (sm_recv_update x1 s) = io_inv s"
  "io_inv (sm_now_update x2 s) = io_inv s" "io_inv (sm_batch_deadline_update x3 s) = io_inv s"
  "io_inv (sm_force_send_update x4 s) = io_inv s" "io_inv (sm_sent_update x5 s) = io_inv s"
  "io_inv (sm_received_update x6 s) = io_inv s" "io_inv (sm_consumed_update x7 s) = io_inv s"
  "io_inv (sm_peer_limit_update x8 s) = io_inv s" "io_inv (sm_advertised_limit_update x9 s) = io_inv s"
  "io_inv (sm_end_requested_update x10 s) = io_inv s" "io_inv (sm_end_sent_update x11 s) = io_inv s"
  "io_inv (sm_end_received_update x12 s) = io_inv s" "io_inv (sm_flush_update x13 s) = io_inv s"
  "io_inv (sm_flush_serial_update x14 s) = io_inv s" "io_inv (sm_flush_acked_update x15 s) = io_inv s"
  "io_inv (sm_peer_flush_update x16 s) = io_inv s" "io_inv (sm_peer_flush_serial_update x17 s) = io_inv s"
  "io_inv (sm_close_deadline_update x18 s) = io_inv s" "io_inv (sm_close_sent_update x19 s) = io_inv s"
  "io_inv (sm_close_received_update x20 s) = io_inv s" "io_inv (sm_discarding_update x21 s) = io_inv s"
  "io_inv (sm_discarded_update x22 s) = io_inv s" "io_inv (sm_close_pending_update x23 s) = io_inv s"
  "io_inv (sm_failure_facts_update x24 s) = io_inv s" "io_inv (sm_retained_failure_update x25 s) = io_inv s"
  "io_inv (sm_terminal_message_update x26 s) = io_inv s" "io_inv (sm_peak_send_update x27 s) = io_inv s"
  "io_inv (sm_peak_recv_update x28 s) = io_inv s" "io_inv (sm_revision_update x29 s) = io_inv s"
  by (simp_all add: io_inv_def stream_terminal_iff)

lemma read_force_simps [simp]:
  "sm_config (read_force s) = sm_config s" "sm_send (read_force s) = sm_send s" "sm_recv (read_force s) = sm_recv s"
  "sm_now (read_force s) = sm_now s" "sm_io (read_force s) = sm_io s" "sm_batch_deadline (read_force s) = sm_batch_deadline s"
  "sm_sent (read_force s) = sm_sent s" "sm_received (read_force s) = sm_received s" "sm_consumed (read_force s) = sm_consumed s"
  "sm_peer_limit (read_force s) = sm_peer_limit s" "sm_advertised_limit (read_force s) = sm_advertised_limit s" "sm_end_requested (read_force s) = sm_end_requested s"
  "sm_end_sent (read_force s) = sm_end_sent s" "sm_end_received (read_force s) = sm_end_received s" "sm_flush (read_force s) = sm_flush s"
  "sm_flush_serial (read_force s) = sm_flush_serial s" "sm_flush_acked (read_force s) = sm_flush_acked s" "sm_peer_flush (read_force s) = sm_peer_flush s"
  "sm_peer_flush_serial (read_force s) = sm_peer_flush_serial s" "sm_close_deadline (read_force s) = sm_close_deadline s" "sm_close_sent (read_force s) = sm_close_sent s"
  "sm_close_received (read_force s) = sm_close_received s" "sm_discarding (read_force s) = sm_discarding s" "sm_discarded (read_force s) = sm_discarded s"
  "sm_close_pending (read_force s) = sm_close_pending s" "sm_completed (read_force s) = sm_completed s" "sm_error (read_force s) = sm_error s"
  "sm_failure_facts (read_force s) = sm_failure_facts s" "sm_retained_failure (read_force s) = sm_retained_failure s" "sm_terminal_message (read_force s) = sm_terminal_message s"
  "sm_peak_send (read_force s) = sm_peak_send s" "sm_peak_recv (read_force s) = sm_peak_recv s"
  by (simp_all add: read_force_def)

lemma stop_io_clock_simps [simp]:
  "sm_config (stop_io_clock s) = sm_config s" "sm_send (stop_io_clock s) = sm_send s" "sm_recv (stop_io_clock s) = sm_recv s"
  "sm_now (stop_io_clock s) = sm_now s" "sm_batch_deadline (stop_io_clock s) = sm_batch_deadline s" "sm_force_send (stop_io_clock s) = sm_force_send s"
  "sm_sent (stop_io_clock s) = sm_sent s" "sm_received (stop_io_clock s) = sm_received s" "sm_consumed (stop_io_clock s) = sm_consumed s"
  "sm_peer_limit (stop_io_clock s) = sm_peer_limit s" "sm_advertised_limit (stop_io_clock s) = sm_advertised_limit s" "sm_end_requested (stop_io_clock s) = sm_end_requested s"
  "sm_end_sent (stop_io_clock s) = sm_end_sent s" "sm_end_received (stop_io_clock s) = sm_end_received s" "sm_flush (stop_io_clock s) = sm_flush s"
  "sm_flush_serial (stop_io_clock s) = sm_flush_serial s" "sm_flush_acked (stop_io_clock s) = sm_flush_acked s" "sm_peer_flush (stop_io_clock s) = sm_peer_flush s"
  "sm_peer_flush_serial (stop_io_clock s) = sm_peer_flush_serial s" "sm_close_deadline (stop_io_clock s) = sm_close_deadline s" "sm_close_sent (stop_io_clock s) = sm_close_sent s"
  "sm_close_received (stop_io_clock s) = sm_close_received s" "sm_discarding (stop_io_clock s) = sm_discarding s" "sm_discarded (stop_io_clock s) = sm_discarded s"
  "sm_close_pending (stop_io_clock s) = sm_close_pending s" "sm_completed (stop_io_clock s) = sm_completed s" "sm_error (stop_io_clock s) = sm_error s"
  "sm_failure_facts (stop_io_clock s) = sm_failure_facts s" "sm_retained_failure (stop_io_clock s) = sm_retained_failure s" "sm_terminal_message (stop_io_clock s) = sm_terminal_message s"
  "sm_peak_send (stop_io_clock s) = sm_peak_send s" "sm_peak_recv (stop_io_clock s) = sm_peak_recv s" "sm_revision (stop_io_clock s) = sm_revision s"
  by (simp_all add: stop_io_clock_def)

lemma close_discard_simps [simp]:
  "sm_config (close_discard s) = sm_config s" "sm_send (close_discard s) = sm_send s" "sm_now (close_discard s) = sm_now s"
  "sm_batch_deadline (close_discard s) = sm_batch_deadline s" "sm_force_send (close_discard s) = sm_force_send s" "sm_sent (close_discard s) = sm_sent s"
  "sm_received (close_discard s) = sm_received s" "sm_peer_limit (close_discard s) = sm_peer_limit s" "sm_advertised_limit (close_discard s) = sm_advertised_limit s"
  "sm_end_requested (close_discard s) = sm_end_requested s" "sm_end_sent (close_discard s) = sm_end_sent s" "sm_end_received (close_discard s) = sm_end_received s"
  "sm_flush (close_discard s) = sm_flush s" "sm_flush_serial (close_discard s) = sm_flush_serial s" "sm_flush_acked (close_discard s) = sm_flush_acked s"
  "sm_peer_flush (close_discard s) = sm_peer_flush s" "sm_peer_flush_serial (close_discard s) = sm_peer_flush_serial s" "sm_close_sent (close_discard s) = sm_close_sent s"
  "sm_close_received (close_discard s) = sm_close_received s" "sm_close_pending (close_discard s) = sm_close_pending s" "sm_completed (close_discard s) = sm_completed s"
  "sm_error (close_discard s) = sm_error s" "sm_failure_facts (close_discard s) = sm_failure_facts s" "sm_retained_failure (close_discard s) = sm_retained_failure s"
  "sm_terminal_message (close_discard s) = sm_terminal_message s" "sm_peak_send (close_discard s) = sm_peak_send s" "sm_peak_recv (close_discard s) = sm_peak_recv s"
  "sm_revision (close_discard s) = sm_revision s"
  "sm_io (close_discard s) = io_stop (sm_now s) (sm_io s)" "sm_close_deadline (close_discard s) \<noteq> None"
  "sm_discarding (close_discard s)" "sm_recv (close_discard s) = []"
  "sm_consumed (close_discard s) = sm_consumed s + int (length (sm_recv s))"
  by (simp_all add: close_discard_def Let_def) (simp add: stop_io_clock_def)

lemma derived_terminal [simp]:
  "stream_terminal (read_force s) = stream_terminal s" "stream_terminal (stop_io_clock s) = stream_terminal s"
  "stream_terminal (close_discard s) = stream_terminal s"
  by (simp_all add: stream_terminal_iff)

lemma touch_groups [simp]: "send_inv (touch s) = send_inv s" "recv_inv (touch s) = recv_inv s"
  "flush_inv (touch s) = flush_inv s" "close_inv (touch s) = close_inv s" "pending_inv (touch s) = pending_inv s"
  "done_inv (touch s) = done_inv s" "dead_inv (touch s) = dead_inv s" "io_inv (touch s) = io_inv s"
  "sm_inv (touch s) = sm_inv s"
  by (simp_all add: touch_def sm_inv_def)

lemma read_force_groups [simp]:
  "send_inv (read_force s) = send_inv s" "recv_inv (read_force s) = recv_inv s"
  "flush_inv (read_force s) = flush_inv s" "close_inv (read_force s) = close_inv s"
  "pending_inv (read_force s) = pending_inv s" "done_inv (read_force s) = done_inv s"
  "dead_inv (read_force s) = dead_inv s" "io_inv (read_force s) = io_inv s"
  "sm_inv (read_force s) = sm_inv s"
  by (simp_all add: read_force_def sm_inv_def)

lemma sm_invD:
  assumes "sm_inv s"
  shows "validate_config (sm_config s) = Inr ()" "send_inv s" "recv_inv s" "flush_inv s" "close_inv s"
    "pending_inv s" "done_inv s" "dead_inv s" "io_inv s"
  using assms by (simp_all add: sm_inv_def)

lemma stream_live_simps [simp]: "\<not> stream_terminal s \<Longrightarrow> stream_live s = Inr ()"
  using stream_live_ok by blast

lemma stream_live_dead: "stream_terminal s \<Longrightarrow> \<exists>e. stream_live s = Inl e"
  using stream_live_cases [of s] by simp

lemma fail_inv:
  assumes inv: "sm_inv s"
  shows "sm_inv (stream_fail e b s)"
proof (cases "stream_terminal s")
  case False
  note g = sm_invD [OF inv]
  have "send_inv (stream_fail e b s)" using g(2) False by (simp add: send_inv_def)
  moreover have "recv_inv (stream_fail e b s)" using g(3) by (simp add: recv_inv_def)
  moreover have "flush_inv (stream_fail e b s)" using g(4) False by (simp add: flush_inv_def)
  moreover have "close_inv (stream_fail e b s)" using g(5) by (simp add: close_inv_def)
  ultimately show ?thesis
    using g(1) False by (simp add: sm_inv_def pending_inv_def done_inv_def dead_inv_def io_inv_def stream_terminal_iff)
qed (simp add: inv)

lemma write_form:
  obtains (same) e where "stream_write input s = (e, s)" "e = Inr 0 \<or> (\<exists>x. e = Inl x)"
  | (fails) "\<not> stream_terminal s" "stream_write input s = (Inl Stream_Protocol, stream_fail Stream_Protocol True s)"
  | (takes) n d where "\<not> stream_terminal s" "\<not> sm_end_requested s" "sm_flush s = None"
      "n \<le> length input" "length (sm_send s) + n \<le> cfg_send_buffer (sm_config s)"
      "sm_sent s + int (length (sm_send s)) + int n \<le> i64_max"
      "stream_write input s = (Inr n, touch (s\<lparr>sm_batch_deadline := d,
         sm_send := sm_send s @ take n input, sm_peak_send := max (sm_peak_send s) (length (sm_send s) + n)\<rparr>))"
proof (cases "stream_terminal s \<or> sm_end_requested s \<or> input = [] \<or> sm_flush s \<noteq> None
    \<or> cfg_send_buffer (sm_config s) \<le> length (sm_send s)")
  case True
  then show thesis
    using same stream_live_cases [of s] by (fastforce simp: stream_write_def is_some_def split: if_splits)
next
  case False
  define n where "n = min (length input) (cfg_send_buffer (sm_config s) - length (sm_send s))"
  define d where "d = (if sm_send s = [] then Some (saturating_add_u64 (sm_now s)
      (cfg_coalesce_delay_ms (sm_config s))) else sm_batch_deadline s)"
  define c where "c = (Option.bind (checked_add_i64 (sm_sent s) (int (length (sm_send s))))
      (\<lambda>v. checked_add_i64 v (int n)) = None)"
  have l: "stream_live s = Inr ()" "n \<noteq> 0" "n \<le> length input"
      "length (sm_send s) + n \<le> cfg_send_buffer (sm_config s)"
    using False stream_live_cases [of s] by (auto simp: n_def)
  have eq: "stream_write input s = (if c then (Inl Stream_Protocol, stream_fail Stream_Protocol True s)
      else (Inr n, touch (s\<lparr>sm_batch_deadline := d, sm_send := sm_send s @ take n input,
         sm_peak_send := max (sm_peak_send s) (length (sm_send s) + n)\<rparr>)))"
    using False l(1,2,3) unfolding stream_write_def n_def [symmetric] Let_def c_def [symmetric]
    by (simp add: d_def)
  show thesis
  proof (cases c)
    case True
    then show thesis using False eq fails by simp
  next
    case ok: False
    then have "sm_sent s + int (length (sm_send s)) + int n \<le> i64_max"
      by (auto simp: in_i64_def bind_eq_Some_conv c_def)
    then show thesis
      using takes [of n d] ok False l eq by simp
  qed
qed
lemma read_form:
  obtains (empty) e where "stream_read k s = (e, if k = 0 then s else read_force s)"
      "e = Inr [] \<or> (\<exists>x. e = Inl x)" "k = 0 \<or> sm_recv s = []"
      "e = Inr [] \<Longrightarrow> k \<noteq> 0 \<Longrightarrow> sm_end_received s \<and> sm_error s = None \<and> \<not> sm_discarding s"
  | (bytes) n where "0 < n" "n \<le> length (sm_recv s)"
      "stream_read k s = (Inr (take n (sm_recv s)),
        touch ((read_force s)\<lparr>sm_recv := drop n (sm_recv s), sm_consumed := sm_consumed s + int n\<rparr>))"
proof (cases "k = 0 \<or> sm_recv s = []")
  case True
  have st: "snd (stream_read k s) = (if k = 0 then s else read_force s)"
    using True by (cases "k = 0") (simp_all add: stream_read_def Let_def split: option.splits)
  have r: "fst (stream_read k s) = Inr [] \<or> (\<exists>x. fst (stream_read k s) = Inl x)"
    using True by (auto simp: stream_read_def Let_def split: option.splits)
  have "fst (stream_read k s) = Inr [] \<Longrightarrow> k \<noteq> 0 \<Longrightarrow> sm_end_received s \<and> sm_error s = None \<and> \<not> sm_discarding s"
    using True by (simp add: stream_read_def Let_def split: option.splits if_splits)
  then show thesis
    by (intro empty [OF _ r True]) (simp_all add: st [symmetric])
next
  case False
  let ?n = "min k (length (sm_recv s))"
  have "stream_read k s = (Inr (take ?n (sm_recv s)),
        touch ((read_force s)\<lparr>sm_recv := drop ?n (sm_recv s), sm_consumed := sm_consumed s + int ?n\<rparr>))"
    using False by (simp add: stream_read_def Let_def)
  then show thesis using False by (intro bytes [of ?n]) simp_all
qed

lemma write_inv:
  assumes inv: "sm_inv s"
  shows "sm_inv (snd (stream_write i s))"
proof (cases rule: write_form [of i s])
  case (takes n d)
  let ?s = "s\<lparr>sm_batch_deadline := d, sm_send := sm_send s @ take n i,
    sm_peak_send := max (sm_peak_send s) (length (sm_send s) + n)\<rparr>"
  note g = sm_invD [OF inv]
  have "send_inv ?s" using g(2) takes(2,4-6) by (auto simp: send_inv_def)
  moreover have "flush_inv ?s" using g(4) takes(3) by (simp add: flush_inv_def)
  moreover have "dead_inv ?s" using g(8) takes(1) by (simp add: dead_inv_def stream_terminal_iff)
  ultimately show ?thesis using g by (simp add: takes(7) sm_inv_def)
qed (simp_all add: inv fail_inv)

lemma read_inv:
  assumes inv: "sm_inv s"
  shows "sm_inv (snd (stream_read k s))"
proof (cases rule: read_form [of k s])
  case (bytes n)
  let ?s = "(read_force s)\<lparr>sm_recv := drop n (sm_recv s), sm_consumed := sm_consumed s + int n\<rparr>"
  note g = sm_invD [OF inv]
  have "recv_inv ?s" using g(3) bytes(1,2) by (auto simp: recv_inv_def)
  moreover have "pending_inv ?s" using g(6) by (simp add: pending_inv_def)
  moreover have "done_inv ?s" using g(7) by (simp add: done_inv_def)
  ultimately show ?thesis using g by (simp add: bytes(3) sm_inv_def)
qed (simp add: inv)

lemma start_flush_form:
  assumes "send_inv s"
  obtains (same) e where "start_flush s = (e, s)"
  | (starts) "\<not> stream_terminal s" "sm_flush s = None" "\<not> sm_end_sent s" "sm_flush_serial s < i64_max"
      "start_flush s = (Inr (sm_flush_serial s + 1), touch (s\<lparr>sm_flush_serial := sm_flush_serial s + 1,
         sm_flush := Some \<lparr>pf_id = sm_flush_serial s + 1,
           pf_offset = sm_sent s + int (length (sm_send s)), pf_sent = False\<rparr>, sm_force_send := True\<rparr>))"
proof (cases "stream_terminal s \<or> sm_flush s \<noteq> None \<or> sm_end_sent s \<or> \<not> in_i64 (sm_flush_serial s + 1)")
  case True
  then have "snd (start_flush s) = s"
    using stream_live_dead [of s]
    by (cases "stream_terminal s"; cases "sm_flush s") (auto simp: start_flush_def checked_add_i64_def)
  then show thesis using same by (metis prod.collapse)
next
  case False
  have "in_i64 (sm_sent s + int (length (sm_send s)))"
    using assms False by (auto simp: send_inv_def in_i64_def i64_min_def)
  then have "start_flush s = (Inr (sm_flush_serial s + 1), touch (s\<lparr>sm_flush_serial := sm_flush_serial s + 1,
         sm_flush := Some \<lparr>pf_id = sm_flush_serial s + 1,
           pf_offset = sm_sent s + int (length (sm_send s)), pf_sent = False\<rparr>, sm_force_send := True\<rparr>))"
    using False by (simp add: start_flush_def checked_add_i64_def)
  then show thesis using False by (intro starts) (simp_all add: in_i64_def)
qed

lemma start_flush_inv:
  assumes inv: "sm_inv s"
  shows "sm_inv (snd (start_flush s))"
  using sm_invD(2) [OF inv]
proof (cases rule: start_flush_form)
  case starts
  note g = sm_invD [OF inv]
  let ?s = "s\<lparr>sm_flush_serial := sm_flush_serial s + 1, sm_flush := Some \<lparr>pf_id = sm_flush_serial s + 1,
           pf_offset = sm_sent s + int (length (sm_send s)), pf_sent = False\<rparr>\<rparr>"
  have "flush_inv ?s" using g(4) starts(3,4) by (auto simp: flush_inv_def)
  moreover have "pending_inv ?s" using g(6) starts(3) by (simp add: pending_inv_def)
  moreover have "dead_inv ?s" using g(8) starts(1) by (simp add: dead_inv_def stream_terminal_iff)
  ultimately show ?thesis using g by (simp add: starts(5) sm_inv_def)
qed (simp add: inv)

lemma end_write_form:
  obtains (same) e where "end_write s = (e, s)" "e = Inr () \<Longrightarrow> sm_end_requested s"
      "stream_terminal s \<or> sm_end_requested s"
  | (ends) "\<not> stream_terminal s"  "\<not> sm_end_requested s"
      "end_write s = (Inr (), touch (s\<lparr>sm_end_requested := True, sm_force_send := True\<rparr>))"
  using stream_live_cases [of s]
  by (cases "stream_terminal s \<or> sm_end_requested s") (auto simp: end_write_def split: if_splits)

lemma end_write_inv:
  assumes inv: "sm_inv s"
  shows "sm_inv (snd (end_write s))"
proof (cases rule: end_write_form [of s])
  case ends
  note g = sm_invD [OF inv]
  have "send_inv (s\<lparr>sm_end_requested := True\<rparr>)" using g(2) by (simp add: send_inv_def)
  moreover have "close_inv (s\<lparr>sm_end_requested := True\<rparr>)" using g(5) by (simp add: close_inv_def)
  ultimately show ?thesis using g by (simp add: ends(3) sm_inv_def)
qed (simp add: inv)

lemma start_close_form:
  obtains (same) e where "start_close s = (e, s)"
  | (closes) "\<not> stream_terminal s" "cfg_side (sm_config s) = Side_Initiator" "sm_close_deadline s = None"
      "start_close s = (Inr (), touch (snd (end_write (close_discard s))))"
proof (cases "stream_terminal s \<or> cfg_side (sm_config s) \<noteq> Side_Initiator \<or> sm_close_deadline s \<noteq> None")
  case True
  then have "snd (start_close s) = s"
    using stream_live_dead [of s] by (cases "stream_terminal s") (auto simp: start_close_def)
  then show thesis using same by (metis prod.collapse)
next
  case False
  then have "\<not> stream_terminal (close_discard s)" "\<not> is_some (sm_completed s)"
    by (auto simp: stream_terminal_iff)
  then have "start_close s = (Inr (), touch (snd (end_write (close_discard s))))"
    using False by (simp add: start_close_def end_write_def)
  then show thesis using False by (intro closes) simp_all
qed

lemma io_stop_idle: "io_wf t c \<Longrightarrow> ioc_state c = Io_Idle \<Longrightarrow> io_stop now c = c"
  by (simp add: io_stop_def io_account_def io_wf_def)

lemma start_close_inv:
  assumes inv: "sm_inv s"
  shows "sm_inv (snd (start_close s))"
proof (cases rule: start_close_form [of s])
  case closes
  note g = sm_invD [OF inv]
  let ?d = "close_discard s"
  define t where "t = snd (end_write ?d)"
  have t: "t = (if sm_end_requested s then ?d else touch (?d\<lparr>sm_end_requested := True, sm_force_send := True\<rparr>))"
    using closes(1) by (simp add: t_def end_write_def)
  have io: "io_wf (cfg_io_timeout_ms (sm_config s)) (sm_io s)" "ioc_state (sm_io s) = Io_Idle"
    using g(9) closes(1,2) by (simp_all add: io_inv_def)
  have "send_inv t" using g(2) by (simp add: t send_inv_def)
  moreover have "flush_inv t" using g(4) by (auto simp: t flush_inv_def)
  moreover have "recv_inv t" using g(3) by (auto simp: t recv_inv_def)
  moreover have "close_inv t" using g(5) closes(2) by (auto simp: t close_inv_def)
  moreover have "pending_inv t" using g(6) by (simp add: t pending_inv_def)
  moreover have "done_inv t" using closes(1) by (simp add: t done_inv_def stream_terminal_iff)
  moreover have "dead_inv t" using g(8) by (simp add: t dead_inv_def)
  moreover have "io_inv t" using closes(2) io by (simp add: t io_inv_def io_stop_idle)
  moreover have "sm_config t = sm_config s" by (simp add: t)
  ultimately have "sm_inv t" using g(1) by (simp add: sm_inv_def)
  then show ?thesis by (simp add: closes(4) t_def)
qed (simp add: inv)

lemma complete_close_form:
  obtains (same) e where "complete_close_with_failure disp fa fl s = (e, s)"
  | (pends) closed where "\<not> stream_terminal s" "cfg_side (sm_config s) = Side_Endpoint"
      "sm_close_received s" "sm_end_sent s" "sm_end_received s" "sm_recv s = []"
      "sm_peer_flush s = None" "sm_flush s = None" "sm_close_pending s = None"
      "closed = \<lparr>closed_disposition = disp, closed_unread_response_discarded = sm_discarded s,
         closed_facts = fa, closed_failure = fl\<rparr>"
      "admit_limited ((stream_envelope Kind_Closed s)\<lparr>env_closed := Some closed\<rparr>)
         (cfg_peer_limits (sm_config s)) = Inr ()"
      "complete_close_with_failure disp fa fl s = (Inr (), touch (s\<lparr>sm_close_pending := Some closed\<rparr>))"
proof -
  define closed where "closed = \<lparr>closed_disposition = disp, closed_unread_response_discarded = sm_discarded s,
         closed_facts = fa, closed_failure = fl\<rparr>"
  define c where "c \<longleftrightarrow> \<not> stream_terminal s \<and> cfg_side (sm_config s) = Side_Endpoint
      \<and> sm_close_received s \<and> sm_end_sent s \<and> sm_end_received s \<and> sm_recv s = []
      \<and> sm_peer_flush s = None \<and> sm_flush s = None \<and> sm_close_pending s = None"
  let ?a = "admit_limited ((stream_envelope Kind_Closed s)\<lparr>env_closed := Some closed\<rparr>) (cfg_peer_limits (sm_config s))"
  consider (no) "\<not> c" | (refused) e where "c" "?a = Inl e" | (ok) "c" "?a = Inr ()"
    by (cases ?a) auto
  then show thesis
  proof cases
    case no
    then have "snd (complete_close_with_failure disp fa fl s) = s"
      using stream_live_dead [of s]
      by (cases "stream_terminal s") (auto simp: complete_close_with_failure_def c_def is_some_def)
    then show thesis using same by (metis prod.collapse)
  next
    case refused
    then have "complete_close_with_failure disp fa fl s = (Inl Stream_Protocol, s)"
      by (simp add: complete_close_with_failure_def c_def Let_def closed_def)
    then show thesis by (rule same)
  next
    case ok
    then have "complete_close_with_failure disp fa fl s = (Inr (), touch (s\<lparr>sm_close_pending := Some closed\<rparr>))"
      by (simp add: complete_close_with_failure_def c_def Let_def closed_def)
    then show thesis using ok closed_def unfolding c_def by (intro pends) simp_all
  qed
qed

lemma complete_close_inv:
  assumes inv: "sm_inv s"
  shows "sm_inv (snd (complete_close_with_failure disp fa fl s))"
proof (cases rule: complete_close_form [of disp fa fl s])
  case (pends closed)
  let ?s = "s\<lparr>sm_close_pending := Some closed\<rparr>"
  note g = sm_invD [OF inv]
  have "pending_inv ?s" using pends(3,4,6-8) by (simp add: pending_inv_def)
  moreover have "dead_inv ?s" using g(8) pends(1) by (simp add: dead_inv_def stream_terminal_iff)
  ultimately show ?thesis using g by (simp add: pends(12) sm_inv_def)
qed (simp add: inv)

lemma fail_terminal_form:
  obtains (same) e where "fail_terminal fl s = (e, s)"
  | (fails) m where "\<not> stream_terminal s" "cfg_side (sm_config s) = Side_Endpoint"
      "m = (stream_envelope Kind_Failed s)\<lparr>env_failed := Some fl\<rparr>"
      "admit_limited m (cfg_peer_limits (sm_config s)) = Inr ()"
      "fail_terminal fl s = (Inr (),
         (stream_fail (Stream_PeerFailed (fail_code fl) (fail_effect fl)) False (s\<lparr>sm_failure_facts := fail_facts fl\<rparr>))
           \<lparr>sm_terminal_message := Some m\<rparr>)"
proof -
  define m where "m = (stream_envelope Kind_Failed s)\<lparr>env_failed := Some fl\<rparr>"
  let ?a = "admit_limited m (cfg_peer_limits (sm_config s))"
  consider (no) "stream_terminal s \<or> cfg_side (sm_config s) \<noteq> Side_Endpoint \<or> ?a \<noteq> Inr ()"
    | (ok) "\<not> stream_terminal s" "cfg_side (sm_config s) = Side_Endpoint" "?a = Inr ()"
    by blast
  then show thesis
  proof cases
    case no
    then have "snd (fail_terminal fl s) = s"
      using stream_live_dead [of s]
      by (cases "stream_terminal s") (auto simp: fail_terminal_def Let_def m_def split: sum.splits)
    then show thesis using same by (metis prod.collapse)
  next
    case ok
    then have "fail_terminal fl s = (Inr (),
         (stream_fail (Stream_PeerFailed (fail_code fl) (fail_effect fl)) False (s\<lparr>sm_failure_facts := fail_facts fl\<rparr>))
           \<lparr>sm_terminal_message := Some m\<rparr>)"
      by (simp add: fail_terminal_def Let_def m_def)
    then show thesis using ok m_def by (intro fails)
  qed
qed

lemma sm_inv_facts [simp]:
  "sm_inv (s\<lparr>sm_failure_facts := x\<rparr>) = sm_inv s" "sm_inv (s\<lparr>sm_retained_failure := y\<rparr>) = sm_inv s"
  "sm_inv (s\<lparr>sm_now := z\<rparr>) = sm_inv s"
  by (simp_all add: sm_inv_def)

lemma facts_terminal [simp]:
  "stream_terminal (s\<lparr>sm_failure_facts := x\<rparr>) = stream_terminal s"
  "stream_terminal (s\<lparr>sm_retained_failure := y\<rparr>) = stream_terminal s"
  "stream_terminal (s\<lparr>sm_now := z\<rparr>) = stream_terminal s"
  "stream_terminal (s\<lparr>sm_io := u\<rparr>) = stream_terminal s"
  by (simp_all add: stream_terminal_iff)

lemma terminal_message_inv:
  assumes "sm_inv s" "sm_error s \<noteq> None \<or> m = None"
  shows "sm_inv (s\<lparr>sm_terminal_message := m\<rparr>)"
  using sm_invD [OF assms(1)] assms(2) by (auto simp: sm_inv_def dead_inv_def)

lemma fail_terminal_inv:
  assumes inv: "sm_inv s"
  shows "sm_inv (snd (fail_terminal fl s))"
proof (cases rule: fail_terminal_form [of fl s])
  case (fails m)
  then show ?thesis using inv by (simp add: terminal_message_inv fail_inv)
qed (simp add: inv)

lemma disconnect_inv: "sm_inv s \<Longrightarrow> sm_inv (disconnect s)"
  by (simp add: disconnect_def terminal_message_inv fail_inv)

lemma set_io_state_form:
  obtains (same) e where "set_io_state st s = (e, s)"
  | (times_out) "\<not> stream_terminal s" "set_io_state st s = (Inl Stream_Timeout, stream_fail Stream_Timeout True s)"
  | (late) io where "\<not> stream_terminal s"
      "set_io_state st s = (Inl Stream_Timeout, stream_fail Stream_Timeout True (s\<lparr>sm_io := io\<rparr>))"
  | (sets) "\<not> stream_terminal s" "cfg_side (sm_config s) = Side_Endpoint" "\<not> io_due (sm_now s) (sm_io s)"
      "set_io_state st s = (Inr (), s\<lparr>sm_io := io_set_state (sm_now s) st (sm_io s)\<rparr>)"
proof -
  let ?io = "io_set_state (sm_now s) st (sm_io s)"
  consider (no) "stream_terminal s \<or> cfg_side (sm_config s) \<noteq> Side_Endpoint
      \<or> is_some (sm_close_deadline s) \<or> sm_close_received s"
    | (exp) "\<not> stream_terminal s" "cfg_side (sm_config s) = Side_Endpoint" "\<not> is_some (sm_close_deadline s)"
       "\<not> sm_close_received s" "io_expired s"
    | (ok) "\<not> stream_terminal s" "cfg_side (sm_config s) = Side_Endpoint" "\<not> is_some (sm_close_deadline s)"
       "\<not> sm_close_received s" "\<not> io_expired s"
    by blast
  then show thesis
  proof cases
    case no
    then have "snd (set_io_state st s) = s"
      using stream_live_dead [of s]
      by (cases "stream_terminal s") (auto simp: set_io_state_def)
    then show thesis using same by (metis prod.collapse)
  next
    case exp
    then have "set_io_state st s = (Inl Stream_Timeout, stream_fail Stream_Timeout True s)"
      by (simp add: set_io_state_def expire_io_if_due_def)
    then show thesis using exp by (intro times_out)
  next
    case ok
    have due: "\<not> io_due (sm_now s) (sm_io s)" using ok by (simp add: io_expired_def)
    have "set_io_state st s = (Inr (), s\<lparr>sm_io := ?io\<rparr>)
        \<or> set_io_state st s = (Inl Stream_Timeout, stream_fail Stream_Timeout True (s\<lparr>sm_io := ?io\<rparr>))"
      using ok by (simp add: set_io_state_def expire_io_if_due_def Let_def)
    then show thesis using ok due late sets by blast
  qed
qed

lemma set_io_inv:
  assumes "sm_inv s" "\<not> stream_terminal s \<Longrightarrow> io_wf (cfg_io_timeout_ms (sm_config s)) io"
    "cfg_side (sm_config s) = Side_Endpoint"
  shows "sm_inv (s\<lparr>sm_io := io\<rparr>)"
  using sm_invD [OF assms(1)] assms(2,3) by (simp add: sm_inv_def io_inv_def stream_terminal_iff)

lemma fail_io: "stream_fail e b (s\<lparr>sm_io := io\<rparr>) = (stream_fail e b s)\<lparr>sm_io := sm_io (stream_fail e b (s\<lparr>sm_io := io\<rparr>))\<rparr>"
  by (simp add: stream_fail_def failure_notice_def stream_envelope_def touch_def)

lemma fail_io_inv:
  assumes "sm_inv s" "\<not> stream_terminal s"
  shows "sm_inv (stream_fail e b (s\<lparr>sm_io := io\<rparr>))"
proof -
  have "sm_error (stream_fail e b s) \<noteq> None" using assms(2) by simp
  then have "io_inv ((stream_fail e b s)\<lparr>sm_io := x\<rparr>)" for x by (simp add: io_inv_def stream_terminal_iff)
  then show ?thesis
    by (subst fail_io) (use sm_invD [OF fail_inv [OF assms(1), of e b]] in \<open>simp add: sm_inv_def\<close>)
qed

lemma set_io_state_inv:
  assumes inv: "sm_inv s"
  shows "sm_inv (snd (set_io_state st s))"
proof (cases rule: set_io_state_form [of st s])
  case sets
  then have "io_wf (cfg_io_timeout_ms (sm_config s)) (io_set_state (sm_now s) st (sm_io s))"
    using sm_invD(9) [OF inv] by (simp add: io_inv_def io_set_state_wf)
  then show ?thesis using inv sets by (simp add: set_io_inv)
qed (simp_all add: inv fail_inv fail_io_inv)

lemma record_io_progress_form:
  obtains (same) e where "record_io_progress n s = (e, s)"
  | (times_out) "\<not> stream_terminal s" "record_io_progress n s = (Inl Stream_Timeout, stream_fail Stream_Timeout True s)"
  | (sets) e where "\<not> stream_terminal s" "cfg_side (sm_config s) = Side_Endpoint"
      "record_io_progress n s = (e, s\<lparr>sm_io :=
         snd (io_progress (sm_now s) n (cfg_io_timeout_ms (sm_config s)) (sm_io s))\<rparr>)"
proof -
  let ?p = "io_progress (sm_now s) n (cfg_io_timeout_ms (sm_config s)) (sm_io s)"
  let ?c = "stream_terminal s \<or> cfg_side (sm_config s) \<noteq> Side_Endpoint
      \<or> is_some (sm_close_deadline s) \<or> sm_close_received s"
  consider (no) ?c | (exp) "\<not> ?c" "io_expired s" | (ok) "\<not> ?c" "\<not> io_expired s" by blast
  then show thesis
  proof cases
    case no
    then have "snd (record_io_progress n s) = s"
      using stream_live_dead [of s] by (cases "stream_terminal s") (auto simp: record_io_progress_def)
    then show thesis using same by (metis prod.collapse)
  next
    case exp
    then have "record_io_progress n s = (Inl Stream_Timeout, stream_fail Stream_Timeout True s)"
      by (simp add: record_io_progress_def expire_io_if_due_def)
    then show thesis using exp by (intro times_out) simp_all
  next
    case ok
    then have "record_io_progress n s = (fst ?p, s\<lparr>sm_io := snd ?p\<rparr>)"
      by (simp add: record_io_progress_def expire_io_if_due_def split: prod.split)
    then show thesis using ok by (intro sets) simp_all
  qed
qed

lemma record_io_progress_inv:
  assumes inv: "sm_inv s"
  shows "sm_inv (snd (record_io_progress n s))"
proof (cases rule: record_io_progress_form [of n s])
  case (sets e)
  then have "io_wf (cfg_io_timeout_ms (sm_config s))
      (snd (io_progress (sm_now s) n (cfg_io_timeout_ms (sm_config s)) (sm_io s)))"
    using sm_invD(9) [OF inv] by (simp add: io_inv_def io_progress_wf)
  then show ?thesis using inv sets by (simp add: set_io_inv)
qed (simp_all add: inv fail_inv)

lemma advance_form:
  obtains (past) "stream_advance now s = s" | (moves) "stream_advance now s = s\<lparr>sm_now := now\<rparr>"
  | (wakes) "stream_advance now s = touch (s\<lparr>sm_now := now\<rparr>)"
  | (expires) "\<not> stream_terminal s" "stream_advance now s = stream_fail Stream_Timeout True (s\<lparr>sm_now := now\<rparr>)"
proof -
  have "stream_advance now s = s \<or> stream_advance now s = s\<lparr>sm_now := now\<rparr>
      \<or> stream_advance now s = touch (s\<lparr>sm_now := now\<rparr>)
      \<or> \<not> stream_terminal s \<and> stream_advance now s = stream_fail Stream_Timeout True (s\<lparr>sm_now := now\<rparr>)"
    by (simp add: stream_advance_def Let_def)
  then show thesis using that by blast
qed

lemma advance_inv: "sm_inv s \<Longrightarrow> sm_inv (stream_advance now s)"
  by (cases rule: advance_form [of now s]) (simp_all add: fail_inv)

section \<open>Incoming messages\<close>

lemma accept_data_ok:
  "accept_data m s = Inr s' \<longleftrightarrow>
     (\<exists>d. env_data m = Some d \<and> in_i64 (data_offset d + int (length (data_payload d)))
        \<and> \<not> sm_end_received s \<and> data_offset d = sm_received s \<and> data_payload d \<noteq> []
        \<and> length (data_payload d) \<le> cfg_max_payload (sm_config s)
        \<and> data_offset d + int (length (data_payload d)) \<le> sm_advertised_limit s
        \<and> (sm_discarding s \<or> length (sm_recv s) + length (data_payload d) \<le> cfg_receive_window (sm_config s))
        \<and> s' = data_taken d s)"
  by (cases "sm_discarding s") (auto simp: accept_data_def data_taken_def and_then_eq_Inr Let_def not_less)

lemma accept_window_ok:
  "accept_window m s = Inr s' \<longleftrightarrow>
     (\<exists>w. env_window m = Some w
        \<and> (if window_max_offset w \<le> sm_peer_limit s then s' = s
           else window_max_offset w \<le> saturating_add_i64 (sm_sent s) (int (cfg_peer_receive_window (sm_config s)))
             \<and> s' = touch (s\<lparr>sm_peer_limit := window_max_offset w\<rparr>)))"
  by (cases "env_window m"; cases "window_max_offset (the (env_window m)) \<le> sm_peer_limit s")
    (simp_all add: accept_window_def and_then_eq_Inr Let_def not_less eq_commute [of s'])

lemma accept_flush_ok:
  "accept_flush m s = Inr s' \<longleftrightarrow>
     (\<exists>b. env_flush m = Some b \<and> sm_peer_flush s = None \<and> sm_peer_flush_serial s < barrier_barrier_id b
        \<and> barrier_offset b = sm_received s \<and> \<not> sm_end_received s
        \<and> s' = touch (s\<lparr>sm_peer_flush_serial := barrier_barrier_id b, sm_peer_flush := Some b\<rparr>))"
  by (auto simp: accept_flush_def and_then_eq_Inr is_some_def not_le)

lemma accept_flushed_ok:
  "accept_flushed m s = Inr s' \<longleftrightarrow>
     (\<exists>b p. env_flushed m = Some b \<and> sm_flush s = Some p \<and> pf_sent p
        \<and> pf_id p = barrier_barrier_id b \<and> pf_offset p = barrier_offset b
        \<and> s' = touch (s\<lparr>sm_flush_acked := pf_id p, sm_flush := None\<rparr>))"
  by (auto simp: accept_flushed_def and_then_eq_Inr)

lemma accept_end_write_ok:
  "accept_end_write m s = Inr s' \<longleftrightarrow>
     (\<exists>e. env_end_write m = Some e \<and> endw_final_offset e = sm_received s
        \<and> s' = touch (s\<lparr>sm_end_received := True\<rparr>))"
  by (auto simp: accept_end_write_def and_then_eq_Inr)

lemma accept_close_ok:
  "accept_close m s = Inr s' \<longleftrightarrow>
     (\<exists>c. env_close m = Some c \<and> cfg_side (sm_config s) = Side_Endpoint \<and> sm_end_received s
        \<and> close_final_offset c = sm_received s
        \<and> s' = touch (if sm_close_received s then s
             else (stop_io_clock (s\<lparr>sm_close_received := True\<rparr>))
               \<lparr>sm_close_deadline := Some (saturating_add_u64 (sm_now s) (cfg_close_timeout_ms (sm_config s)))\<rparr>))"
  by (cases "cfg_side (sm_config s)") (auto simp: accept_close_def and_then_eq_Inr)

lemma accept_closed_ok:
  "accept_closed m s = Inr s' \<longleftrightarrow>
     (\<exists>c. env_closed m = Some c \<and> cfg_side (sm_config s) = Side_Initiator \<and> sm_close_sent s \<and> sm_end_received s
        \<and> s' = closed_taken c s)"
  unfolding accept_closed_def closed_taken_def [symmetric]
  by (cases "cfg_side (sm_config s)") (auto simp: and_then_eq_Inr)

lemma accept_cancel_ok:
  "accept_cancel m s = Inr s' \<longleftrightarrow>
     (\<exists>c. env_cancel m = Some c \<and> s' = touch (stream_fail
        (if cancel_reason c = Code_Timeout then Stream_Timeout else Stream_Cancelled) False s))"
  by (cases "env_cancel m") (simp_all add: accept_cancel_def eq_commute [of s'])

lemma accept_failed_ok:
  "accept_failed m s = Inr s' \<longleftrightarrow>
     (\<exists>f. env_failed m = Some f \<and> s' = touch ((stream_fail (Stream_PeerFailed (fail_code f) (fail_effect f)) False
        (s\<lparr>sm_failure_facts := fail_facts f\<rparr>))\<lparr>sm_retained_failure := Some f\<rparr>))"
  by (auto simp: accept_failed_def and_then_eq_Inr)

lemmas accept_ok = accept_data_ok accept_window_ok accept_flush_ok accept_flushed_ok accept_end_write_ok
  accept_close_ok accept_closed_ok accept_cancel_ok accept_failed_ok

lemma accept_data_inv:
  assumes inv: "sm_inv s" and a: "accept_data m s = Inr s'"
  shows "sm_inv s'"
proof -
  obtain d where d: "data_offset d = sm_received s"
      "data_offset d + int (length (data_payload d)) \<le> sm_advertised_limit s"
      "sm_discarding s \<or> length (sm_recv s) + length (data_payload d) \<le> cfg_receive_window (sm_config s)"
      "\<not> sm_end_received s" and s': "s' = data_taken d s"
    using a unfolding accept_data_ok by blast
  note g = sm_invD [OF inv]
  have p: "sm_close_pending s = None" "sm_completed s = None"
    using g(5-7) d(4) by (auto simp: close_inv_def pending_inv_def done_inv_def)
  have "recv_inv s'" using g(3) d(1-3) by (auto simp: s' data_taken_def recv_inv_def Let_def)
  moreover have "flush_inv s'" using g(4) d(1) by (auto simp: s' data_taken_def flush_inv_def Let_def)
  moreover have "pending_inv s'" "done_inv s'"
    using p by (simp_all add: s' data_taken_def pending_inv_def done_inv_def Let_def)
  ultimately show ?thesis
    using g by (auto simp: sm_inv_def) (simp_all add: s' data_taken_def Let_def)
qed

lemma accept_window_inv:
  assumes inv: "sm_inv s" and a: "accept_window m s = Inr s'"
  shows "sm_inv s'"
proof -
  note g = sm_invD [OF inv]
  define top where "top = saturating_add_i64 (sm_sent s) (int (cfg_peer_receive_window (sm_config s)))"
  consider "s' = s" | l where "sm_peer_limit s < l" "l \<le> top" "s' = touch (s\<lparr>sm_peer_limit := l\<rparr>)"
    using a unfolding accept_window_ok top_def [symmetric] by (metis not_le)
  then show ?thesis
  proof cases
    case 2
    have "top \<le> i64_max" using saturating_add_i64_in by (simp add: top_def in_i64_def)
    moreover have "top \<le> sm_sent s + int (cfg_peer_receive_window (sm_config s))"
      using g(2) saturating_add_i64_le by (simp add: top_def send_inv_def)
    ultimately have "send_inv (s\<lparr>sm_peer_limit := l\<rparr>)"
      using g(2) 2(1,2) by (simp add: send_inv_def)
    then show ?thesis using g 2(3) by (simp add: sm_inv_def)
  qed (simp add: inv)
qed

lemma accept_flush_inv:
  assumes inv: "sm_inv s" and live: "\<not> stream_terminal s" and a: "accept_flush m s = Inr s'"
  shows "sm_inv s'"
proof -
  note g = sm_invD [OF inv]
  obtain b where b: "sm_peer_flush_serial s < barrier_barrier_id b" "barrier_offset b = sm_received s"
      "\<not> sm_end_received s"
      "s' = touch (s\<lparr>sm_peer_flush_serial := barrier_barrier_id b, sm_peer_flush := Some b\<rparr>)"
    using a unfolding accept_flush_ok by blast
  let ?s = "s\<lparr>sm_peer_flush_serial := barrier_barrier_id b, sm_peer_flush := Some b\<rparr>"
  have p: "sm_close_pending s = None"
    using g(5,6) b(3) by (auto simp: close_inv_def pending_inv_def)
  have "flush_inv ?s" using g(3,4) b(1,2) by (auto simp: flush_inv_def recv_inv_def)
  moreover have "pending_inv ?s" using p by (simp add: pending_inv_def)
  moreover have "dead_inv ?s" using g(8) live by (simp add: dead_inv_def stream_terminal_iff)
  ultimately show ?thesis using g b(4) by (simp add: sm_inv_def)
qed

lemma accept_flushed_inv:
  assumes inv: "sm_inv s" and a: "accept_flushed m s = Inr s'"
  shows "sm_inv s'"
proof -
  note g = sm_invD [OF inv]
  obtain p where p: "sm_flush s = Some p" "s' = touch (s\<lparr>sm_flush_acked := pf_id p, sm_flush := None\<rparr>)"
    using a unfolding accept_flushed_ok by blast
  let ?s = "s\<lparr>sm_flush_acked := pf_id p, sm_flush := None\<rparr>"
  have "flush_inv ?s" using g(4) p(1) by (auto simp: flush_inv_def)
  moreover have "pending_inv ?s" using g(6) by (simp add: pending_inv_def)
  moreover have "dead_inv ?s" using g(8) by (simp add: dead_inv_def)
  ultimately show ?thesis using g p(2) by (simp add: sm_inv_def)
qed

lemma accept_end_write_inv:
  assumes inv: "sm_inv s" and a: "accept_end_write m s = Inr s'"
  shows "sm_inv s'"
proof -
  note g = sm_invD [OF inv]
  let ?s = "s\<lparr>sm_end_received := True\<rparr>"
  have "s' = touch ?s" using a unfolding accept_end_write_ok by blast
  moreover have "close_inv ?s" using g(5) by (simp add: close_inv_def)
  moreover have "done_inv ?s" using g(7) by (simp add: done_inv_def)
  ultimately show ?thesis using g by (simp add: sm_inv_def)
qed

lemma io_stop_wf: "io_wf t c \<Longrightarrow> \<not> io_due now c \<Longrightarrow> io_wf t (io_stop now c) \<and> ioc_state (io_stop now c) = Io_Idle"
  by (cases "ioc_state c"; cases "ioc_deadline c") (auto simp: io_wf_def io_stop_def io_account_def io_due_simps)

lemma accept_close_inv:
  assumes inv: "sm_inv s" and due: "\<not> io_expired s" and a: "accept_close m s = Inr s'"
  shows "sm_inv s'"
proof -
  note g = sm_invD [OF inv]
  define t where "t = (stop_io_clock (s\<lparr>sm_close_received := True\<rparr>))
      \<lparr>sm_close_deadline := Some (saturating_add_u64 (sm_now s) (cfg_close_timeout_ms (sm_config s)))\<rparr>"
  have c: "cfg_side (sm_config s) = Side_Endpoint" "sm_end_received s"
      "s' = touch (if sm_close_received s then s else t)"
    using a unfolding accept_close_ok t_def by blast+
  have "close_inv t" using g(5) c(1,2) by (auto simp: t_def close_inv_def)
  moreover have "pending_inv t" using g(6) by (simp add: t_def pending_inv_def)
  moreover have "done_inv t" using g(7) by (auto simp: t_def done_inv_def)
  moreover have "io_inv t" using g(9) due c(1)
    by (simp add: t_def io_inv_def io_expired_def stop_io_clock_def io_stop_wf stream_terminal_iff)
  moreover have "send_inv t" "recv_inv t" "flush_inv t" "dead_inv t"
    using g(2-4,8) by (simp_all add: t_def stop_io_clock_def)
  ultimately have "sm_inv t" using g(1) by (simp add: sm_inv_def) (simp add: t_def)
  then show ?thesis using inv c(3) by simp
qed

lemma accept_closed_inv:
  assumes inv: "sm_inv s" and live: "\<not> stream_terminal s" and a: "accept_closed m s = Inr s'"
  shows "sm_inv s'"
proof -
  note g = sm_invD [OF inv]
  obtain c where c: "cfg_side (sm_config s) = Side_Initiator" "sm_close_sent s" "sm_end_received s"
      "s' = closed_taken c s"
    using a unfolding accept_closed_ok by blast
  have "sm_inv (s\<lparr>sm_completed := Some r\<rparr>)" for r
  proof -
    have "done_inv (s\<lparr>sm_completed := Some r\<rparr>)"
      using live c(1-3) g(5) by (simp add: done_inv_def close_inv_def stream_terminal_iff)
    moreover have "io_inv (s\<lparr>sm_completed := Some r\<rparr>)" by (simp add: io_inv_def stream_terminal_iff)
    ultimately show ?thesis using g by (simp add: sm_inv_def)
  qed
  then show ?thesis
    using inv by (cases "closed_failure c") (simp_all add: c(4) closed_taken_def fail_inv)
qed

lemma accept_inv:
  assumes inv: "sm_inv s" and live: "\<not> stream_terminal s" "\<not> io_expired s" and a: "stream_accept m s = Inr s'"
  shows "sm_inv s'"
proof -
  have "accept_body m s = Inr s'" using a by (auto simp: stream_accept_def and_then_eq_Inr)
  then show ?thesis
    using accept_data_inv [OF inv] accept_window_inv [OF inv] accept_flush_inv [OF inv live(1)]
      accept_flushed_inv [OF inv] accept_end_write_inv [OF inv] accept_close_inv [OF inv live(2)]
      accept_closed_inv [OF inv live(1)] inv
    by (cases "env_kind m") (auto simp: accept_body_def accept_cancel_ok accept_failed_ok fail_inv)
qed

lemma receive_form:
  obtains (dead) "stream_terminal s" "stream_receive m s = (Inr (), s)"
  | (times_out) "\<not> stream_terminal s" "io_expired s"
      "stream_receive m s = (Inl Stream_Timeout, stream_fail Stream_Timeout True s)"
  | (refused) e where "\<not> stream_terminal s" "\<not> io_expired s" "stream_accept m s = Inl e"
      "stream_receive m s = (Inl e, stream_fail Stream_Protocol True s)"
  | (accepted) s' where "\<not> stream_terminal s" "\<not> io_expired s" "stream_accept m s = Inr s'"
      "stream_receive m s = (Inr (), s')"
proof -
  consider "stream_terminal s" | "\<not> stream_terminal s" "io_expired s"
    | e where "\<not> stream_terminal s" "\<not> io_expired s" "stream_accept m s = Inl e"
    | s' where "\<not> stream_terminal s" "\<not> io_expired s" "stream_accept m s = Inr s'"
    by (cases "stream_accept m s") blast+
  then show thesis
    by cases (use that in \<open>simp_all add: stream_receive_def expire_io_if_due_def\<close>)
qed

lemma receive_inv:
  assumes inv: "sm_inv s"
  shows "sm_inv (snd (stream_receive m s))"
proof (cases rule: receive_form [of s m])
  case (accepted s')
  then show ?thesis using accept_inv [OF inv] by simp
qed (simp_all add: inv fail_inv)

text \<open>Every refusal of an incoming message is a protocol violation.\<close>

lemma ok_or_eq_Inl: "ok_or e x = Inl e' \<longleftrightarrow> x = None \<and> e' = e"
  by (cases x) auto

lemma refuse_if_eq_Inl: "refuse_if b e = Inl e' \<longleftrightarrow> b \<and> e' = e"
  by (cases b) auto

lemma map_err_const_Inl: "map_err (\<lambda>_. e) r = Inl e' \<Longrightarrow> e' = e"
  by (cases r) simp_all

lemmas error_simps = and_then_eq_Inl ok_or_eq_Inl refuse_if_eq_Inl Let_def

lemma accept_body_error: "accept_body m s = Inl e \<Longrightarrow> e = Stream_Protocol"
  by (cases "env_kind m")
    (auto simp: accept_body_def accept_data_def accept_window_def accept_flush_def accept_flushed_def
      accept_end_write_def accept_close_def accept_closed_def accept_cancel_def accept_failed_def error_simps
      split: if_splits)

lemma stream_accept_error: "stream_accept m s = Inl e \<Longrightarrow> e = Stream_Protocol"
  by (auto simp: stream_accept_def error_simps dest: map_err_const_Inl accept_body_error)

section \<open>Outgoing messages\<close>

lemma emit_flushed_Some:
  "emit_flushed s = Some (m, s') \<longleftrightarrow>
     (\<exists>b. sm_peer_flush s = Some b \<and> barrier_offset b \<le> sink_offset s
        \<and> m = (stream_envelope Kind_Flushed s)\<lparr>env_flushed := Some b\<rparr>
        \<and> s' = touch (s\<lparr>sm_peer_flush := None\<rparr>))"
  by (cases "sm_peer_flush s") (auto simp: emit_flushed_def)

lemma emit_window_Some:
  "emit_window s = Some (m, s') \<longleftrightarrow>
     (\<exists>l. l = saturating_add_i64 (sm_consumed s) (int (cfg_receive_window (sm_config s)))
        \<and> sm_advertised_limit s < l
        \<and> m = (stream_envelope Kind_Window s)\<lparr>env_window := Some \<lparr>window_max_offset = l\<rparr>\<rparr>
        \<and> s' = touch (s\<lparr>sm_advertised_limit := l\<rparr>))"
  by (auto simp: emit_window_def Let_def)

lemma emit_closed_Some:
  "emit_closed s = Some (m, s') \<longleftrightarrow>
     (\<exists>c. sm_close_pending s = Some c \<and> m = (stream_envelope Kind_Closed s)\<lparr>env_closed := Some c\<rparr>
        \<and> s' = touch (s\<lparr>sm_close_pending := None, sm_completed := Some
             \<lparr>cr_disposition = closed_disposition c,
              cr_unread_response_discarded = closed_unread_response_discarded c,
              cr_facts = closed_facts c\<rparr>\<rparr>))"
  by (cases "sm_close_pending s") (auto simp: emit_closed_def)

lemma emit_flush_Some:
  "emit_flush s = Some (m, s') \<longleftrightarrow>
     (\<exists>f. sm_flush s = Some f \<and> \<not> pf_sent f \<and> sm_sent s = pf_offset f
        \<and> m = (stream_envelope Kind_Flush s)
             \<lparr>env_flush := Some \<lparr>barrier_barrier_id = pf_id f, barrier_offset = pf_offset f\<rparr>\<rparr>
        \<and> s' = touch (s\<lparr>sm_flush := Some (f\<lparr>pf_sent := True\<rparr>)\<rparr>))"
  by (cases "sm_flush s") (auto simp: emit_flush_def)

lemma send_drain_simps [simp]:
  "sm_config (send_drain n s) = sm_config s" "sm_recv (send_drain n s) = sm_recv s" "sm_now (send_drain n s) = sm_now s"
  "sm_io (send_drain n s) = sm_io s" "sm_received (send_drain n s) = sm_received s" "sm_consumed (send_drain n s) = sm_consumed s"
  "sm_peer_limit (send_drain n s) = sm_peer_limit s" "sm_advertised_limit (send_drain n s) = sm_advertised_limit s" "sm_end_requested (send_drain n s) = sm_end_requested s"
  "sm_end_sent (send_drain n s) = sm_end_sent s" "sm_end_received (send_drain n s) = sm_end_received s" "sm_flush (send_drain n s) = sm_flush s"
  "sm_flush_serial (send_drain n s) = sm_flush_serial s" "sm_flush_acked (send_drain n s) = sm_flush_acked s" "sm_peer_flush (send_drain n s) = sm_peer_flush s"
  "sm_peer_flush_serial (send_drain n s) = sm_peer_flush_serial s" "sm_close_deadline (send_drain n s) = sm_close_deadline s" "sm_close_sent (send_drain n s) = sm_close_sent s"
  "sm_close_received (send_drain n s) = sm_close_received s" "sm_discarding (send_drain n s) = sm_discarding s" "sm_discarded (send_drain n s) = sm_discarded s"
  "sm_close_pending (send_drain n s) = sm_close_pending s" "sm_completed (send_drain n s) = sm_completed s" "sm_error (send_drain n s) = sm_error s"
  "sm_failure_facts (send_drain n s) = sm_failure_facts s" "sm_retained_failure (send_drain n s) = sm_retained_failure s" "sm_terminal_message (send_drain n s) = sm_terminal_message s"
  "sm_peak_send (send_drain n s) = sm_peak_send s" "sm_peak_recv (send_drain n s) = sm_peak_recv s" "sm_revision (send_drain n s) = sm_revision s"
  "sm_send (send_drain n s) = drop n (sm_send s)" "sm_sent (send_drain n s) = sm_sent s + int n"
  by (simp_all add: send_drain_def Let_def)

lemma emit_data_Some:
  assumes "send_inv s" "validate_config (sm_config s) = Inr ()" "emit_data s = Some (m, s')"
  obtains n where "0 < n" "n \<le> length (sm_send s)" "n \<le> cfg_max_payload (sm_config s)"
    "sm_sent s + int n \<le> sm_peer_limit s"
    "m = (stream_envelope Kind_Data s)
       \<lparr>env_data := Some \<lparr>data_offset = sm_sent s, data_payload = take n (sm_send s)\<rparr>\<rparr>"
    "s' = touch (send_drain n s)"
proof -
  define credit where "credit = i64_as_usize (sm_peer_limit s - sm_sent s)"
  define n where "n = min (min (length (sm_send s)) (cfg_max_payload (sm_config s))) credit"
  have c: "credit = nat (sm_peer_limit s - sm_sent s)"
    using assms(1) by (simp add: credit_def send_inv_def i64_as_usize_nonneg)
  have e: "sm_send s \<noteq> []" "credit > 0"
    and m: "m = (stream_envelope Kind_Data (send_drain n s))
       \<lparr>env_data := Some \<lparr>data_offset = sm_sent s, data_payload = take n (sm_send s)\<rparr>\<rparr>"
      "s' = touch (send_drain n s)"
    using assms(3) unfolding emit_data_def credit_def [symmetric] n_def [symmetric] Let_def
    by (simp_all split: if_splits)
  have n: "0 < n" "n \<le> length (sm_send s)" "n \<le> cfg_max_payload (sm_config s)" "n \<le> credit"
    using e validate_config_ok(16) [OF assms(2)] by (auto simp: n_def)
  show thesis
    using n c e(2) m by (intro that [of n]) (simp_all add: stream_envelope_def)
qed

lemma emit_end_write_Some:
  "emit_end_write s = Some (m, s') \<longleftrightarrow>
     sm_end_requested s \<and> \<not> sm_end_sent s \<and> sm_send s = []
     \<and> m = (stream_envelope Kind_EndWrite s)\<lparr>env_end_write := Some \<lparr>endw_final_offset = sm_sent s\<rparr>\<rparr>
     \<and> s' = touch (s\<lparr>sm_end_sent := True\<rparr>)"
  by (auto simp: emit_end_write_def)

lemma emit_close_Some:
  "emit_close s = Some (m, s') \<longleftrightarrow>
     cfg_side (sm_config s) = Side_Initiator \<and> sm_close_deadline s \<noteq> None \<and> sm_end_sent s \<and> \<not> sm_close_sent s
     \<and> m = (stream_envelope Kind_Close s)\<lparr>env_close := Some \<lparr>close_final_offset = sm_sent s\<rparr>\<rparr>
     \<and> s' = touch (s\<lparr>sm_close_sent := True\<rparr>)"
  by (auto simp: emit_close_def is_some_def)

lemma first_emit_cases:
  obtains (none) "\<forall>f\<in>set fs. f s = None" "first_emit fs s = (None, s)"
  | (some) i m s' where "i < length fs" "(fs ! i) s = Some (m, s')" "\<forall>j<i. (fs ! j) s = None"
      "first_emit fs s = (Some m, s')"
proof (induction fs arbitrary: thesis)
  case (Cons f fs)
  show ?case
  proof (cases "f s")
    case None
    show ?thesis
    proof (rule Cons.IH)
      fix i m s' assume "i < length fs" "(fs ! i) s = Some (m, s')" "\<forall>j<i. (fs ! j) s = None"
        "first_emit fs s = (Some m, s')"
      then show ?thesis using None by (intro Cons.prems(2) [of "Suc i" m s']) (auto simp: less_Suc_eq_0_disj)
    qed (use None Cons.prems(1) in simp)
  next
    case (Some p)
    then show ?thesis by (intro Cons.prems(2) [of 0 "fst p" "snd p"]) (simp_all add: split_beta)
  qed
qed simp

lemma next_message_form:
  obtains (quiet) "next_message s = (None, s)" "sm_terminal_message s = None"
      "\<not> stream_terminal s \<Longrightarrow> emit_flushed s = None \<and> emit_window s = None \<and> emit_closed s = None
         \<and> emit_flush s = None \<and> emit_data s = None \<and> emit_end_write s = None \<and> emit_close s = None"
  | (notice) m where "sm_terminal_message s = Some m" "next_message s = (Some m, touch (s\<lparr>sm_terminal_message := None\<rparr>))"
  | (emits_flushed) m s' where "sm_terminal_message s = None" "\<not> stream_terminal s" "emit_flushed s = Some (m, s')"
      "next_message s = (Some m, s')"
  | (emits_window) m s' where "sm_terminal_message s = None" "\<not> stream_terminal s" "emit_window s = Some (m, s')"
      "next_message s = (Some m, s')"
  | (emits_closed) m s' where "sm_terminal_message s = None" "\<not> stream_terminal s" "emit_closed s = Some (m, s')"
      "next_message s = (Some m, s')"
  | (emits_flush) m s' where "sm_terminal_message s = None" "\<not> stream_terminal s" "emit_flush s = Some (m, s')"
      "next_message s = (Some m, s')"
  | (emits_data) m s' where "sm_terminal_message s = None" "\<not> stream_terminal s" "emit_data s = Some (m, s')"
      "next_message s = (Some m, s')"
  | (emits_end_write) m s' where "sm_terminal_message s = None" "\<not> stream_terminal s" "emit_end_write s = Some (m, s')"
      "next_message s = (Some m, s')"
      "emit_flush s = None"
  | (emits_close) m s' where "sm_terminal_message s = None" "\<not> stream_terminal s" "emit_close s = Some (m, s')"
      "next_message s = (Some m, s')"
proof (cases "sm_terminal_message s")
  case (Some m)
  then show thesis by (intro notice) (simp_all add: next_message_def)
next
  case None
  show thesis
  proof (cases "stream_terminal s")
    case True
    then show thesis using None by (intro quiet) (simp_all add: next_message_def)
  next
    case False
    let ?fs = "[emit_flushed, emit_window, emit_closed, emit_flush, emit_data, emit_end_write, emit_close]"
    have nm: "next_message s = first_emit ?fs s" using None False by (simp add: next_message_def)
    show thesis
    proof (cases rule: first_emit_cases [of ?fs s])
      case none
      then show thesis using None by (intro quiet) (simp_all add: nm)
    next
      case (some i m s')
      note eq = some(4) [folded nm]
      have "i = 0 \<or> i = 1 \<or> i = 2 \<or> i = 3 \<or> i = 4 \<or> i = 5 \<or> i = 6" using some(1) by auto
      then have "emit_flushed s = Some (m, s') \<or> emit_window s = Some (m, s') \<or> emit_closed s = Some (m, s')
          \<or> emit_flush s = Some (m, s') \<or> emit_data s = Some (m, s')
          \<or> (emit_end_write s = Some (m, s') \<and> emit_flush s = None) \<or> emit_close s = Some (m, s')"
        using some(2,3) by (elim disjE) (simp_all, auto dest: spec [of _ 3])
      then show thesis using None False eq that by blast
    qed
  qed
qed

lemma emit_flushed_inv:
  assumes inv: "sm_inv s" and e: "emit_flushed s = Some (m, s')"
  shows "sm_inv s'"
proof -
  note g = sm_invD [OF inv]
  let ?s = "s\<lparr>sm_peer_flush := None\<rparr>"
  have "flush_inv ?s" using g(4) by (auto simp: flush_inv_def)
  moreover have "pending_inv ?s" using g(6) by (simp add: pending_inv_def)
  moreover have "dead_inv ?s" using g(8) by (simp add: dead_inv_def)
  ultimately show ?thesis using g e by (auto simp: emit_flushed_Some sm_inv_def)
qed

lemma emit_window_inv:
  assumes inv: "sm_inv s" and e: "emit_window s = Some (m, s')"
  shows "sm_inv s'"
proof -
  note g = sm_invD [OF inv]
  define l where "l = saturating_add_i64 (sm_consumed s) (int (cfg_receive_window (sm_config s)))"
  have w: "sm_advertised_limit s < l" "s' = touch (s\<lparr>sm_advertised_limit := l\<rparr>)"
    using e unfolding emit_window_Some l_def by blast+
  have "l \<le> i64_max" using saturating_add_i64_in by (simp add: l_def in_i64_def)
  moreover have "l \<le> sm_consumed s + int (cfg_receive_window (sm_config s))"
    using g(3) saturating_add_i64_le by (simp add: l_def recv_inv_def)
  ultimately have "recv_inv (s\<lparr>sm_advertised_limit := l\<rparr>)"
    using g(3) w(1) by (simp add: recv_inv_def)
  then show ?thesis using g w(2) by (simp add: sm_inv_def)
qed

lemma emit_closed_inv:
  assumes inv: "sm_inv s" and live: "\<not> stream_terminal s" and e: "emit_closed s = Some (m, s')"
  shows "sm_inv s'"
proof -
  note g = sm_invD [OF inv]
  obtain c r where c: "sm_close_pending s = Some c"
      "s' = touch (s\<lparr>sm_close_pending := None, sm_completed := Some r\<rparr>)"
    using e unfolding emit_closed_Some by blast
  let ?s = "s\<lparr>sm_close_pending := None, sm_completed := Some r\<rparr>"
  have p: "sm_close_received s" "sm_end_sent s" "sm_recv s = []"
    using g(6) c(1) by (simp_all add: pending_inv_def)
  have "sm_end_received s" "cfg_side (sm_config s) = Side_Endpoint" using g(5) p(1) by (simp_all add: close_inv_def)
  then have "done_inv ?s" using p live by (simp add: done_inv_def stream_terminal_iff)
  moreover have "pending_inv ?s" by (simp add: pending_inv_def)
  moreover have "dead_inv ?s" using g(8) by (simp add: dead_inv_def)
  moreover have "io_inv ?s" by (simp add: io_inv_def stream_terminal_iff)
  ultimately show ?thesis using g c(2) by (simp add: sm_inv_def)
qed

lemma emit_flush_inv:
  assumes inv: "sm_inv s" and e: "emit_flush s = Some (m, s')"
  shows "sm_inv s'"
proof -
  note g = sm_invD [OF inv]
  obtain f where f: "sm_flush s = Some f" "sm_sent s = pf_offset f"
      "s' = touch (s\<lparr>sm_flush := Some (f\<lparr>pf_sent := True\<rparr>)\<rparr>)"
    using e unfolding emit_flush_Some by blast
  let ?s = "s\<lparr>sm_flush := Some (f\<lparr>pf_sent := True\<rparr>)\<rparr>"
  have "flush_inv ?s" using g(4) f(1,2) by (auto simp: flush_inv_def)
  moreover have "pending_inv ?s" using g(6) f(1) by (auto simp: pending_inv_def)
  moreover have "dead_inv ?s" using g(8) f(1) by (cases "sm_error s") (simp_all add: dead_inv_def)
  ultimately show ?thesis using g f(3) by (simp add: sm_inv_def)
qed

lemma emit_data_inv:
  assumes inv: "sm_inv s" and e: "emit_data s = Some (m, s')"
  shows "sm_inv s'"
proof -
  note g = sm_invD [OF inv]
  obtain n where n: "0 < n" "n \<le> length (sm_send s)" "sm_sent s + int n \<le> sm_peer_limit s"
      "s' = touch (send_drain n s)"
    using emit_data_Some [OF g(2,1) e] by blast
  let ?s = "send_drain n s"
  have "send_inv ?s" using g(2) n(1-3) by (auto simp: send_inv_def)
  moreover have "recv_inv ?s" using g(3) by (simp add: recv_inv_def)
  moreover have "flush_inv ?s" using g(4) n(1,2) by (auto simp: flush_inv_def)
  moreover have "close_inv ?s" using g(5) by (simp add: close_inv_def)
  moreover have "pending_inv ?s" using g(6) by (simp add: pending_inv_def)
  moreover have "done_inv ?s" using g(7) by (simp add: done_inv_def)
  moreover have "dead_inv ?s" using g(8) by (simp add: dead_inv_def)
  moreover have "io_inv ?s" using g(9) by (simp add: io_inv_def stream_terminal_iff)
  ultimately show ?thesis using g(1) n(4) by (simp add: sm_inv_def)
qed

lemma emit_end_write_inv:
  assumes inv: "sm_inv s" and e: "emit_end_write s = Some (m, s')" and f: "emit_flush s = None"
  shows "sm_inv s'"
proof -
  note g = sm_invD [OF inv]
  let ?s = "s\<lparr>sm_end_sent := True\<rparr>"
  have w: "sm_end_requested s" "sm_send s = []" "s' = touch ?s" using e unfolding emit_end_write_Some by blast+
  have "pf_sent p" if "sm_flush s = Some p" for p
    using f g(4) that w(2) by (auto simp: emit_flush_def flush_inv_def split: if_splits)
  then have "flush_inv ?s" using g(4) by (auto simp: flush_inv_def)
  moreover have "send_inv ?s" using g(2) w(1,2) by (simp add: send_inv_def)
  moreover have "close_inv ?s" using g(5) by (simp add: close_inv_def)
  moreover have "pending_inv ?s" using g(6) by (simp add: pending_inv_def)
  moreover have "done_inv ?s" using g(7) by (simp add: done_inv_def)
  ultimately show ?thesis using g w(3) by (simp add: sm_inv_def)
qed

lemma emit_close_inv:
  assumes inv: "sm_inv s" and e: "emit_close s = Some (m, s')"
  shows "sm_inv s'"
proof -
  note g = sm_invD [OF inv]
  let ?s = "s\<lparr>sm_close_sent := True\<rparr>"
  have w: "cfg_side (sm_config s) = Side_Initiator" "sm_end_sent s" "s' = touch ?s"
    using e unfolding emit_close_Some by blast+
  have "close_inv ?s" using g(5) w(1,2) by (simp add: close_inv_def)
  moreover have "done_inv ?s" using g(7) w(1) by (simp add: done_inv_def)
  ultimately show ?thesis using g w(3) by (simp add: sm_inv_def)
qed

lemma next_message_inv:
  assumes inv: "sm_inv s"
  shows "sm_inv (snd (next_message s))"
  using emit_flushed_inv [OF inv] emit_window_inv [OF inv] emit_closed_inv [OF inv] emit_flush_inv [OF inv]
    emit_data_inv [OF inv] emit_end_write_inv [OF inv] emit_close_inv [OF inv]
    terminal_message_inv [OF inv, of None] inv
  by (cases rule: next_message_form [of s]) simp_all

lemma apply_inv: "sm_inv s \<Longrightarrow> sm_inv (stream_apply op s)"
  by (cases op) (simp_all add: write_inv read_inv start_flush_inv end_write_inv start_close_inv cancel_def
      fail_inv disconnect_inv fail_terminal_inv complete_close_inv set_io_state_inv record_io_progress_inv
      advance_inv receive_inv next_message_inv)

lemma next_message_terminal: "stream_terminal s \<Longrightarrow> outcome (snd (next_message s)) = outcome s"
  by (simp add: next_message_def outcome_def split: option.splits)

lemma apply_terminal:
  assumes "stream_terminal s"
  shows "outcome (stream_apply op s) = outcome s"
proof -
  obtain e where l: "stream_live s = Inl e" using stream_live_dead [OF assms] by blast
  have "outcome (snd (stream_read n s)) = outcome s" for n
    by (cases rule: read_form [of n s]) (simp_all add: outcome_def)
  moreover have "outcome (stream_advance t s) = outcome s" for t
    using assms by (cases rule: advance_form [of t s]) (simp_all add: outcome_def)
  moreover have "outcome (snd (start_close s)) = outcome s"
    using assms by (cases rule: start_close_form [of s]) simp_all
  moreover have "outcome (disconnect s) = outcome s"
    using assms by (simp add: outcome_def disconnect_def)
  moreover have "outcome (snd (stream_receive m s)) = outcome s" for m
    using assms by (simp add: stream_receive_def)
  ultimately show ?thesis
    using assms l
    by (cases op) (simp_all add: stream_write_def start_flush_def end_write_def cancel_def fail_terminal_def
        complete_close_with_failure_def set_io_state_def record_io_progress_def next_message_terminal)
qed

section \<open>Reachable machines\<close>

interpretation stream_machines: invariant_system stream_start stream_step sm_inv
  by unfold_locales (auto simp: stream_start_def stream_step_def new_inv apply_inv)

lemma sample_config_valid: "validate_config (config_new ''s'' 1 sd) = Inr ()"
proof -
  let ?p = "config_probe (config_new ''s'' 1 sd)"
  have v: "validate_envelope ?p = Inr ()"
    by (simp add: validate_envelope_def validate_header_def validate_failures_def validate_stream_bodies_def
      bodies_def config_probe_def config_new_def default_envelope_def checked_add_i64_def in_i64_def i64_min_def i64_max_def)
  have "admit_limited ?p default_limits = Inr ()"
    unfolding admit_limited_def v validate_default and_then_Inr admit_envelope_ok admissible_iff
    by (simp add: envelope_to_cbor_def config_probe_def config_new_def default_envelope_def data_msg_to_cbor_def
     budget_head_def node_charge_def i64_as_usize_numeral i64_as_usize_one max_data_def max_metadata_def i64_max_def)
  moreover have "cfg_receive_limits (config_new ''s'' 1 sd) = default_limits"
      "cfg_peer_limits (config_new ''s'' 1 sd) = default_limits" by (simp_all add: config_new_def)
  moreover have "lim_receive_window default_limits = 1048576" "lim_data_payload default_limits = 65536"
      "lim_queued_bytes default_limits = 4194304" "lim_control_reserve_bytes default_limits = 65536"
    by (simp_all add: default_limits_def)
  ultimately show ?thesis
    by (simp add: validate_config_def usable_default) (simp add: config_new_def i32_max_def)
qed

lemma sample_machine_new: "stream_new (config_new ''s'' 1 sd) = Inr (sample_machine sd)"
  by (simp add: sample_machine_def stream_new_def sample_config_valid)

lemma sample_machine_start: "stream_start (sample_machine sd)"
  using sample_machine_new stream_start_def by blast

lemma stream_one_step: "stream_step\<^sup>*\<^sup>* s (stream_apply op s)"
  by (rule r_into_rtranclp) (auto simp: stream_step_def)

lemma terminal_outcome: "outcome s' = outcome s \<Longrightarrow> stream_terminal s' = stream_terminal s"
  by (simp add: outcome_def stream_terminal_iff)

lemma sample_machine_simps [simp]:
  "sm_config (sample_machine sd) = config_new ''s'' 1 sd" "sm_send (sample_machine sd) = []"
  "sm_recv (sample_machine sd) = []" "sm_error (sample_machine sd) = None"
  "sm_completed (sample_machine sd) = None" "sm_end_requested (sample_machine sd) = False"
  "sm_flush (sample_machine sd) = None" "sm_sent (sample_machine sd) = 0" "sm_now (sample_machine sd) = 0"
  "sm_close_deadline (sample_machine sd) = None" "sm_close_received (sample_machine sd) = False"
  "sm_io (sample_machine sd) = io_new 3000 120000" "sm_retained_failure (sample_machine sd) = None"
  "sm_failure_facts (sample_machine sd) = None" "stream_terminal (sample_machine sd) = False"
  by (simp_all add: sample_machine_def stream_new_def sample_config_valid stream_terminal_iff)
    (simp add: config_new_def)

section \<open>Properties\<close>

text \<open>
  C18: whatever the application, the host and the peer do, a stream stays within its bounds.
  The buffers never exceed the configured sizes, nothing is sent beyond the peer's credit, the
  credit given away never exceeds what the receive buffer can hold, the buffered bytes are
  exactly those received and not yet consumed, and every offset stays an i64.
\<close>

theorem stream_bounds:
  assumes "stream_start s0" "stream_step\<^sup>*\<^sup>* s0 s"
  shows "let c = sm_config s; t = stats s in
    snap_send_buffer t \<le> snap_peak_send_buffer t \<and> snap_peak_send_buffer t \<le> cfg_send_buffer c
    \<and> snap_received_buffer t \<le> snap_peak_received_buffer t
    \<and> snap_peak_received_buffer t \<le> cfg_receive_window c
    \<and> 0 \<le> snap_sent t \<and> snap_sent t \<le> snap_peer_limit t \<and> snap_peer_limit t \<le> i64_max
    \<and> snap_peer_limit t \<le> snap_sent t + int (cfg_peer_receive_window c)
    \<and> snap_sent t + int (snap_send_buffer t) \<le> i64_max
    \<and> 0 \<le> snap_consumed t \<and> snap_consumed t + int (snap_received_buffer t) = snap_received t
    \<and> snap_received t \<le> snap_advertised_limit t \<and> snap_advertised_limit t \<le> i64_max
    \<and> snap_advertised_limit t \<le> snap_consumed t + int (cfg_receive_window c)"
  using sm_invD(2,3) [OF stream_machines.reachable_inv [OF assms]]
  by (simp add: stats_def send_inv_def recv_inv_def)

theorem stream_bounds_witness:
  "snap_send_buffer (stats (stream_apply (Op_Write [1, 2, 3]) (sample_machine Side_Initiator))) = 3
   \<and> snap_sent (stats (stream_apply (Op_Write [1, 2, 3]) (sample_machine Side_Initiator)))
       \<le> snap_peer_limit (stats (stream_apply (Op_Write [1, 2, 3]) (sample_machine Side_Initiator)))"
  using stream_bounds [OF sample_machine_start stream_one_step [of "sample_machine Side_Initiator" "Op_Write [1, 2, 3]"]]
  by (simp add: Let_def)
    (simp add: stats_def stream_write_def stream_terminal_iff config_new_def Let_def in_i64_def
      i64_min_def i64_max_def checked_add_i64_def)

text \<open>
  C19: the first terminal outcome wins. Once a stream has failed or completed, no operation and
  no message changes its error, its close result, the retained failure or its facts.
\<close>

theorem first_terminal_wins:
  assumes "stream_step\<^sup>*\<^sup>* s s'" "stream_terminal s"
  shows "outcome s' = outcome s"
proof (rule rtranclp_stable [where P = stream_terminal, OF assms])
  fix s s' assume "stream_terminal s" "stream_step s s'"
  then show "stream_terminal s' \<and> outcome s' = outcome s"
    using apply_terminal terminal_outcome by (metis stream_step_def)
qed

theorem first_terminal_wins_witness:
  "outcome (disconnect (cancel (sample_machine Side_Initiator))) = (Some Stream_Cancelled, None, None, None)"
proof -
  let ?s = "cancel (sample_machine Side_Initiator)"
  have "outcome ?s = (Some Stream_Cancelled, None, None, None)" by (simp add: cancel_def outcome_def)
  moreover have "stream_terminal ?s" by (simp add: cancel_def stream_terminal_iff)
  ultimately show ?thesis
    using first_terminal_wins [OF stream_one_step [of ?s Op_Disconnect]] by simp
qed

text \<open>
  C21: an enabled network timer is never lost. In every reachable live stream with a nonzero
  timeout, the network state has a running deadline, however the host paused and resumed it.
\<close>

theorem network_timer_armed:
  assumes "stream_start s0" "stream_step\<^sup>*\<^sup>* s0 s" "\<not> stream_terminal s"
    and "0 < cfg_io_timeout_ms (sm_config s)" "ioc_state (sm_io s) = Io_Network"
  shows "ios_active_deadline (stream_io_status s) \<noteq> None"
  using sm_invD(9) [OF stream_machines.reachable_inv [OF assms(1,2)]] assms(3-5)
  by (simp add: io_inv_def io_wf_def stream_io_status_def io_clock_status_def Let_def split: prod.splits)

theorem network_timer_armed_witness:
  "ios_active_deadline (stream_io_status (stream_apply (Op_SetIoState Io_Network) (sample_machine Side_Endpoint))) \<noteq> None"
proof (rule network_timer_armed [OF sample_machine_start stream_one_step])
  have "set_io_state Io_Network (sample_machine Side_Endpoint)
      = (Inr (), (sample_machine Side_Endpoint)\<lparr>sm_io := \<lparr>ioc_state = Io_Network, ioc_network_remaining_ms = 3000,
          ioc_interaction_remaining_ms = 120000, ioc_deadline = Some 3000\<rparr>\<rparr>)"
    by (simp add: set_io_state_def expire_io_if_due_def io_expired_def stream_terminal_iff config_new_def
        io_new_def io_due_def io_clock_status_def io_set_state_def io_account_def saturating_add_u64_def
        u64_max_def Let_def)
  then show "\<not> stream_terminal (stream_apply (Op_SetIoState Io_Network) (sample_machine Side_Endpoint))"
      "0 < cfg_io_timeout_ms (sm_config (stream_apply (Op_SetIoState Io_Network) (sample_machine Side_Endpoint)))"
      "ioc_state (sm_io (stream_apply (Op_SetIoState Io_Network) (sample_machine Side_Endpoint))) = Io_Network"
    by (simp_all add: stream_terminal_iff) (simp add: config_new_def)
qed

lemma failure_notice_content:
  "env_session_id (failure_notice e s) = cfg_session_id (sm_config s)"
  "env_stream_id (failure_notice e s) = cfg_stream_id (sm_config s)"
  "e = Stream_Protocol \<Longrightarrow> map_option fail_code (env_failed (failure_notice e s)) = Some Code_Protocol"
  "e = Stream_Timeout \<Longrightarrow> cfg_side (sm_config s) = Side_Endpoint
     \<Longrightarrow> map_option fail_code (env_failed (failure_notice e s)) = Some Code_Timeout"
  "e = Stream_Timeout \<Longrightarrow> cfg_side (sm_config s) = Side_Initiator
     \<Longrightarrow> map_option cancel_reason (env_cancel (failure_notice e s)) = Some Code_Timeout"
  by (auto simp: failure_notice_def stream_envelope_def default_envelope_def)

text \<open>
  C20: a refused delivery fails the stream and is reported. The error is a protocol violation or
  a timeout, and it becomes the stream's outcome. The next message tells the peer, on the same
  session and stream: a failure with the error's code, or from an initiator that timed out a
  cancellation for that reason. Unsent bytes are dropped and received bytes stay readable.
\<close>

theorem receive_error:
  assumes "stream_receive m s = (Inl e, s')"
  shows "(e = Stream_Protocol \<or> e = Stream_Timeout) \<and> sm_error s' = Some e
    \<and> fst (next_message s') = Some (failure_notice e s)
    \<and> env_session_id (failure_notice e s) = cfg_session_id (sm_config s)
    \<and> env_stream_id (failure_notice e s) = cfg_stream_id (sm_config s)
    \<and> (if e = Stream_Protocol then map_option fail_code (env_failed (failure_notice e s)) = Some Code_Protocol
       else if cfg_side (sm_config s) = Side_Endpoint
       then map_option fail_code (env_failed (failure_notice e s)) = Some Code_Timeout
       else map_option cancel_reason (env_cancel (failure_notice e s)) = Some Code_Timeout)
    \<and> sm_send s' = [] \<and> sm_recv s' = sm_recv s"
proof -
  have "(e = Stream_Protocol \<or> e = Stream_Timeout) \<and> sm_error s' = Some e
    \<and> fst (next_message s') = Some (failure_notice e s) \<and> sm_send s' = [] \<and> sm_recv s' = sm_recv s"
  proof (cases rule: receive_form [of s m])
    case (refused e')
    then have "e' = Stream_Protocol" using stream_accept_error by blast
    then show ?thesis using assms refused by (auto simp: next_message_def)
  qed (use assms in \<open>auto simp: next_message_def\<close>)
  then show ?thesis using failure_notice_content [of e s] by (cases "cfg_side (sm_config s)") auto
qed

theorem receive_error_witness:
  "fst (next_message (snd (stream_receive default_envelope (sample_machine Side_Endpoint))))
     = Some (failure_notice Stream_Protocol (sample_machine Side_Endpoint))"
proof -
  have "stream_receive default_envelope (sample_machine Side_Endpoint)
      = (Inl Stream_Protocol, stream_fail Stream_Protocol True (sample_machine Side_Endpoint))"
    by (simp add: stream_receive_def stream_terminal_iff expire_io_if_due_def io_expired_def io_due_def io_new_def
        stream_accept_def config_new_def default_envelope_def)
  then show ?thesis using receive_error by fastforce
qed

end
