(* ===== verification/Stream_Clock.thy ===== *)
theory Stream_Clock
  imports Stream_Invariant
begin

text \<open>
  The activity clock inside a stream machine. The clock of \<open>stream/io_clock.rs\<close> does not
  check its deadlines itself; the operations of the machine do, before they report to it. Here
  the two together: how each operation moves the clock, and what that means for the time a
  stream can spend waiting for a person.
\<close>

text \<open>The time a history of operations spends in the interaction state.\<close>

fun interaction_time :: "stream_op list \<Rightarrow> stream_machine \<Rightarrow> nat" where
  "interaction_time [] s = 0"
| "interaction_time (op # ops) s =
     (if ios_state (stream_io_status s) = Io_Interaction then sm_now (stream_apply op s) - sm_now s else 0)
     + interaction_time ops (stream_apply op s)"

text \<open>How an operation that leaves the stream live moves its clock.\<close>

inductive clock_step :: "stream_machine \<Rightarrow> stream_machine \<Rightarrow> bool" for s s' where
  same: "sm_now s' = sm_now s \<Longrightarrow> sm_io s' = sm_io s \<Longrightarrow> clock_step s s'"
| time: "sm_now s \<le> sm_now s' \<Longrightarrow> sm_io s' = sm_io s \<Longrightarrow> \<not> io_due (sm_now s') (sm_io s) \<Longrightarrow> clock_step s s'"
| stop: "sm_now s' = sm_now s \<Longrightarrow> sm_io s' = io_stop (sm_now s) (sm_io s) \<Longrightarrow> clock_step s s'"
| set_state: "sm_now s' = sm_now s \<Longrightarrow> sm_io s' = io_set_state (sm_now s) st (sm_io s) \<Longrightarrow> clock_step s s'"
| progress: "sm_now s' = sm_now s \<Longrightarrow> sm_io s' = snd (io_progress (sm_now s) n t (sm_io s)) \<Longrightarrow> clock_step s s'"

text \<open>A stream that waits for a person twice, with network activity between.\<close>

definition sample_history :: "stream_op list" where
  "sample_history = [Op_SetIoState Io_Interaction, Op_Advance 40000, Op_SetIoState Io_Network, Op_RecordIoProgress 5,
     Op_Advance 42000, Op_SetIoState Io_Interaction, Op_Advance 60000]"

definition sample_at :: "u64 \<Rightarrow> io_clock \<Rightarrow> stream_machine" where
  "sample_at now io = (sample_machine Side_Endpoint)\<lparr>sm_now := now, sm_io := io\<rparr>"

section \<open>The clock under the operations\<close>

lemma fail_is_terminal [simp]:
  "stream_terminal (stream_fail e b s)" "stream_terminal ((stream_fail e b s)\<lparr>sm_retained_failure := f\<rparr>)"
  by (auto simp: stream_fail_def stream_terminal_iff)

lemma fail_error_None [simp]: "sm_error (stream_fail e b s) = None \<longleftrightarrow> sm_error s = None \<and> sm_completed s \<noteq> None"
  by (auto simp: stream_fail_def stream_terminal_iff)

lemma taken_clock [simp]:
  "sm_now (data_taken d s) = sm_now s" "sm_io (data_taken d s) = sm_io s" "stream_terminal (closed_taken c s)"
  by (simp_all add: data_taken_def Let_def)
    (cases "closed_failure c"; cases "sm_error s"; simp add: closed_taken_def stream_fail_def stream_terminal_iff)

lemma advance_clock:
  assumes "\<not> stream_terminal (stream_advance t s)"
  shows "clock_step s (stream_advance t s)"
proof (cases "t < sm_now s")
  case True
  then show ?thesis by (simp add: stream_advance_def clock_step.same)
next
  case False
  then have "\<not> stream_terminal s" "\<not> io_due t (sm_io s)"
    using assms by (auto simp: stream_advance_def Let_def io_expired_def stream_terminal_iff split: if_splits)
  then show ?thesis
    using False assms by (intro clock_step.time) (auto simp: stream_advance_def Let_def stream_terminal_iff split: if_splits)
qed

lemma accept_clock:
  assumes "stream_accept m s = Inr s'" "\<not> stream_terminal s'"
  shows "clock_step s s'"
proof -
  have "accept_body m s = Inr s'" using assms(1) by (auto simp: stream_accept_def and_then_eq_Inr)
  then show ?thesis
    using assms(2)
    by (cases "env_kind m")
      (auto simp: accept_body_def accept_ok stop_io_clock_def split: if_splits
        intro: clock_step.same clock_step.stop)
qed

lemma next_message_clock:
  assumes "\<not> stream_terminal (snd (next_message s))"
  shows "clock_step s (snd (next_message s))"
  using assms
  by (cases rule: next_message_form [of s])
    (auto simp: emit_flushed_def emit_window_def emit_closed_def emit_flush_def emit_data_def emit_end_write_def emit_close_def
      Let_def split: option.splits if_splits intro!: clock_step.same)

lemma apply_clock:
  assumes "\<not> stream_terminal (stream_apply op s)" "send_inv s"
  shows "clock_step s (stream_apply op s)"
proof (cases op)
  case (Op_Write input)
  then show ?thesis using assms(1)
    by (cases rule: write_form [of input s]) (auto simp: stream_terminal_iff intro: clock_step.same)
next
  case (Op_Read n)
  then show ?thesis by (cases rule: read_form [of n s]) (auto intro: clock_step.same)
next
  case Op_StartFlush
  then show ?thesis by (cases rule: start_flush_form [OF assms(2)]) (auto intro: clock_step.same)
next
  case Op_EndWrite
  then show ?thesis by (cases rule: end_write_form [of s]) (auto intro: clock_step.same)
next
  case Op_StartClose
  then show ?thesis
  proof (cases rule: start_close_form [of s])
    case closes
    then show ?thesis using Op_StartClose
      by (cases rule: end_write_form [of "close_discard s"]) (auto intro: clock_step.stop)
  qed (auto intro: clock_step.same)
next
  case (Op_CompleteClose d fa f)
  then show ?thesis by (cases rule: complete_close_form [of d fa f s]) (auto intro: clock_step.same)
next
  case (Op_FailTerminal f)
  then show ?thesis using assms(1)
    by (cases rule: fail_terminal_form [of f s]) (auto simp: stream_terminal_iff intro: clock_step.same)
next
  case (Op_SetIoState st)
  then show ?thesis using assms(1)
    by (cases rule: set_io_state_form [of st s]) (auto simp: stream_terminal_iff intro: clock_step.same clock_step.set_state)
next
  case (Op_RecordIoProgress n)
  then show ?thesis using assms(1)
    by (cases rule: record_io_progress_form [of n s]) (auto simp: stream_terminal_iff intro: clock_step.same clock_step.progress)
next
  case (Op_Receive m)
  then show ?thesis using assms(1) accept_clock [of m s]
    by (cases rule: receive_form [of s m]) (auto simp: stream_terminal_iff intro: clock_step.same)
qed (use assms(1) in \<open>auto simp: advance_clock next_message_clock cancel_def disconnect_def stream_terminal_iff\<close>)

text \<open>What one operation costs the interaction allowance.\<close>

lemma clock_step_cost:
  assumes "clock_step s s'" "io_wf t (sm_io s)"
  shows "(if ioc_state (sm_io s) = Io_Interaction then sm_now s' - sm_now s else 0)
      + ios_remaining_interaction_ms (stream_io_status s') \<le> ios_remaining_interaction_ms (stream_io_status s)"
    and "sm_now s' + ios_remaining_interaction_ms (stream_io_status s) \<le> u64_max \<Longrightarrow>
      (if ioc_state (sm_io s) = Io_Interaction then sm_now s' - sm_now s else 0)
      + ios_remaining_interaction_ms (stream_io_status s') = ios_remaining_interaction_ms (stream_io_status s)"
  using assms(1)
  by (cases; use io_wait_interaction [OF assms(2)] io_set_state_interaction [OF assms(2)] in
      \<open>auto simp: stream_io_status_def io_stop_interaction io_progress_interaction\<close>)+

section \<open>The allowance over a history\<close>

lemma stream_run_steps: "stream_step\<^sup>*\<^sup>* s (fold stream_apply ops s)"
proof (induction ops arbitrary: s)
  case (Cons op ops)
  have "stream_step s (stream_apply op s)" by (auto simp: stream_step_def)
  then show ?case using Cons [of "stream_apply op s"] by (simp add: converse_rtranclp_into_rtranclp)
qed simp

lemma live_before: "\<not> stream_terminal (fold stream_apply ops s) \<Longrightarrow> \<not> stream_terminal s"
proof (induction ops arbitrary: s)
  case (Cons op ops)
  then show ?case using apply_terminal [of s op] terminal_outcome [of "stream_apply op s" s] by auto
qed simp

lemma now_grows: "\<not> stream_terminal (fold stream_apply ops s) \<Longrightarrow> sm_inv s \<Longrightarrow> sm_now s \<le> sm_now (fold stream_apply ops s)"
proof (induction ops arbitrary: s)
  case (Cons op ops)
  let ?s = "stream_apply op s"
  have live: "\<not> stream_terminal ?s" using live_before [of ops ?s] Cons.prems(1) by simp
  have "sm_inv ?s" using stream_machines.step_inv [OF Cons.prems(2)] by (auto simp: stream_step_def)
  moreover have "sm_now s \<le> sm_now ?s"
    using apply_clock [OF live sm_invD(2) [OF Cons.prems(2)]] by cases simp_all
  ultimately show ?case using Cons.IH [of ?s] Cons.prems(1) by simp
qed simp

lemma history_cost:
  assumes "\<not> stream_terminal (fold stream_apply ops s)" "sm_inv s"
  shows "interaction_time ops s + ios_remaining_interaction_ms (stream_io_status (fold stream_apply ops s))
      \<le> ios_remaining_interaction_ms (stream_io_status s)
    \<and> (sm_now (fold stream_apply ops s) + ios_remaining_interaction_ms (stream_io_status s) \<le> u64_max \<longrightarrow>
      interaction_time ops s + ios_remaining_interaction_ms (stream_io_status (fold stream_apply ops s))
      = ios_remaining_interaction_ms (stream_io_status s))"
  using assms
proof (induction ops arbitrary: s)
  case (Cons op ops)
  let ?s = "stream_apply op s"
  have run: "\<not> stream_terminal (fold stream_apply ops ?s)" using Cons.prems(1) by simp
  note live = live_before [OF run] live_before [OF Cons.prems(1)]
  have inv: "sm_inv ?s" using stream_machines.step_inv [OF Cons.prems(2)] by (auto simp: stream_step_def)
  have wf: "io_wf (cfg_io_timeout_ms (sm_config s)) (sm_io s)" using sm_invD(9) [OF Cons.prems(2)] live(2) by (simp add: io_inv_def)
  note c = clock_step_cost [OF apply_clock [OF live(1) sm_invD(2) [OF Cons.prems(2)]] wf]
  have st: "ios_state (stream_io_status s) = ioc_state (sm_io s)"
    by (simp add: stream_io_status_def io_clock_status_def split: prod.splits)
  note ih = Cons.IH [OF run inv] and mono = now_grows [OF run inv]
  define w where "w = (if ioc_state (sm_io s) = Io_Interaction then sm_now ?s - sm_now s else 0)"
  have w: "interaction_time (op # ops) s = w + interaction_time ops ?s" by (simp add: w_def st)
  show ?case
    unfolding w fold.simps comp_apply
  proof (intro conjI impI)
    assume a: "sm_now (fold stream_apply ops ?s) + ios_remaining_interaction_ms (stream_io_status s) \<le> u64_max"
    then have "sm_now ?s + ios_remaining_interaction_ms (stream_io_status s) \<le> u64_max"
        "sm_now (fold stream_apply ops ?s) + ios_remaining_interaction_ms (stream_io_status ?s) \<le> u64_max"
      using mono c(1) by linarith+
    then show "w + interaction_time ops ?s + ios_remaining_interaction_ms (stream_io_status (fold stream_apply ops ?s))
        = ios_remaining_interaction_ms (stream_io_status s)"
      using ih c(2) unfolding w_def [symmetric] by linarith
  qed (use ih c(1) in \<open>unfold w_def [symmetric], linarith\<close>)
qed simp

section \<open>A sample history\<close>

lemma sample_at_start: "sample_machine Side_Endpoint = sample_at 0 (io_new 3000 120000)"
  by (cases "sample_machine Side_Endpoint")
    (use sample_machine_simps [of Side_Endpoint] in \<open>simp add: sample_at_def\<close>)

lemma sample_at_simps [simp]:
  "sm_now (sample_at n io) = n" "sm_io (sample_at n io) = io" "\<not> stream_terminal (sample_at n io)"
  "stream_io_status (sample_at n io) = io_clock_status n io"
  by (simp_all add: sample_at_def stream_io_status_def stream_terminal_iff)

lemma sample_batch: "sm_batch_deadline (sample_machine sd) = None"
  by (simp add: sample_machine_def stream_new_def sample_config_valid)

lemma sample_at_steps:
  assumes "\<not> io_due n io"
  shows "\<not> io_due n (io_set_state n st io) \<Longrightarrow> snd (set_io_state st (sample_at n io)) = sample_at n (io_set_state n st io)"
    "snd (record_io_progress k (sample_at n io)) = sample_at n (snd (io_progress n k 3000 io))"
    "n \<le> n' \<Longrightarrow> \<not> io_due n' io \<Longrightarrow> stream_advance n' (sample_at n io) = sample_at n' io"
  using assms
  by (auto simp: set_io_state_def record_io_progress_def stream_advance_def expire_io_if_due_def io_expired_def
      sample_at_def sample_batch stream_terminal_iff config_new_def Let_def split: sum.splits prod.splits)

lemma sample_history_run:
  "\<not> stream_terminal (fold stream_apply sample_history (sample_machine Side_Endpoint))"
  "interaction_time sample_history (sample_machine Side_Endpoint) = 58000"
  "sm_now (fold stream_apply sample_history (sample_machine Side_Endpoint)) = 60000"
  unfolding sample_at_start
  by (simp_all add: sample_history_def sample_at_steps io_new_def io_due_def io_set_state_def io_progress_def io_account_def
      io_clock_status_def saturating_add_u64_def u64_max_def)

section \<open>Properties\<close>

text \<open>
  C22: the interaction allowance is cumulative, and it is enforced. Whatever operations a stream
  goes through, in any order and at any times, as long as it is live the time it has spent in
  the interaction state and what is left of the allowance are together at most the allowance it
  was opened with, and exactly that while the clock does not saturate: pausing, resuming and
  network progress never refill it, and nothing else uses it up. In the interaction state, the
  stream fails with a timeout as soon as its time reaches what is left.
\<close>

theorem interaction_allowance:
  assumes "stream_new c = Inr s0" "s = fold stream_apply ops s0" "\<not> stream_terminal s"
  shows "interaction_time ops s0 + ios_remaining_interaction_ms (stream_io_status s) \<le> cfg_interaction_budget_ms c
    \<and> (sm_now s + cfg_interaction_budget_ms c \<le> u64_max \<longrightarrow>
         interaction_time ops s0 + ios_remaining_interaction_ms (stream_io_status s) = cfg_interaction_budget_ms c)
    \<and> (ios_state (stream_io_status s) = Io_Interaction \<and> sm_now s + ios_remaining_interaction_ms (stream_io_status s) \<le> t \<longrightarrow>
         sm_error (stream_advance t s) = Some Stream_Timeout)"
proof -
  have start: "stream_start s0" using assms(1) by (auto simp: stream_start_def)
  have inv: "sm_inv s0" "sm_inv s"
    using stream_machines.start_inv [OF start] stream_machines.reachable_inv [OF start stream_run_steps] assms(2) by auto
  have rem: "ios_remaining_interaction_ms (stream_io_status s0) = cfg_interaction_budget_ms c"
    using assms(1) by (auto simp: stream_new_def and_then_eq_Inr stream_io_status_def io_clock_status_def io_new_def)
  have wf: "io_wf (cfg_io_timeout_ms (sm_config s)) (sm_io s)" using sm_invD(9) [OF inv(2)] assms(3) by (simp add: io_inv_def)
  have "sm_error (stream_advance t s) = Some Stream_Timeout"
    if "ios_state (stream_io_status s) = Io_Interaction" "sm_now s + ios_remaining_interaction_ms (stream_io_status s) \<le> t"
  proof -
    have st: "ioc_state (sm_io s) = Io_Interaction"
      using that(1) by (simp add: stream_io_status_def io_clock_status_def split: prod.splits)
    then obtain d where d: "ioc_deadline (sm_io s) = Some d" using wf by (auto simp: io_wf_def)
    then have "d \<le> t" "sm_now s \<le> t" using that(2) st by (auto simp: stream_io_status_def io_clock_status_def)
    then show ?thesis
      using assms(3) d by (simp add: stream_advance_def Let_def io_expired_def io_due_simps stream_terminal_iff stream_fail_def)
  qed
  then show ?thesis using history_cost [of ops s0] inv(1) assms(2,3) rem by auto
qed

theorem interaction_allowance_witness:
  "interaction_time sample_history (sample_machine Side_Endpoint) = 58000
   \<and> ios_remaining_interaction_ms (stream_io_status (fold stream_apply sample_history (sample_machine Side_Endpoint))) = 62000"
  using interaction_allowance [OF sample_machine_new refl sample_history_run(1)] sample_history_run(2,3)
  by (simp add: config_new_def u64_max_def)

end
