(* ===== verification/Stream_Messages.thy ===== *)
theory Stream_Messages
  imports Stream_Invariant
begin

text \<open>
  The messages a stream machine emits. A message of a machine in its invariant carries the
  stream's header and is admitted by the limits of the peer: data messages because the largest
  one was probed when the configuration was validated, control messages because usable limits
  admit every control message. A peer reads a message by its body, here as a \<open>wire\<close> item.
\<close>

section \<open>Messages as the peer reads them\<close>

text \<open>A message with the header of a stream, admitted by the peer's limits.\<close>

definition sendable :: "config \<Rightarrow> envelope \<Rightarrow> bool" where
  "sendable c m \<longleftrightarrow>
     env_session_id m = cfg_session_id c \<and> env_stream_id m = cfg_stream_id c
     \<and> env_version m = cfg_profile_version c \<and> admit_limited m (cfg_peer_limits c) = Inr ()"

datatype wire =
    W_Data i64 "byte list"
  | W_Window i64
  | W_Flush i64 i64
  | W_Flushed i64 i64
  | W_EndWrite i64
  | W_Close i64
  | W_Closed closed_msg
  | W_Cancel error_code
  | W_Failed failure
  | W_Other

definition wire_of :: "envelope \<Rightarrow> wire" where
  "wire_of m =
     (case env_kind m of
       Kind_Data \<Rightarrow> (case env_data m of Some d \<Rightarrow> W_Data (data_offset d) (data_payload d) | None \<Rightarrow> W_Other)
     | Kind_Window \<Rightarrow> (case env_window m of Some w \<Rightarrow> W_Window (window_max_offset w) | None \<Rightarrow> W_Other)
     | Kind_Flush \<Rightarrow> (case env_flush m of Some b \<Rightarrow> W_Flush (barrier_barrier_id b) (barrier_offset b) | None \<Rightarrow> W_Other)
     | Kind_Flushed \<Rightarrow> (case env_flushed m of Some b \<Rightarrow> W_Flushed (barrier_barrier_id b) (barrier_offset b) | None \<Rightarrow> W_Other)
     | Kind_EndWrite \<Rightarrow> (case env_end_write m of Some e \<Rightarrow> W_EndWrite (endw_final_offset e) | None \<Rightarrow> W_Other)
     | Kind_Close \<Rightarrow> (case env_close m of Some c \<Rightarrow> W_Close (close_final_offset c) | None \<Rightarrow> W_Other)
     | Kind_Closed \<Rightarrow> (case env_closed m of Some c \<Rightarrow> W_Closed c | None \<Rightarrow> W_Other)
     | Kind_Cancel \<Rightarrow> (case env_cancel m of Some c \<Rightarrow> W_Cancel (cancel_reason c) | None \<Rightarrow> W_Other)
     | Kind_Failed \<Rightarrow> (case env_failed m of Some f \<Rightarrow> W_Failed f | None \<Rightarrow> W_Other)
     | _ \<Rightarrow> W_Other)"

text \<open>The two messages that end a stream at once.\<close>

fun final_wire :: "wire \<Rightarrow> bool" where
  "final_wire (W_Cancel _) = True"
| "final_wire (W_Failed _) = True"
| "final_wire _ = False"

text \<open>What a machine has put aside to send is admitted by the peer.\<close>

definition outbox_ok :: "stream_machine \<Rightarrow> bool" where
  "outbox_ok s \<longleftrightarrow>
     (\<forall>m. sm_terminal_message s = Some m \<longrightarrow> sendable (sm_config s) m \<and> final_wire (wire_of m))
     \<and> (\<forall>c. sm_close_pending s = Some c \<longrightarrow>
          sendable (sm_config s) ((stream_envelope Kind_Closed s)\<lparr>env_closed := Some c\<rparr>))"

section \<open>What a machine emits is admitted by its peer\<close>

lemmas validate_simps = validate_envelope_def validate_header_def validate_failures_def
  validate_stream_bodies_def bodies_def default_envelope_def stream_envelope_def

lemma version_not_3: "(v :: i64) \<le> 2 \<Longrightarrow> v \<noteq> 3"
  by simp

lemma control_valid:
  assumes "validate_config (sm_config s) = Inr ()"
  shows "0 \<le> l \<Longrightarrow> validate_envelope ((stream_envelope Kind_Window s)\<lparr>env_window := Some \<lparr>window_max_offset = l\<rparr>\<rparr>) = Inr ()"
    and "0 \<le> barrier_offset b \<Longrightarrow> 0 < barrier_barrier_id b \<Longrightarrow>
      validate_envelope ((stream_envelope Kind_Flush s)\<lparr>env_flush := Some b\<rparr>) = Inr ()"
    and "0 \<le> barrier_offset b \<Longrightarrow> 0 < barrier_barrier_id b \<Longrightarrow>
      validate_envelope ((stream_envelope Kind_Flushed s)\<lparr>env_flushed := Some b\<rparr>) = Inr ()"
    and "0 \<le> l \<Longrightarrow> validate_envelope ((stream_envelope Kind_EndWrite s)\<lparr>env_end_write := Some \<lparr>endw_final_offset = l\<rparr>\<rparr>) = Inr ()"
    and "0 \<le> l \<Longrightarrow> validate_envelope ((stream_envelope Kind_Close s)\<lparr>env_close := Some \<lparr>close_final_offset = l\<rparr>\<rparr>) = Inr ()"
    and "r \<in> {Code_Cancelled, Code_Timeout} \<Longrightarrow>
      validate_envelope ((stream_envelope Kind_Cancel s)\<lparr>env_cancel := Some \<lparr>cancel_reason = r\<rparr>\<rparr>) = Inr ()"
  using validate_config_ok(5-9) [OF assms] by (auto simp: validate_simps)

lemma control_sendable:
  assumes "validate_config (sm_config s) = Inr ()" "validate_envelope m = Inr ()" "flow_kind (env_kind m)"
    "env_session_id m = cfg_session_id (sm_config s)" "env_stream_id m = cfg_stream_id (sm_config s)"
    "env_version m = cfg_profile_version (sm_config s)"
  shows "sendable (sm_config s) m"
  using flow_message_admitted [OF validate_config_ok(3,4) [OF assms(1)] assms(2,3)] assms(4-6)
  by (simp add: sendable_def)

lemma budget_head_mono: "a \<le> b \<Longrightarrow> budget_head a \<le> budget_head b"
  by (simp add: budget_head_def)

lemma budget_head_small: "n \<le> 23 \<Longrightarrow> budget_head n = 1"
  by (simp add: budget_head_def)

text \<open>The largest data message was probed when the configuration was validated.\<close>

lemma data_admitted:
  assumes c: "validate_config (sm_config s) = Inr ()" and l: "admit_limited (config_probe (sm_config s)) l = Inr ()"
    and d: "0 \<le> off" "off + int (length p) \<le> i64_max" "length p \<le> cfg_max_payload (sm_config s)"
  shows "admit_limited ((stream_envelope Kind_Data s)\<lparr>env_data := Some \<lparr>data_offset = off, data_payload = p\<rparr>\<rparr>) l = Inr ()"
proof -
  let ?m = "(stream_envelope Kind_Data s)\<lparr>env_data := Some \<lparr>data_offset = off, data_payload = p\<rparr>\<rparr>"
  let ?c = "sm_config s"
  note cfg = validate_config_ok(5-9,17) [OF c]
  have v: "validate_envelope ?m = Inr ()"
    using cfg d by (auto simp: validate_simps checked_add_i64_def in_i64_def i64_min_def)
  have probe: "validate_limits l = Inr ()" "admissible False l (envelope_to_cbor (config_probe ?c))"
    using l cfg(3) by (auto simp: admit_limited_def and_then_eq_Inr admit_envelope_ok config_probe_def)
  have off: "budget_head (nat off) \<le> budget_head (nat (i64_max - int (cfg_max_payload ?c)))"
    using cfg(6) by (simp add: budget_head_def i64_max_def)
  have len: "budget_head (length p) \<le> budget_head (cfg_max_payload ?c)" using d(3) by (rule budget_head_mono)
  have pos: "\<not> i64_max - int (cfg_max_payload ?c) < 0" using cfg(6) by (simp add: i64_max_def)
  have ver: "budget_head (nat (cfg_profile_version ?c)) = 1" using cfg(4,5) by (simp add: budget_head_def)
  have "admissible False l (envelope_to_cbor ?m)"
    using probe(2) off len d pos ver cfg
    by (auto simp: admissible_iff envelope_to_cbor_def config_probe_def stream_envelope_def default_envelope_def
        data_msg_to_cbor_def budget_head_small budget_head_def [of "numeral _"] i64_as_usize_numeral i64_as_usize_one)
  then show ?thesis
    using probe(1) v cfg(3) by (simp add: admit_limited_def admit_envelope_ok stream_envelope_def)
qed

lemma data_sendable:
  assumes "validate_config (sm_config s) = Inr ()"
    and "0 \<le> off" "off + int (length p) \<le> i64_max" "length p \<le> cfg_max_payload (sm_config s)"
  shows "sendable (sm_config s) ((stream_envelope Kind_Data s)\<lparr>env_data := Some \<lparr>data_offset = off, data_payload = p\<rparr>\<rparr>)"
  using data_admitted [OF assms(1) validate_config_ok(19) [OF assms(1)] assms(2-4)]
  by (simp add: sendable_def) (simp add: stream_envelope_def)

lemma notice_sendable:
  assumes "validate_config (sm_config s) = Inr ()" "c \<in> {Code_Timeout, Code_Protocol}"
  shows "sendable (sm_config s) ((stream_envelope Kind_Failed s)\<lparr>env_failed := Some
    \<lparr>fail_code = c, fail_effect = Effect_Possible, fail_facts = None, fail_setup_cause = None, fail_detail = None\<rparr>\<rparr>)"
proof -
  let ?f = "\<lparr>fail_code = c, fail_effect = Effect_Possible, fail_facts = None, fail_setup_cause = None, fail_detail = None\<rparr>"
  let ?m = "(stream_envelope Kind_Failed s)\<lparr>env_failed := Some ?f\<rparr>"
  note cfg = validate_config_ok(3-9) [OF assms(1)]
  have v: "validate_envelope ?m = Inr ()"
    using cfg assms(2) by (auto simp: validate_simps validate_failure_detail_def failure_has_v2_fields_def)
  have caps: "4096 \<le> i64_as_usize (lim_encoded_frame (cfg_peer_limits (sm_config s)))"
      "256 \<le> i64_as_usize (lim_metadata_bytes (cfg_peer_limits (sm_config s)))"
      "10 \<le> i64_as_usize (lim_nesting (cfg_peer_limits (sm_config s)))" 
      "128 \<le> i64_as_usize (lim_collection_entries (cfg_peer_limits (sm_config s)))"
      "65536 \<le> i64_as_usize (lim_decode_allocation (cfg_peer_limits (sm_config s)))"
    using cfg(1,2) by (auto simp: valid_caps usable_ok)
  have h: "budget_head (length (cfg_session_id (sm_config s))) \<le> 9"
      "budget_head (nat (cfg_stream_id (sm_config s))) \<le> 9" "budget_head (nat (cfg_profile_version (sm_config s))) \<le> 9"
      "budget_head (nat (error_code_wire c)) \<le> 9"
    by (rule budget_head_le)+
  have "admissible False (cfg_peer_limits (sm_config s)) (envelope_to_cbor ?m)"
    using caps h cfg(4-7) error_code_enum.wire_small [of c]
    by (simp add: admissible_iff envelope_to_cbor_def stream_envelope_def default_envelope_def
        failure_to_cbor_def budget_head_small budget_head_def [of "numeral _"] node_charge_def
        i64_as_usize_numeral i64_as_usize_one max_metadata_def)
  then show ?thesis
    using cfg(1,5) v by (simp add: sendable_def admit_limited_def admit_envelope_ok) (simp add: stream_envelope_def)
qed

lemma stream_envelope_simps [simp]:
  "env_kind (stream_envelope k s) = k" "env_session_id (stream_envelope k s) = cfg_session_id (sm_config s)"
  "env_stream_id (stream_envelope k s) = cfg_stream_id (sm_config s)"
  "env_version (stream_envelope k s) = cfg_profile_version (sm_config s)"
  by (simp_all add: stream_envelope_def)

lemma stream_envelope_cong: "sm_config s' = sm_config s \<Longrightarrow> stream_envelope k s' = stream_envelope k s"
  by (simp add: stream_envelope_def)

lemma wire_of_simps [simp]:
  "wire_of ((stream_envelope Kind_Data s)\<lparr>env_data := Some d\<rparr>) = W_Data (data_offset d) (data_payload d)"
  "wire_of ((stream_envelope Kind_Window s)\<lparr>env_window := Some w\<rparr>) = W_Window (window_max_offset w)"
  "wire_of ((stream_envelope Kind_Flush s)\<lparr>env_flush := Some b\<rparr>) = W_Flush (barrier_barrier_id b) (barrier_offset b)"
  "wire_of ((stream_envelope Kind_Flushed s)\<lparr>env_flushed := Some b\<rparr>) = W_Flushed (barrier_barrier_id b) (barrier_offset b)"
  "wire_of ((stream_envelope Kind_EndWrite s)\<lparr>env_end_write := Some e\<rparr>) = W_EndWrite (endw_final_offset e)"
  "wire_of ((stream_envelope Kind_Close s)\<lparr>env_close := Some c\<rparr>) = W_Close (close_final_offset c)"
  "wire_of ((stream_envelope Kind_Closed s)\<lparr>env_closed := Some cl\<rparr>) = W_Closed cl"
  "wire_of ((stream_envelope Kind_Cancel s)\<lparr>env_cancel := Some x\<rparr>) = W_Cancel (cancel_reason x)"
  "wire_of ((stream_envelope Kind_Failed s)\<lparr>env_failed := Some f\<rparr>) = W_Failed f"
  by (simp_all add: wire_of_def)

lemma failure_notice_sendable:
  assumes "validate_config (sm_config s) = Inr ()" "e \<in> {Stream_Cancelled, Stream_Timeout, Stream_Protocol}"
  shows "sendable (sm_config s) (failure_notice e s)" "final_wire (wire_of (failure_notice e s))"
proof -
  have "sendable (sm_config s) ((stream_envelope Kind_Cancel s)\<lparr>env_cancel := Some \<lparr>cancel_reason = r\<rparr>\<rparr>)"
    if "r \<in> {Code_Cancelled, Code_Timeout}" for r
    by (rule control_sendable [OF assms(1) control_valid(6) [OF assms(1) that]]) (simp_all add: flow_kind_def)
  then show "sendable (sm_config s) (failure_notice e s)"
    using notice_sendable [OF assms(1)] assms(2) by (auto simp: failure_notice_def)
  show "final_wire (wire_of (failure_notice e s))" by (simp add: failure_notice_def)
qed

lemma fail_outbox:
  assumes "sm_inv s" "outbox_ok s" "b \<longrightarrow> e \<in> {Stream_Cancelled, Stream_Timeout, Stream_Protocol}"
  shows "outbox_ok (stream_fail e b s)"
proof (cases "stream_terminal s")
  case False
  then show ?thesis
    using assms failure_notice_sendable [OF sm_invD(1) [OF assms(1)], of e] by (auto simp: outbox_ok_def)
qed (use assms in simp)

lemma next_sendable:
  assumes inv: "sm_inv s" and out: "outbox_ok s" and n: "next_message s = (Some m, s')"
  shows "sendable (sm_config s) m"
proof -
  note g = sm_invD [OF inv] and ctl = control_sendable [OF sm_invD(1) [OF inv]] and val = control_valid [OF sm_invD(1) [OF inv]]
  show ?thesis
  proof (cases rule: next_message_form [of s])
    case (notice m') then show ?thesis using n out by (simp add: outbox_ok_def)
  next
    case (emits_flushed m' t)
    then obtain b where b: "sm_peer_flush s = Some b" "m = (stream_envelope Kind_Flushed s)\<lparr>env_flushed := Some b\<rparr>"
      using n by (auto simp: emit_flushed_Some)
    have "0 \<le> barrier_offset b" "0 < barrier_barrier_id b" using g(4) b(1) by (auto simp: flush_inv_def)
    then show ?thesis unfolding b(2) by (intro ctl val(3)) (simp_all add: flow_kind_def)
  next
    case (emits_window m' t)
    then obtain l where l: "m = (stream_envelope Kind_Window s)\<lparr>env_window := Some \<lparr>window_max_offset = l\<rparr>\<rparr>"
        "sm_advertised_limit s < l"
      using n by (auto simp: emit_window_Some)
    have "0 \<le> l" using g(3) l(2) by (auto simp: recv_inv_def)
    then show ?thesis unfolding l(1) by (intro ctl val(1)) (simp_all add: flow_kind_def)
  next
    case (emits_closed m' t) then show ?thesis using n out by (auto simp: emit_closed_Some outbox_ok_def)
  next
    case (emits_flush m' t)
    then obtain f where f: "sm_flush s = Some f" "m = (stream_envelope Kind_Flush s)
        \<lparr>env_flush := Some \<lparr>barrier_barrier_id = pf_id f, barrier_offset = pf_offset f\<rparr>\<rparr>"
      using n by (auto simp: emit_flush_Some)
    have "0 \<le> pf_offset f" "0 < pf_id f" using g(2,4) f(1) by (auto simp: flush_inv_def send_inv_def)
    then show ?thesis unfolding f(2) by (intro ctl val(2)) (simp_all add: flow_kind_def)
  next
    case (emits_data m' t)
    then have "emit_data s = Some (m, s')" using n by simp
    from emit_data_Some [OF g(2,1) this] obtain k where k: "k \<le> length (sm_send s)" "k \<le> cfg_max_payload (sm_config s)"
        "sm_sent s + int k \<le> sm_peer_limit s"
        "m = (stream_envelope Kind_Data s)\<lparr>env_data := Some \<lparr>data_offset = sm_sent s, data_payload = take k (sm_send s)\<rparr>\<rparr>"
      by blast
    then show ?thesis using g(2) by (auto simp: send_inv_def intro!: data_sendable g(1))
  next
    case (emits_end_write m' t)
    then have m: "m = (stream_envelope Kind_EndWrite s)\<lparr>env_end_write := Some \<lparr>endw_final_offset = sm_sent s\<rparr>\<rparr>"
      using n by (auto simp: emit_end_write_Some)
    have "0 \<le> sm_sent s" using g(2) by (auto simp: send_inv_def)
    then show ?thesis unfolding m by (intro ctl val(4)) (simp_all add: flow_kind_def)
  next
    case (emits_close m' t)
    then have m: "m = (stream_envelope Kind_Close s)\<lparr>env_close := Some \<lparr>close_final_offset = sm_sent s\<rparr>\<rparr>"
      using n by (auto simp: emit_close_Some)
    have "0 \<le> sm_sent s" using g(2) by (auto simp: send_inv_def)
    then show ?thesis unfolding m by (intro ctl val(5)) (simp_all add: flow_kind_def)
  qed (use n in simp)
qed

lemma fail_quiet [simp]: "sm_terminal_message (stream_fail e False s) = sm_terminal_message s"
  by (cases "stream_terminal s") simp_all

lemma fail_pending: "sm_close_pending (stream_fail e b s) \<in> {sm_close_pending s, None}"
  by (cases "stream_terminal s") simp_all

lemma data_taken_simps [simp]:
  "sm_config (data_taken d s) = sm_config s" "sm_terminal_message (data_taken d s) = sm_terminal_message s"
  "sm_close_pending (data_taken d s) = sm_close_pending s"
  by (simp_all add: data_taken_def Let_def)

lemma closed_taken_simps [simp]:
  "sm_config (closed_taken d s) = sm_config s" "sm_terminal_message (closed_taken d s) = sm_terminal_message s"
  "sm_close_pending (closed_taken d s) \<in> {sm_close_pending s, None}"
  using fail_pending [of _ False "s\<lparr>sm_failure_facts := Some (closed_facts d)\<rparr>"]
  by (cases "closed_failure d"; simp add: closed_taken_def)+

lemma accept_keeps:
  assumes "stream_accept m s = Inr s'"
  shows "sm_config s' = sm_config s \<and> sm_terminal_message s' = sm_terminal_message s
    \<and> sm_close_pending s' \<in> {sm_close_pending s, None}"
proof -
  have b: "accept_body m s = Inr s'" using assms by (auto simp: stream_accept_def and_then_eq_Inr)
  note f = fail_pending [of _ False s]
  show ?thesis
  proof (cases "env_kind m")
    case Kind_Data then show ?thesis using b by (auto simp: accept_body_def accept_data_ok)
  next
    case Kind_Window
    then have "s' = s \<or> (\<exists>l. s' = touch (s\<lparr>sm_peer_limit := l\<rparr>))"
      using b unfolding accept_body_def by simp (metis accept_window_ok)
    then show ?thesis by auto
  next
    case Kind_Flush then show ?thesis using b by (auto simp: accept_body_def accept_flush_ok)
  next
    case Kind_Flushed then show ?thesis using b by (auto simp: accept_body_def accept_flushed_ok)
  next
    case Kind_EndWrite then show ?thesis using b by (auto simp: accept_body_def accept_end_write_ok)
  next
    case Kind_Close then show ?thesis using b by (auto simp: accept_body_def accept_close_ok split: if_splits)
  next
    case Kind_Closed
    then obtain c where "s' = closed_taken c s" using b by (auto simp: accept_body_def accept_closed_ok)
    then show ?thesis using closed_taken_simps [of c s] by simp
  next
    case Kind_Cancel
    then obtain e where "s' = touch (stream_fail e False s)" using b by (auto simp: accept_body_def accept_cancel_ok)
    then show ?thesis using f [of e] by simp
  next
    case Kind_Failed
    then obtain e x y where "s' = touch ((stream_fail e False (s\<lparr>sm_failure_facts := x\<rparr>))\<lparr>sm_retained_failure := y\<rparr>)"
      using b by (auto simp: accept_body_def accept_failed_ok)
    then show ?thesis using fail_pending [of e False "s\<lparr>sm_failure_facts := x\<rparr>"] by simp
  qed (use b in \<open>simp_all add: accept_body_def\<close>)
qed

lemma next_keeps:
  assumes inv: "sm_inv s"
  shows "sm_config (snd (next_message s)) = sm_config s
    \<and> sm_terminal_message (snd (next_message s)) \<in> {sm_terminal_message s, None}
    \<and> sm_close_pending (snd (next_message s)) \<in> {sm_close_pending s, None}"
proof (cases rule: next_message_form [of s])
  case (emits_data m s')
  from emit_data_Some [OF sm_invD(2,1) [OF inv] emits_data(3)] obtain n where "s' = touch (send_drain n s)" by blast
  then show ?thesis using emits_data(4) by simp
qed (auto simp: emit_flushed_Some emit_window_Some emit_closed_Some emit_flush_Some emit_end_write_Some emit_close_Some)

lemma end_write_keeps:
  "sm_config (snd (end_write s)) = sm_config s" "sm_terminal_message (snd (end_write s)) = sm_terminal_message s"
  "sm_close_pending (snd (end_write s)) = sm_close_pending s"
  by (cases rule: end_write_form [of s]; simp)+

lemma outbox_weaken:
  assumes "outbox_ok s" "sm_config s' = sm_config s" "sm_terminal_message s' \<in> {sm_terminal_message s, None}"
    "sm_close_pending s' \<in> {sm_close_pending s, None}"
  shows "outbox_ok s'"
  using assms unfolding outbox_ok_def stream_envelope_cong [OF assms(2)] assms(2) by (metis insertE option.distinct(1) singletonD)

lemma apply_outbox:
  assumes inv: "sm_inv s" and out: "outbox_ok s"
  shows "outbox_ok (stream_apply op s)"
proof -
  note w = outbox_weaken [OF out] and f = fail_outbox [OF inv out]
  have fnow: "outbox_ok (stream_fail Stream_Timeout True (s\<lparr>sm_now := t\<rparr>))" for t
    by (rule fail_outbox) (use inv in \<open>simp_all add: w out\<close>)
  show ?thesis
  proof (cases op)
    case (Op_Write i) then show ?thesis by (cases rule: write_form [of i s]) (simp_all add: w f out)
  next
    case (Op_Read k) then show ?thesis by (cases rule: read_form [of k s]) (simp_all add: w out)
  next
    case Op_StartFlush
    have "send_inv s" using sm_invD(2) [OF inv] .
    then show ?thesis by (cases rule: start_flush_form) (use Op_StartFlush in \<open>simp_all add: w out\<close>)
  next
    case Op_EndWrite then show ?thesis by (cases rule: end_write_form [of s]) (simp_all add: w out)
  next
    case Op_StartClose
    show ?thesis by (cases rule: start_close_form [of s]) (use Op_StartClose in \<open>simp_all add: w out end_write_keeps\<close>)
  next
    case Op_Cancel then show ?thesis by (simp add: cancel_def f)
  next
    case Op_Disconnect
    have "outbox_ok (stream_fail Stream_CarrierLost False s)" by (simp add: f)
    from outbox_weaken [OF this] show ?thesis using Op_Disconnect by (simp add: disconnect_def)
  next
    case (Op_FailTerminal fl)
    show ?thesis
    proof (cases rule: fail_terminal_form [of fl s])
      case (fails m)
      then show ?thesis using Op_FailTerminal by (simp add: outbox_ok_def sendable_def)
    qed (use out Op_FailTerminal in simp)
  next
    case (Op_CompleteClose d fa fl)
    show ?thesis
    proof (cases rule: complete_close_form [of d fa fl s])
      case (pends c)
      have "sm_terminal_message s = None"
        using sm_invD(8) [OF inv] pends(1) by (simp add: dead_inv_def stream_terminal_iff)
      moreover have "stream_envelope Kind_Closed (touch (s\<lparr>sm_close_pending := Some c\<rparr>)) = stream_envelope Kind_Closed s"
        by (rule stream_envelope_cong) simp
      ultimately show ?thesis using Op_CompleteClose pends(11,12) by (simp add: outbox_ok_def sendable_def)
    qed (use out Op_CompleteClose in simp)
  next
    case (Op_SetIoState st)
    have "outbox_ok (stream_fail Stream_Timeout True (s\<lparr>sm_io := io\<rparr>))" if "\<not> stream_terminal s" for io
      using f [of True Stream_Timeout] that
      by (subst fail_io) (rule outbox_weaken [where s = "stream_fail Stream_Timeout True s"], simp_all)
    then show ?thesis using Op_SetIoState f by (cases rule: set_io_state_form [of st s]) (simp_all add: w out)
  next
    case (Op_RecordIoProgress n) then show ?thesis by (cases rule: record_io_progress_form [of n s]) (simp_all add: w f out)
  next
    case (Op_Advance t) then show ?thesis using fnow by (cases rule: advance_form [of t s]) (simp_all add: w out)
  next
    case (Op_Receive m)
    then show ?thesis using accept_keeps [of m s] f
      by (cases rule: receive_form [of s m]) (simp_all add: w out)
  next
    case Op_NextMessage then show ?thesis using next_keeps [OF inv] by (simp_all add: w out)
  qed
qed

end
