(* ===== verification/Stream_Link.thy ===== *)
theory Stream_Link
  imports Stream_Messages "HOL-Library.Sublist"
begin

text \<open>
  Two stream machines of one negotiated stream, with a first-in first-out channel of messages
  each way. A \<open>party\<close> is a machine with its outgoing channel and the record of what
  its application did: the bytes written, the bytes read, and how much had been written when
  each flush ticket was issued. A step of the link is an operation of one application or
  host, the emission of a message or the delivery of one. The invariant has one predicate for
  each thing the two machines must agree on: the position of the byte stream, the credit, the
  flush barrier, the closing handshake, the bytes and the acknowledged tickets. This theory
  shows that the start has it and that the operations of one side keep it.
\<close>

section \<open>Two connected machines\<close>

record party =
  p_machine :: stream_machine
  p_out :: "envelope list"
  p_written :: "byte list"
  p_read :: "byte list"
  p_barriers :: "i64 \<rightharpoonup> nat"

fun local_op :: "stream_op \<Rightarrow> bool" where
  "local_op (Op_Receive _) = False"
| "local_op Op_NextMessage = False"
| "local_op _ = True"

definition party_apply :: "stream_op \<Rightarrow> party \<Rightarrow> party" where
  "party_apply op p =
     (let s = p_machine p in
      p\<lparr>p_machine := stream_apply op s,
        p_written := (case op of
          Op_Write input \<Rightarrow> (case fst (stream_write input s) of Inr n \<Rightarrow> p_written p @ take n input | Inl _ \<Rightarrow> p_written p)
        | _ \<Rightarrow> p_written p),
        p_read := (case op of
          Op_Read k \<Rightarrow> (case fst (stream_read k s) of Inr bs \<Rightarrow> p_read p @ bs | Inl _ \<Rightarrow> p_read p)
        | _ \<Rightarrow> p_read p),
        p_barriers := (case op of
          Op_StartFlush \<Rightarrow> (case fst (start_flush s) of
              Inr ticket \<Rightarrow> (p_barriers p)(ticket \<mapsto> length (p_written p)) | Inl _ \<Rightarrow> p_barriers p)
        | _ \<Rightarrow> p_barriers p)\<rparr>)"

inductive half_step :: "party \<Rightarrow> party \<Rightarrow> party \<Rightarrow> party \<Rightarrow> bool" where
  act: "local_op op \<Longrightarrow> half_step a b (party_apply op a) b"
| emit: "next_message (p_machine a) = (Some m, s)
    \<Longrightarrow> half_step a b (a\<lparr>p_machine := s, p_out := p_out a @ [m]\<rparr>) b"
| deliver: "p_out a = m # q
    \<Longrightarrow> half_step a b (a\<lparr>p_out := q\<rparr>) (b\<lparr>p_machine := snd (stream_receive m (p_machine b))\<rparr>)"

definition link_step :: "party \<times> party \<Rightarrow> party \<times> party \<Rightarrow> bool" where
  "link_step l l' \<longleftrightarrow>
     half_step (fst l) (snd l) (fst l') (snd l') \<or> half_step (snd l) (fst l) (snd l') (fst l')"

definition peers :: "config \<Rightarrow> config \<Rightarrow> bool" where
  "peers c d \<longleftrightarrow>
     cfg_session_id c = cfg_session_id d \<and> cfg_stream_id c = cfg_stream_id d
     \<and> cfg_profile_version c = cfg_profile_version d \<and> cfg_side c \<noteq> cfg_side d
     \<and> cfg_max_payload c = cfg_max_payload d
     \<and> cfg_peer_limits c = cfg_receive_limits d \<and> cfg_receive_limits c = cfg_peer_limits d
     \<and> cfg_peer_receive_window c = cfg_receive_window d \<and> cfg_receive_window c = cfg_peer_receive_window d"

definition party_new :: "stream_machine \<Rightarrow> party" where
  "party_new s = \<lparr>p_machine = s, p_out = [], p_written = [], p_read = [], p_barriers = Map.empty\<rparr>"

definition link_start :: "party \<times> party \<Rightarrow> bool" where
  "link_start l \<longleftrightarrow>
     (\<exists>c d s t. peers c d \<and> stream_new c = Inr s \<and> stream_new d = Inr t
        \<and> l = (party_new s, party_new t))"

text \<open>What the receiver will have seen after the messages in flight: the position and the end.\<close>

fun flow_step :: "nat \<Rightarrow> i64 \<times> bool \<Rightarrow> wire \<Rightarrow> (i64 \<times> bool) option" where
  "flow_step mx (pos, ended) (W_Data off p) =
     (if \<not> ended \<and> off = pos \<and> p \<noteq> [] \<and> length p \<le> mx then Some (pos + int (length p), ended) else None)"
| "flow_step mx (pos, ended) (W_Flush i off) = (if \<not> ended \<and> off = pos then Some (pos, ended) else None)"
| "flow_step mx (pos, ended) (W_EndWrite off) = (if \<not> ended \<and> off = pos then Some (pos, True) else None)"
| "flow_step mx (pos, ended) (W_Close off) = (if ended \<and> off = pos then Some (pos, ended) else None)"
| "flow_step mx (pos, ended) (W_Closed c) = (if ended then Some (pos, ended) else None)"
| "flow_step mx v W_Other = None"
| "flow_step mx v _ = Some v"

fun flow :: "nat \<Rightarrow> i64 \<times> bool \<Rightarrow> wire list \<Rightarrow> (i64 \<times> bool) option" where
  "flow mx v [] = Some v"
| "flow mx v (w # ws) = Option.bind (flow_step mx v w) (\<lambda>v'. flow mx v' ws)"

definition flow_ok :: "nat \<Rightarrow> bool \<Rightarrow> i64 \<Rightarrow> bool \<Rightarrow> wire list \<Rightarrow> i64 \<Rightarrow> bool \<Rightarrow> bool" where
  "flow_ok mx dead pos ended q sent ended_sent \<longleftrightarrow>
     (\<not> dead \<longrightarrow> flow mx (pos, ended) q = Some (sent, ended_sent))
     \<and> pos \<le> sent \<and> (ended \<longrightarrow> ended_sent \<and> pos = sent)"

definition credit_ok :: "bool \<Rightarrow> i64 \<Rightarrow> i64 \<Rightarrow> wire list \<Rightarrow> bool" where
  "credit_ok dead limit advertised r \<longleftrightarrow>
     limit \<le> advertised \<and> (\<forall>l. W_Window l \<in> set r \<longrightarrow> l \<le> advertised)
     \<and> (\<not> dead \<longrightarrow> advertised = limit \<or> W_Window advertised \<in> set r)"

fun is_flush :: "wire \<Rightarrow> bool" where
  "is_flush (W_Flush _ _) = True"
| "is_flush _ = False"

fun is_flushed :: "wire \<Rightarrow> bool" where
  "is_flushed (W_Flushed _ _) = True"
| "is_flushed _ = False"

definition barrier_ok ::
    "bool \<Rightarrow> pending_flush option \<Rightarrow> i64 \<Rightarrow> wire list \<Rightarrow> barrier option \<Rightarrow> i64 \<Rightarrow> wire list \<Rightarrow> bool" where
  "barrier_ok dead flush serial q held held_serial r \<longleftrightarrow>
     length (filter is_flush q) + (if held = None then 0 else 1) + length (filter is_flushed r) \<le> 1
     \<and> (\<not> dead \<longrightarrow> (\<forall>i off. W_Flush i off \<in> set q
            \<or> held = Some \<lparr>barrier_barrier_id = i, barrier_offset = off\<rparr> \<or> W_Flushed i off \<in> set r
          \<longrightarrow> flush = Some \<lparr>pf_id = i, pf_offset = off, pf_sent = True\<rparr>))
     \<and> held_serial \<le> serial
     \<and> (\<forall>i off. W_Flush i off \<in> set q \<longrightarrow> held_serial < i \<and> i \<le> serial)
     \<and> (\<forall>f. flush = Some f \<and> \<not> pf_sent f \<longrightarrow> held_serial < pf_id f)"

definition close_ok :: "side \<Rightarrow> bool \<Rightarrow> bool \<Rightarrow> close_result option \<Rightarrow> wire list \<Rightarrow> bool \<Rightarrow> close_result option \<Rightarrow> bool" where
  "close_ok side close_sent received completed q peer_sent peer_completed \<longleftrightarrow>
     (\<forall>off. W_Close off \<in> set q \<longrightarrow> side = Side_Initiator \<and> close_sent)
     \<and> (\<forall>c. W_Closed c \<in> set q \<longrightarrow> side = Side_Endpoint \<and> peer_sent
          \<and> (\<exists>x. completed = Some x \<and> cr_disposition x = closed_disposition c \<and> cr_facts x = closed_facts c))
     \<and> (received \<longrightarrow> peer_sent)
     \<and> (side = Side_Initiator \<longrightarrow> (\<forall>x. completed = Some x \<longrightarrow>
          (\<exists>y. peer_completed = Some y \<and> cr_disposition y = cr_disposition x \<and> cr_facts y = cr_facts x)))"

definition bytes_ok ::
    "bool \<Rightarrow> byte list \<Rightarrow> i64 \<Rightarrow> bool \<Rightarrow> wire list \<Rightarrow> bool \<Rightarrow> byte list \<Rightarrow> i64 \<Rightarrow> byte list \<Rightarrow> byte list \<Rightarrow> bool" where
  "bytes_ok failed send sent ended_sent q discarding recv received written read \<longleftrightarrow>
     0 \<le> sent \<and> sent \<le> int (length written)
     \<and> (\<not> failed \<longrightarrow> send = drop (nat sent) written)
     \<and> (ended_sent \<longrightarrow> sent = int (length written))
     \<and> (\<forall>off p. W_Data off p \<in> set q \<longrightarrow>
          0 \<le> off \<and> off + int (length p) \<le> sent \<and> p = take (length p) (drop (nat off) written))
     \<and> (if discarding then prefix read written else read @ recv = take (nat received) written)"

definition ack_ok ::
    "bool \<Rightarrow> pending_flush option \<Rightarrow> i64 \<Rightarrow> i64 \<Rightarrow> (i64 \<rightharpoonup> nat) \<Rightarrow> i64 \<Rightarrow> wire list \<Rightarrow> bool" where
  "ack_ok failed flush serial acked barriers sink r \<longleftrightarrow>
     (\<not> failed \<longrightarrow> (if flush = None then acked = serial else acked + 1 = serial))
     \<and> (\<forall>f. flush = Some f \<longrightarrow> barriers (pf_id f) = Some (nat (pf_offset f)))
     \<and> (\<forall>t n. barriers t = Some n \<longrightarrow> t \<le> serial \<and> (t \<le> acked \<longrightarrow> int n \<le> sink))
     \<and> (\<forall>i off. W_Flushed i off \<in> set r \<longrightarrow> off \<le> sink)"

definition sm_failed :: "stream_machine \<Rightarrow> bool" where
  "sm_failed s \<longleftrightarrow> sm_error s \<noteq> None"

definition half_inv :: "party \<Rightarrow> party \<Rightarrow> bool" where
  "half_inv a b \<longleftrightarrow>
     (let s = p_machine a; t = p_machine b; q = map wire_of (p_out a); r = map wire_of (p_out b) in
      outbox_ok s \<and> (\<forall>m\<in>set (p_out a). sendable (sm_config s) m)
      \<and> flow_ok (cfg_max_payload (sm_config t)) (stream_terminal t) (sm_received t) (sm_end_received t) q
          (sm_sent s) (sm_end_sent s)
      \<and> credit_ok (stream_terminal s) (sm_peer_limit s) (sm_advertised_limit t) r
      \<and> barrier_ok (stream_terminal s) (sm_flush s) (sm_flush_serial s) q (sm_peer_flush t) (sm_peer_flush_serial t) r
      \<and> close_ok (cfg_side (sm_config s)) (sm_close_sent s) (sm_close_received s) (sm_completed s) q (sm_close_sent t) (sm_completed t)
      \<and> bytes_ok (sm_failed s) (sm_send s) (sm_sent s) (sm_end_sent s) q (sm_discarding t) (sm_recv t)
          (sm_received t) (p_written a) (p_read b)
      \<and> ack_ok (sm_failed s) (sm_flush s) (sm_flush_serial s) (sm_flush_acked s) (p_barriers a)
          (sink_offset t) r)"

definition link_inv :: "party \<times> party \<Rightarrow> bool" where
  "link_inv l \<longleftrightarrow>
     peers (sm_config (p_machine (fst l))) (sm_config (p_machine (snd l)))
     \<and> sm_inv (p_machine (fst l)) \<and> sm_inv (p_machine (snd l))
     \<and> half_inv (fst l) (snd l) \<and> half_inv (snd l) (fst l)"

definition kept :: "stream_machine \<Rightarrow> stream_machine \<Rightarrow> bool" where
  "kept s s' \<longleftrightarrow>
     sm_config s' = sm_config s \<and> sm_sent s' = sm_sent s \<and> sm_end_sent s' = sm_end_sent s
     \<and> sm_peer_limit s' = sm_peer_limit s \<and> sm_flush_serial s' = sm_flush_serial s
     \<and> sm_flush_acked s' = sm_flush_acked s \<and> sm_close_received s' = sm_close_received s
     \<and> sm_close_sent s' = sm_close_sent s \<and> sm_completed s' = sm_completed s
     \<and> sm_received s' = sm_received s \<and> sm_end_received s' = sm_end_received s \<and> sm_consumed s' = sm_consumed s
     \<and> sm_advertised_limit s' = sm_advertised_limit s \<and> sm_peer_flush_serial s' = sm_peer_flush_serial s
     \<and> sm_discarding s' = sm_discarding s \<and> sm_recv s' = sm_recv s"

definition same_view :: "stream_machine \<Rightarrow> stream_machine \<Rightarrow> bool" where
  "same_view s s' \<longleftrightarrow>
     kept s s' \<and> sm_error s' = sm_error s \<and> sm_send s' = sm_send s \<and> sm_flush s' = sm_flush s
     \<and> sm_peer_flush s' = sm_peer_flush s"

definition failed_view :: "stream_machine \<Rightarrow> stream_machine \<Rightarrow> bool" where
  "failed_view s s' \<longleftrightarrow>
     kept s s' \<and> \<not> stream_terminal s \<and> sm_error s' \<noteq> None \<and> sm_send s' = [] \<and> sm_flush s' = None
     \<and> sm_peer_flush s' = None"

fun plain_op :: "stream_op \<Rightarrow> bool" where
  "plain_op (Op_Write _) = False"
| "plain_op (Op_Read _) = False"
| "plain_op Op_StartFlush = False"
| "plain_op Op_StartClose = False"
| "plain_op op = local_op op"

fun is_window :: "wire \<Rightarrow> bool" where
  "is_window (W_Window _) = True"
| "is_window _ = False"

fun is_data :: "wire \<Rightarrow> bool" where
  "is_data (W_Data _ _) = True"
| "is_data _ = False"

fun is_closing :: "wire \<Rightarrow> bool" where
  "is_closing (W_Close _) = True"
| "is_closing (W_Closed _) = True"
| "is_closing _ = False"

section \<open>The operations of one side\<close>

lemma peers_sym: "peers c d \<Longrightarrow> peers d c"
  by (auto simp: peers_def)

lemma link_inv_sym: "link_inv (a, b) \<Longrightarrow> link_inv (b, a)"
  by (auto simp: link_inv_def dest: peers_sym)

lemma flow_append: "flow mx v (q @ r) = Option.bind (flow mx v q) (\<lambda>v'. flow mx v' r)"
  by (induction q arbitrary: v) (simp_all add: bind_assoc)

lemma flow_step_mono: "flow_step mx (p, e) w = Some (p', e') \<Longrightarrow> p \<le> p' \<and> (e \<longrightarrow> e' \<and> p = p')"
  by (cases w) (auto split: if_splits)

lemma flow_mono: "flow mx (p, e) q = Some (p', e') \<Longrightarrow> p \<le> p' \<and> (e \<longrightarrow> e' \<and> p = p')"
proof (induction q arbitrary: p e)
  case (Cons w q)
  then obtain p1 e1 where "flow_step mx (p, e) w = Some (p1, e1)" "flow mx (p1, e1) q = Some (p', e')"
    by (auto simp: bind_eq_Some_conv)
  then show ?case using flow_step_mono [of mx p e w p1 e1] Cons.IH [of p1 e1] by auto
qed simp

lemma new_simps:
  assumes "stream_new c = Inr s"
  shows "sm_config s = c" "sm_send s = []" "sm_recv s = []" "sm_sent s = 0" "sm_received s = 0"
    "sm_peer_limit s = int (cfg_peer_receive_window c)" "sm_advertised_limit s = int (cfg_receive_window c)"
    "sm_end_sent s = False" "sm_end_received s = False" "sm_flush s = None" "sm_flush_serial s = 0"
    "sm_flush_acked s = 0" "sm_peer_flush s = None" "sm_peer_flush_serial s = 0" "sm_close_sent s = False"
    "sm_close_received s = False" "sm_discarding s = False" "sm_close_pending s = None" "sm_completed s = None"
    "sm_error s = None" "sm_terminal_message s = None" "stream_terminal s = False"
  using assms by (auto simp: stream_new_def and_then_eq_Inr stream_terminal_iff)

lemma start_half_inv:
  assumes "stream_new c = Inr s" "stream_new d = Inr t" "peers c d"
  shows "half_inv (party_new s) (party_new t)"
  using assms(3)
  by (simp add: half_inv_def party_new_def new_simps [OF assms(1)] new_simps [OF assms(2)] outbox_ok_def flow_ok_def
      credit_ok_def barrier_ok_def close_ok_def bytes_ok_def ack_ok_def peers_def sm_failed_def)

lemma start_link_inv:
  assumes "link_start l"
  shows "link_inv l"
proof -
  obtain c d s t where l: "peers c d" "stream_new c = Inr s" "stream_new d = Inr t" "l = (party_new s, party_new t)"
    using assms by (auto simp: link_start_def)
  show ?thesis
    using start_half_inv [OF l(2,3,1)] start_half_inv [OF l(3,2) peers_sym [OF l(1)]] new_inv [OF l(2)] new_inv [OF l(3)]
    by (simp add: link_inv_def l(1,4) party_new_def new_simps(1) [OF l(2)] new_simps(1) [OF l(3)])
qed

lemma half_invD:
  assumes "half_inv a b"
  shows "outbox_ok (p_machine a)" "\<forall>m\<in>set (p_out a). sendable (sm_config (p_machine a)) m"
    "flow_ok (cfg_max_payload (sm_config (p_machine b))) (stream_terminal (p_machine b)) (sm_received (p_machine b))
       (sm_end_received (p_machine b)) (map wire_of (p_out a)) (sm_sent (p_machine a)) (sm_end_sent (p_machine a))"
    "credit_ok (stream_terminal (p_machine a)) (sm_peer_limit (p_machine a)) (sm_advertised_limit (p_machine b))
       (map wire_of (p_out b))"
    "barrier_ok (stream_terminal (p_machine a)) (sm_flush (p_machine a)) (sm_flush_serial (p_machine a))
       (map wire_of (p_out a)) (sm_peer_flush (p_machine b)) (sm_peer_flush_serial (p_machine b)) (map wire_of (p_out b))"
    "close_ok (cfg_side (sm_config (p_machine a))) (sm_close_sent (p_machine a)) (sm_close_received (p_machine a))
       (sm_completed (p_machine a)) (map wire_of (p_out a)) (sm_close_sent (p_machine b)) (sm_completed (p_machine b))"
    "bytes_ok (sm_failed (p_machine a)) (sm_send (p_machine a)) (sm_sent (p_machine a)) (sm_end_sent (p_machine a))
       (map wire_of (p_out a)) (sm_discarding (p_machine b)) (sm_recv (p_machine b)) (sm_received (p_machine b))
       (p_written a) (p_read b)"
    "ack_ok (sm_failed (p_machine a)) (sm_flush (p_machine a)) (sm_flush_serial (p_machine a))
       (sm_flush_acked (p_machine a)) (p_barriers a) (sink_offset (p_machine b)) (map wire_of (p_out b))"
  using assms by (simp_all add: half_inv_def Let_def)

lemma half_invI:
  assumes "outbox_ok (p_machine a)" "\<forall>m\<in>set (p_out a). sendable (sm_config (p_machine a)) m"
    "flow_ok (cfg_max_payload (sm_config (p_machine b))) (stream_terminal (p_machine b)) (sm_received (p_machine b))
       (sm_end_received (p_machine b)) (map wire_of (p_out a)) (sm_sent (p_machine a)) (sm_end_sent (p_machine a))"
    "credit_ok (stream_terminal (p_machine a)) (sm_peer_limit (p_machine a)) (sm_advertised_limit (p_machine b))
       (map wire_of (p_out b))"
    "barrier_ok (stream_terminal (p_machine a)) (sm_flush (p_machine a)) (sm_flush_serial (p_machine a))
       (map wire_of (p_out a)) (sm_peer_flush (p_machine b)) (sm_peer_flush_serial (p_machine b)) (map wire_of (p_out b))"
    "close_ok (cfg_side (sm_config (p_machine a))) (sm_close_sent (p_machine a)) (sm_close_received (p_machine a))
       (sm_completed (p_machine a)) (map wire_of (p_out a)) (sm_close_sent (p_machine b)) (sm_completed (p_machine b))"
    "bytes_ok (sm_failed (p_machine a)) (sm_send (p_machine a)) (sm_sent (p_machine a)) (sm_end_sent (p_machine a))
       (map wire_of (p_out a)) (sm_discarding (p_machine b)) (sm_recv (p_machine b)) (sm_received (p_machine b))
       (p_written a) (p_read b)"
    "ack_ok (sm_failed (p_machine a)) (sm_flush (p_machine a)) (sm_flush_serial (p_machine a))
       (sm_flush_acked (p_machine a)) (p_barriers a) (sink_offset (p_machine b)) (map wire_of (p_out b))"
  shows "half_inv a b"
  using assms by (simp add: half_inv_def Let_def)

lemma link_invD:
  assumes "link_inv (a, b)"
  shows "peers (sm_config (p_machine a)) (sm_config (p_machine b))" "sm_inv (p_machine a)" "sm_inv (p_machine b)"
    "half_inv a b" "half_inv b a"
  using assms by (simp_all add: link_inv_def)

lemma link_invI:
  assumes "peers (sm_config (p_machine a)) (sm_config (p_machine b))" "sm_inv (p_machine a)" "sm_inv (p_machine b)"
    "half_inv a b" "half_inv b a"
  shows "link_inv (a, b)"
  using assms by (simp add: link_inv_def)

lemma same_view_refl [simp]: "same_view s s"
  by (simp add: same_view_def kept_def)

lemma fail_view: "\<not> stream_terminal s \<Longrightarrow> failed_view s (stream_fail e b s)"
  by (simp add: failed_view_def kept_def)

lemma view_trans: "same_view s t \<Longrightarrow> failed_view t u \<Longrightarrow> failed_view s u"
  by (simp add: same_view_def failed_view_def kept_def stream_terminal_iff)

lemma view_trans_left: "failed_view s t \<Longrightarrow> same_view t u \<Longrightarrow> failed_view s u"
  by (simp add: same_view_def failed_view_def kept_def)

lemma same_view_updates [simp]:
  "same_view s (touch s)" "same_view s (s\<lparr>sm_now := a\<rparr>)" "same_view s (s\<lparr>sm_io := b\<rparr>)"
  "same_view s (s\<lparr>sm_failure_facts := c\<rparr>)" "same_view s (s\<lparr>sm_retained_failure := d\<rparr>)"
  "same_view s (s\<lparr>sm_terminal_message := e\<rparr>)" "same_view s (s\<lparr>sm_close_pending := f\<rparr>)"
  "same_view s (read_force s)" "same_view s (touch (s\<lparr>sm_now := a\<rparr>))"
  "same_view s (touch (s\<lparr>sm_close_pending := f\<rparr>))" "same_view s (touch (s\<lparr>sm_terminal_message := e\<rparr>))"
  "same_view s (touch (s\<lparr>sm_end_requested := g, sm_force_send := h\<rparr>))"
  by (simp_all add: same_view_def kept_def)

lemma plain_view:
  assumes "plain_op op"
  shows "same_view s (stream_apply op s) \<or> failed_view s (stream_apply op s)"
proof -
  have f: "\<not> stream_terminal s \<Longrightarrow> failed_view s (stream_fail e b (s\<lparr>sm_now := t\<rparr>))"
    "\<not> stream_terminal s \<Longrightarrow> failed_view s (stream_fail e b (s\<lparr>sm_io := io\<rparr>))"
    "\<not> stream_terminal s \<Longrightarrow> failed_view s (stream_fail e b (s\<lparr>sm_failure_facts := x\<rparr>))" for e b t io x
    by (rule view_trans [OF _ fail_view]; simp)+
  show ?thesis
  proof (cases op)
    case Op_EndWrite then show ?thesis by (cases rule: end_write_form [of s]) simp_all
  next
    case Op_Cancel then show ?thesis by (cases "stream_terminal s") (simp_all add: cancel_def fail_view)
  next
    case Op_Disconnect
    show ?thesis
    proof (cases "stream_terminal s")
      case False
      have "same_view (stream_fail Stream_CarrierLost False s) (disconnect s)" by (simp add: disconnect_def)
      then show ?thesis using Op_Disconnect view_trans_left [OF fail_view [OF False]] by simp
    qed (simp add: Op_Disconnect disconnect_def)
  next
    case (Op_FailTerminal fl)
    show ?thesis
    proof (cases rule: fail_terminal_form [of fl s])
      case (fails m)
      show ?thesis
        by (simp add: Op_FailTerminal fails(5) view_trans_left [OF f(3) [OF fails(1)] same_view_updates(6)])
    qed (simp add: Op_FailTerminal)
  next
    case (Op_CompleteClose d fa fl)
    then show ?thesis by (cases rule: complete_close_form [of d fa fl s]) simp_all
  next
    case (Op_SetIoState st)
    then show ?thesis by (cases rule: set_io_state_form [of st s]) (simp_all add: f fail_view)
  next
    case (Op_RecordIoProgress n)
    then show ?thesis by (cases rule: record_io_progress_form [of n s]) (simp_all add: fail_view)
  next
    case (Op_Advance t) then show ?thesis by (cases rule: advance_form [of t s]) (simp_all add: f)
  qed (use assms in simp_all)
qed

lemma sink_view: "kept s s' \<Longrightarrow> sink_offset s' = sink_offset s"
  by (simp add: kept_def sink_offset_def)

lemma link_same:
  assumes "link_inv (a, b)" "same_view (p_machine a) s'" "sm_inv s'" "outbox_ok s'"
  shows "link_inv (a\<lparr>p_machine := s'\<rparr>, b)"
proof -
  have k: "kept (p_machine a) s'" using assms(2) by (simp add: same_view_def)
  have t: "stream_terminal s' = stream_terminal (p_machine a)" "sm_failed s' = sm_failed (p_machine a)"
    using assms(2) by (simp_all add: same_view_def kept_def stream_terminal_iff sm_failed_def)
  show ?thesis
    using assms(1,3,4) assms(2) [unfolded same_view_def] k [unfolded kept_def] t sink_view [OF k]
    by (simp add: link_inv_def half_inv_def Let_def)
qed

text \<open>A side that fails.\<close>

lemma fail_ok:
  "flow_ok mx d pos e q st es \<Longrightarrow> flow_ok mx True pos e q st es"
  "credit_ok d l ad r \<Longrightarrow> credit_ok True l ad r"
  "barrier_ok d f n q h hn r \<Longrightarrow> barrier_ok True None n q h hn r"
  "barrier_ok d f n q h hn r \<Longrightarrow> barrier_ok d f n q None hn r"
  "bytes_ok x sd st es q dc rc rv w rd \<Longrightarrow> bytes_ok True [] st es q dc rc rv w rd"
  "ack_ok x f n k bars sk r \<Longrightarrow> ack_ok True None n k bars sk r"
  by (auto simp: flow_ok_def credit_ok_def barrier_ok_def bytes_ok_def ack_ok_def split: if_splits)

lemma link_fail:
  assumes inv: "link_inv (a, b)" and f: "failed_view (p_machine a) s'" and s': "sm_inv s'" "outbox_ok s'"
  shows "link_inv (a\<lparr>p_machine := s'\<rparr>, b)"
proof -
  have k: "kept (p_machine a) s'" using f by (simp add: failed_view_def)
  note kk = k [unfolded kept_def] and ff = f [unfolded failed_view_def] and l = link_invD [OF inv]
  have t: "stream_terminal s'" "sm_failed s'" using ff by (simp_all add: stream_terminal_iff sm_failed_def)
  note h = half_invD [OF l(4)] and g = half_invD [OF l(5)]
  have "half_inv (a\<lparr>p_machine := s'\<rparr>) b"
    using h(2,3,6) s'(2) fail_ok(2) [OF h(4)] fail_ok(3) [OF h(5)] fail_ok(5) [OF h(7)] fail_ok(6) [OF h(8)]
    by (intro half_invI) (simp_all add: kk ff t)
  moreover have "half_inv b (a\<lparr>p_machine := s'\<rparr>)"
    using g(1,2,4,6-8) fail_ok(1) [OF g(3)] fail_ok(4) [OF g(5)]
    by (intro half_invI) (simp_all add: kk ff t sink_view [OF k])
  ultimately show ?thesis using l(1,3) s'(1) by (intro link_invI) (simp_all add: kk)
qed

lemma ack_mono: "ack_ok x f n k bars sk r \<Longrightarrow> sk \<le> sk' \<Longrightarrow> ack_ok x f n k bars sk' r"
  by (fastforce simp: ack_ok_def)

lemma bytes_prefix:
  assumes "bytes_ok f sd st en q dc rc rv w rd"
  shows "prefix rd w"
proof (cases dc)
  case False
  then have "rd @ rc = take (nat rv) w" using assms by (simp add: bytes_ok_def)
  then have "w = rd @ (rc @ drop (nat rv) w)" by (metis append_assoc append_take_drop_id)
  then show ?thesis by (rule prefixI)
qed (use assms in \<open>simp add: bytes_ok_def\<close>)

lemma bytes_write:
  assumes "bytes_ok False sd st False q dc rc rv w rd" "rv \<le> st"
  shows "bytes_ok False (sd @ x) st False q dc rc rv (w @ x) rd"
proof -
  have l: "0 \<le> st" "st \<le> int (length w)" using assms(1) by (simp_all add: bytes_ok_def)
  have "take (length p) (drop (nat off) (w @ x)) = take (length p) (drop (nat off) w)"
    if "0 \<le> off" "off + int (length p) \<le> st" for off p
  proof -
    have "nat off + length p \<le> length w" using that l by simp
    then show ?thesis by simp
  qed
  moreover have "take (nat rv) (w @ x) = take (nat rv) w" "drop (nat st) (w @ x) = drop (nat st) w @ x"
    using l assms(2) by simp_all
  ultimately show ?thesis using assms(1) unfolding bytes_ok_def by auto
qed

lemma link_write:
  assumes inv: "link_inv (a, b)" and op: "op = Op_Write i"
  shows "link_inv (party_apply op a, b)"
proof (cases rule: write_form [of i "p_machine a"])
  case (same e)
  then have "party_apply op a = a" by (auto simp: op party_apply_def Let_def)
  then show ?thesis using inv by simp
next
  case fails
  then have "party_apply op a = a\<lparr>p_machine := stream_apply op (p_machine a)\<rparr>"
    by (simp add: op party_apply_def Let_def)
  moreover have "failed_view (p_machine a) (stream_apply op (p_machine a))"
    using fails by (simp add: op fail_view)
  ultimately show ?thesis
    using link_fail [OF inv] apply_inv apply_outbox link_invD(2,4) [OF inv] half_invD(1) by metis
next
  case (takes n d)
  let ?s = "p_machine a" and ?x = "take n i"
  define s' where "s' = stream_apply op ?s"
  note l = link_invD [OF inv] and h = half_invD [OF link_invD(4) [OF inv]] and g = half_invD [OF link_invD(5) [OF inv]]
  have s': "s' = touch (?s\<lparr>sm_batch_deadline := d, sm_send := sm_send ?s @ ?x,
      sm_peak_send := max (sm_peak_send ?s) (length (sm_send ?s) + n)\<rparr>)"
    using takes(7) by (simp add: s'_def op)
  have e: "\<not> sm_failed ?s" "\<not> sm_end_sent ?s" "stream_terminal s' = stream_terminal ?s" "sm_failed s' = sm_failed ?s"
      "sink_offset s' = sink_offset ?s"
    using takes(1,2) sm_invD(2) [OF l(2)]
    by (auto simp: s' sm_failed_def stream_terminal_iff send_inv_def sink_offset_def)
  have p: "party_apply op a = a\<lparr>p_machine := s', p_written := p_written a @ ?x\<rparr>"
    using takes(7) by (simp add: op party_apply_def Let_def s'_def)
  have "bytes_ok False (sm_send ?s @ ?x) (sm_sent ?s) False (map wire_of (p_out a)) (sm_discarding (p_machine b))
      (sm_recv (p_machine b)) (sm_received (p_machine b)) (p_written a @ ?x) (p_read b)"
    using bytes_write h(7) h(3) e(1,2) by (simp add: flow_ok_def)
  then have "half_inv (party_apply op a) b"
    using h(2-6,8) apply_outbox [OF l(2) h(1), of op] e
    unfolding p s'_def [symmetric] by (intro half_invI) (simp_all add: s')
  moreover have "half_inv b (party_apply op a)"
    using g e unfolding p by (intro half_invI) (simp_all add: s')
  ultimately show ?thesis
    using l apply_inv [OF l(2), of op] unfolding p s'_def [symmetric] by (intro link_invI) (simp_all add: s')
qed

lemma link_read:
  assumes inv: "link_inv (a, b)" and op: "op = Op_Read k"
  shows "link_inv (party_apply op a, b)"
proof (cases rule: read_form [of k "p_machine a"])
  case (empty e)
  let ?s' = "if k = 0 then p_machine a else read_force (p_machine a)"
  have p: "party_apply op a = a\<lparr>p_machine := ?s'\<rparr>" "stream_apply op (p_machine a) = ?s'"
    using empty(1,2) by (auto simp: op party_apply_def Let_def)
  show ?thesis
    using link_same [OF inv, of ?s'] apply_inv [of "p_machine a" op] apply_outbox [of "p_machine a" op]
      link_invD(2,4) [OF inv] half_invD(1) [OF link_invD(4) [OF inv]] unfolding p by simp
next
  case (bytes n)
  let ?s = "p_machine a"
  define s' where "s' = stream_apply op ?s"
  note l = link_invD [OF inv] and h = half_invD [OF link_invD(4) [OF inv]] and g = half_invD [OF link_invD(5) [OF inv]]
  have s': "s' = touch ((read_force ?s)\<lparr>sm_recv := drop n (sm_recv ?s), sm_consumed := sm_consumed ?s + int n\<rparr>)"
    using bytes(3) by (simp add: s'_def op)
  have e: "stream_terminal s' = stream_terminal ?s" "sm_failed s' = sm_failed ?s"
      "sink_offset ?s \<le> sink_offset s'"
    by (auto simp: s' sm_failed_def stream_terminal_iff sink_offset_def)
  have p: "party_apply op a = a\<lparr>p_machine := s', p_read := p_read a @ take n (sm_recv ?s)\<rparr>"
    using bytes(3) by (simp add: op party_apply_def Let_def s'_def)
  have "half_inv (party_apply op a) b"
    using h apply_outbox [OF l(2) h(1), of op] e
    unfolding p s'_def [symmetric] by (intro half_invI) (simp_all add: s')
  moreover have "\<not> sm_discarding ?s" using sm_invD(3) [OF l(2)] bytes(1,2) by (auto simp: recv_inv_def)
  then have "half_inv b (party_apply op a)"
    using g ack_mono [OF g(8) e(3)] e unfolding p by (intro half_invI) (simp_all add: s' bytes_ok_def)
  ultimately show ?thesis
    using l apply_inv [OF l(2), of op] unfolding p s'_def [symmetric] by (intro link_invI) (simp_all add: s')
qed

lemma link_start_close:
  assumes inv: "link_inv (a, b)" and op: "op = Op_StartClose"
  shows "link_inv (party_apply op a, b)"
proof (cases rule: start_close_form [of "p_machine a"])
  case (same e)
  then have "party_apply op a = a" by (simp add: op party_apply_def Let_def)
  then show ?thesis using inv by simp
next
  case closes
  let ?s = "p_machine a"
  define s' where "s' = stream_apply op ?s"
  note l = link_invD [OF inv] and h = half_invD [OF link_invD(4) [OF inv]] and g = half_invD [OF link_invD(5) [OF inv]]
  have s': "s' = touch (snd (end_write (close_discard ?s)))" using closes(4) by (simp add: s'_def op)
  define t where "t = snd (end_write (close_discard ?s))"
  have t: "t = close_discard ?s \<or> t = touch ((close_discard ?s)\<lparr>sm_end_requested := True, sm_force_send := True\<rparr>)"
    unfolding t_def by (cases rule: end_write_form [of "close_discard ?s"]) auto
  have v: "sm_config t = sm_config ?s" "sm_sent t = sm_sent ?s" "sm_end_sent t = sm_end_sent ?s"
      "sm_peer_limit t = sm_peer_limit ?s" "sm_flush t = sm_flush ?s" "sm_flush_serial t = sm_flush_serial ?s"
      "sm_flush_acked t = sm_flush_acked ?s" "sm_close_received t = sm_close_received ?s"
      "sm_close_sent t = sm_close_sent ?s" "sm_completed t = sm_completed ?s" "sm_error t = sm_error ?s"
      "sm_received t = sm_received ?s" "sm_end_received t = sm_end_received ?s" "sm_send t = sm_send ?s"
      "sm_advertised_limit t = sm_advertised_limit ?s" "sm_peer_flush t = sm_peer_flush ?s"
      "sm_peer_flush_serial t = sm_peer_flush_serial ?s" "sm_discarding t" "sm_recv t = []"
    using t by auto
  have e: "stream_terminal s' = stream_terminal ?s" "sm_failed s' = sm_failed ?s" "sink_offset s' = sink_offset ?s"
    using closes(2) by (simp_all add: s' t_def [symmetric] v sm_failed_def stream_terminal_iff sink_offset_def)
  have p: "party_apply op a = a\<lparr>p_machine := s'\<rparr>"
    by (simp add: op party_apply_def Let_def s'_def)
  have "half_inv (party_apply op a) b"
    using h apply_outbox [OF l(2) h(1), of op] e
    unfolding p s'_def [symmetric] by (intro half_invI) (simp_all add: s' t_def [symmetric] v)
  moreover have "prefix (p_read a) (p_written b)"
    using g(7) by (rule bytes_prefix)
  then have "half_inv b (party_apply op a)"
    using g e unfolding p by (intro half_invI) (simp_all add: s' t_def [symmetric] v bytes_ok_def)
  ultimately show ?thesis
    using l apply_inv [OF l(2), of op] unfolding p s'_def [symmetric]
    by (intro link_invI) (simp_all add: s' t_def [symmetric] v)
qed

lemma barrier_none:
  assumes "barrier_ok False f n q h hn r" "\<And>g. f = Some g \<Longrightarrow> \<not> pf_sent g"
  shows "filter is_flush q = []" "h = None" "filter is_flushed r = []"
    "W_Flush i off \<notin> set q" "W_Flushed i off \<notin> set r"
proof -
  have k: "\<not> (W_Flush i off \<in> set q \<or> h = Some \<lparr>barrier_barrier_id = i, barrier_offset = off\<rparr> \<or> W_Flushed i off \<in> set r)"
    for i off
    using assms by (fastforce simp: barrier_ok_def)
  then show "W_Flush i off \<notin> set q" "W_Flushed i off \<notin> set r" by blast+
  show "filter is_flush q = []" using k by (auto simp: filter_empty_conv elim!: is_flush.elims)
  show "filter is_flushed r = []" using k by (auto simp: filter_empty_conv elim!: is_flushed.elims)
  show "h = None" using k by (cases h rule: option.exhaust) (auto, metis barrier.cases)
qed

lemma bytes_total: "bytes_ok False sd st en q dc rc rv w rd \<Longrightarrow> st + int (length sd) = int (length w)"
  by (auto simp: bytes_ok_def)

lemma start_flush_again:
  assumes "start_flush s = (Inr t, s)"
  shows "\<not> stream_terminal s \<and> (\<exists>f. sm_flush s = Some f \<and> pf_id f = t)"
proof -
  have "\<not> stream_terminal s" using assms stream_live_dead [of s] by (auto simp: start_flush_def)
  moreover have "sm_flush s \<noteq> None"
  proof
    assume "sm_flush s = None"
    moreover have "fst (start_flush s) = Inr t" using assms by simp
    ultimately have "sm_flush (snd (start_flush s)) \<noteq> None"
      using \<open>\<not> stream_terminal s\<close> by (auto simp: start_flush_def Let_def split: if_splits option.splits)
    then show False using assms \<open>sm_flush s = None\<close> by simp
  qed
  ultimately show ?thesis using assms by (auto simp: start_flush_def)
qed

lemma link_start_flush:
  assumes inv: "link_inv (a, b)" and op: "op = Op_StartFlush"
  shows "link_inv (party_apply op a, b)"
  using sm_invD(2) [OF link_invD(2) [OF inv]]
proof (cases rule: start_flush_form)
  case (same e)
  note h = half_invD [OF link_invD(4) [OF inv]]
  have "(p_barriers a)(t \<mapsto> length (p_written a)) = p_barriers a" if t: "e = Inr t" for t
  proof -
    obtain f where f: "\<not> stream_terminal (p_machine a)" "sm_flush (p_machine a) = Some f" "pf_id f = t"
      using start_flush_again same t by blast
    then have "pf_offset f = int (length (p_written a))"
      using sm_invD(4) [OF link_invD(2) [OF inv]] h(7) bytes_total
      by (simp add: flush_inv_def sm_failed_def stream_terminal_iff)
    then show ?thesis using h(8) f(2,3) by (auto simp: ack_ok_def)
  qed
  then have "party_apply op a = a" using same by (cases e) (auto simp: op party_apply_def Let_def)
  then show ?thesis using inv by simp
next
  case starts
  let ?s = "p_machine a" and ?f = "\<lparr>pf_id = sm_flush_serial (p_machine a) + 1,
         pf_offset = sm_sent (p_machine a) + int (length (sm_send (p_machine a))), pf_sent = False\<rparr>"
  define s' where "s' = stream_apply op ?s"
  note l = link_invD [OF inv] and h = half_invD [OF link_invD(4) [OF inv]] and g = half_invD [OF link_invD(5) [OF inv]]
  have s': "s' = touch (?s\<lparr>sm_flush_serial := sm_flush_serial ?s + 1, sm_flush := Some ?f, sm_force_send := True\<rparr>)"
    using starts(5) by (simp add: s'_def op)
  have e: "\<not> sm_failed ?s" "stream_terminal s' = stream_terminal ?s" "sm_failed s' = sm_failed ?s"
      "sink_offset s' = sink_offset ?s"
    using starts(1) by (auto simp: s' sm_failed_def stream_terminal_iff sink_offset_def)
  have p: "party_apply op a = a\<lparr>p_machine := s',
      p_barriers := (p_barriers a)(sm_flush_serial ?s + 1 \<mapsto> length (p_written a))\<rparr>"
    using starts(5) by (simp add: op party_apply_def Let_def s'_def)
  have w: "sm_sent ?s + int (length (sm_send ?s)) = int (length (p_written a))"
    using h(7) e(1) bytes_total by simp
  have n: "barrier_ok False None (sm_flush_serial ?s) (map wire_of (p_out a)) (sm_peer_flush (p_machine b))
      (sm_peer_flush_serial (p_machine b)) (map wire_of (p_out b))"
    using h(5) starts(1,2) by simp
  have "barrier_ok False (Some ?f) (sm_flush_serial ?s + 1) (map wire_of (p_out a)) (sm_peer_flush (p_machine b))
      (sm_peer_flush_serial (p_machine b)) (map wire_of (p_out b))"
    using n barrier_none [OF n] by (simp add: barrier_ok_def)
  moreover have "ack_ok False (Some ?f) (sm_flush_serial ?s + 1) (sm_flush_acked ?s)
      ((p_barriers a)(sm_flush_serial ?s + 1 \<mapsto> length (p_written a))) (sink_offset (p_machine b)) (map wire_of (p_out b))"
    using h(8) e(1) w starts(2) by (fastforce simp: ack_ok_def)
  ultimately have "half_inv (party_apply op a) b"
    using h apply_outbox [OF l(2) h(1), of op] e starts(1)
    unfolding p s'_def [symmetric] by (intro half_invI) (simp_all add: s')
  moreover have "half_inv b (party_apply op a)"
    using g e unfolding p by (intro half_invI) (simp_all add: s')
  ultimately show ?thesis
    using l apply_inv [OF l(2), of op] unfolding p s'_def [symmetric] by (intro link_invI) (simp_all add: s')
qed

lemma link_plain:
  assumes inv: "link_inv (a, b)" and op: "plain_op op"
  shows "link_inv (party_apply op a, b)"
proof -
  have p: "party_apply op a = a\<lparr>p_machine := stream_apply op (p_machine a)\<rparr>"
    using op by (cases op) (simp_all add: party_apply_def Let_def)
  note l = link_invD(2,4) [OF inv]
  show ?thesis
    using plain_view [OF op] link_same [OF inv] link_fail [OF inv] apply_inv [OF l(1)]
      apply_outbox [OF l(1) half_invD(1) [OF l(2)]]
    unfolding p by metis
qed

lemma link_act:
  assumes "link_inv (a, b)" "local_op op"
  shows "link_inv (party_apply op a, b)"
  using assms link_write link_read link_start_flush link_start_close link_plain by (cases op) auto

end
