(* ===== verification/Stream_Link_Steps.thy ===== *)
theory Stream_Link_Steps
  imports Stream_Link
begin

text \<open>
  Emitting and delivering messages keep the invariant of a link: one lemma for each message a
  machine can emit and one for each it can receive. A delivered message is never refused.
\<close>

section \<open>Emission and delivery\<close>

lemma append_ok [simp]:
  "\<not> is_window w \<Longrightarrow> credit_ok d l ad (r @ [w]) = credit_ok d l ad r"
  "\<not> is_flush w \<Longrightarrow> barrier_ok d f n (q @ [w]) h hn r = barrier_ok d f n q h hn r"
  "\<not> is_flushed w \<Longrightarrow> barrier_ok d f n q h hn (r @ [w]) = barrier_ok d f n q h hn r"
  "\<not> is_closing w \<Longrightarrow> close_ok sd cs rc c (q @ [w]) ps pc = close_ok sd cs rc c q ps pc"
  "\<not> is_data w \<Longrightarrow> bytes_ok x sn st es (q @ [w]) dc rv rn wr rd = bytes_ok x sn st es q dc rv rn wr rd"
  "\<not> is_flushed w \<Longrightarrow> ack_ok x f n k bars sk (r @ [w]) = ack_ok x f n k bars sk r"
  by (auto simp: credit_ok_def barrier_ok_def close_ok_def bytes_ok_def ack_ok_def)

lemma flow_ok_append:
  assumes "flow_ok mx d pos e q st es" "flow_step mx (st, es) w = Some (st', es')"
  shows "flow_ok mx d pos e (q @ [w]) st' es'"
  using assms flow_step_mono [OF assms(2)] by (auto simp: flow_ok_def flow_append)

lemma link_emit:
  assumes inv: "link_inv (a, b)" and n: "next_message (p_machine a) = (Some m, s')"
    and k: "sm_config s' = sm_config (p_machine a)"
    and h: "half_inv (a\<lparr>p_machine := s', p_out := p_out a @ [m]\<rparr>) b"
    and g: "half_inv b (a\<lparr>p_machine := s', p_out := p_out a @ [m]\<rparr>)"
  shows "link_inv (a\<lparr>p_machine := s', p_out := p_out a @ [m]\<rparr>, b)"
  using link_invD [OF inv] h g k apply_inv [of "p_machine a" Op_NextMessage] n by (intro link_invI) simp_all

lemma emit_out:
  assumes inv: "link_inv (a, b)" and n: "next_message (p_machine a) = (Some m, s')"
  shows "outbox_ok s'" "\<forall>x\<in>set (p_out a @ [m]). sendable (sm_config (p_machine a)) x"
proof -
  note l = link_invD [OF inv] and h = half_invD [OF link_invD(4) [OF inv]]
  show "outbox_ok s'" using apply_outbox [OF l(2) h(1), of Op_NextMessage] n by simp
  show "\<forall>x\<in>set (p_out a @ [m]). sendable (sm_config (p_machine a)) x"
    using h(2) next_sendable [OF l(2) h(1) n] by auto
qed

lemma link_notice:
  assumes inv: "link_inv (a, b)" and n: "next_message (p_machine a) = (Some m, s')"
    and m: "sm_terminal_message (p_machine a) = Some m"
  shows "link_inv (a\<lparr>p_machine := s', p_out := p_out a @ [m]\<rparr>, b)"
proof -
  note h = half_invD [OF link_invD(4) [OF inv]] and g = half_invD [OF link_invD(5) [OF inv]]
  have s': "s' = touch ((p_machine a)\<lparr>sm_terminal_message := None\<rparr>)"
    using n m by (simp add: next_message_def)
  have "final_wire (wire_of m)" using h(1) m by (simp add: outbox_ok_def)
  then have f: "\<not> is_window (wire_of m)" "\<not> is_flush (wire_of m)" "\<not> is_flushed (wire_of m)" "\<not> is_closing (wire_of m)"
      "\<not> is_data (wire_of m)" "flow_step mx v (wire_of m) = Some v" for mx v
    by (cases "wire_of m"; simp)+
  have e: "stream_terminal s' = stream_terminal (p_machine a)" "sm_failed s' = sm_failed (p_machine a)"
      "sink_offset s' = sink_offset (p_machine a)"
    by (auto simp: s' sm_failed_def stream_terminal_iff sink_offset_def)
  show ?thesis
  proof (rule link_emit [OF inv n])
    show "half_inv (a\<lparr>p_machine := s', p_out := p_out a @ [m]\<rparr>) b"
      using h e emit_out [OF inv n] flow_ok_append [OF h(3) f(6)]
      by (intro half_invI) (simp_all add: s' f)
    show "half_inv b (a\<lparr>p_machine := s', p_out := p_out a @ [m]\<rparr>)"
      using g e by (intro half_invI) (simp_all add: s' f)
  qed (simp add: s')
qed

lemma barrier_flushed:
  assumes "barrier_ok d f n q (Some bar) hn r"
  shows "barrier_ok d f n q None hn (r @ [W_Flushed (barrier_barrier_id bar) (barrier_offset bar)])"
proof -
  have "bar = \<lparr>barrier_barrier_id = barrier_barrier_id bar, barrier_offset = barrier_offset bar\<rparr>" by simp
  then have "d \<or> f = Some \<lparr>pf_id = barrier_barrier_id bar, pf_offset = barrier_offset bar, pf_sent = True\<rparr>"
    using assms unfolding barrier_ok_def by blast
  then show ?thesis using assms unfolding barrier_ok_def by simp
qed

lemma link_emit_flushed:
  assumes inv: "link_inv (a, b)" and n: "next_message (p_machine a) = (Some m, s')"
    and e: "emit_flushed (p_machine a) = Some (m, s')"
  shows "link_inv (a\<lparr>p_machine := s', p_out := p_out a @ [m]\<rparr>, b)"
proof -
  note h = half_invD [OF link_invD(4) [OF inv]] and g = half_invD [OF link_invD(5) [OF inv]]
  obtain bar where m: "sm_peer_flush (p_machine a) = Some bar" "barrier_offset bar \<le> sink_offset (p_machine a)"
      "wire_of m = W_Flushed (barrier_barrier_id bar) (barrier_offset bar)"
      "s' = touch ((p_machine a)\<lparr>sm_peer_flush := None\<rparr>)"
    using e by (auto simp: emit_flushed_Some)
  have e: "stream_terminal s' = stream_terminal (p_machine a)" "sm_failed s' = sm_failed (p_machine a)"
      "sink_offset s' = sink_offset (p_machine a)"
    by (auto simp: m sm_failed_def stream_terminal_iff sink_offset_def)
  have f: "flow_step mx v (wire_of m) = Some v" for mx v by (simp add: m(3))
  show ?thesis
  proof (rule link_emit [OF inv n])
    show "half_inv (a\<lparr>p_machine := s', p_out := p_out a @ [m]\<rparr>) b"
      using h e emit_out [OF inv n] flow_ok_append [OF h(3) f]
      by (intro half_invI) (simp_all add: m)
    have "barrier_ok (stream_terminal (p_machine b)) (sm_flush (p_machine b)) (sm_flush_serial (p_machine b))
       (map wire_of (p_out b)) None (sm_peer_flush_serial (p_machine a))
       (map wire_of (p_out a) @ [W_Flushed (barrier_barrier_id bar) (barrier_offset bar)])"
      using g(5) m(1) barrier_flushed by simp
    moreover have "ack_ok (sm_failed (p_machine b)) (sm_flush (p_machine b)) (sm_flush_serial (p_machine b))
       (sm_flush_acked (p_machine b)) (p_barriers b) (sink_offset (p_machine a))
       (map wire_of (p_out a) @ [W_Flushed (barrier_barrier_id bar) (barrier_offset bar)])"
      using g(8) m(2) by (auto simp: ack_ok_def)
    ultimately show "half_inv b (a\<lparr>p_machine := s', p_out := p_out a @ [m]\<rparr>)"
      using g e by (intro half_invI) (simp_all add: m)
  qed (simp add: m)
qed

lemma link_emit_window:
  assumes inv: "link_inv (a, b)" and n: "next_message (p_machine a) = (Some m, s')"
    and e: "emit_window (p_machine a) = Some (m, s')"
  shows "link_inv (a\<lparr>p_machine := s', p_out := p_out a @ [m]\<rparr>, b)"
proof -
  note h = half_invD [OF link_invD(4) [OF inv]] and g = half_invD [OF link_invD(5) [OF inv]]
  obtain lim where m: "sm_advertised_limit (p_machine a) < lim" "wire_of m = W_Window lim"
      "s' = touch ((p_machine a)\<lparr>sm_advertised_limit := lim\<rparr>)"
    using e by (auto simp: emit_window_Some)
  have e: "stream_terminal s' = stream_terminal (p_machine a)" "sm_failed s' = sm_failed (p_machine a)"
      "sink_offset s' = sink_offset (p_machine a)"
    by (auto simp: m sm_failed_def stream_terminal_iff sink_offset_def)
  have f: "flow_step mx v (wire_of m) = Some v" for mx v by (simp add: m)
  show ?thesis
  proof (rule link_emit [OF inv n])
    show "half_inv (a\<lparr>p_machine := s', p_out := p_out a @ [m]\<rparr>) b"
      using h e emit_out [OF inv n] flow_ok_append [OF h(3) f]
      by (intro half_invI) (simp_all add: m)
    have "credit_ok (stream_terminal (p_machine b)) (sm_peer_limit (p_machine b)) lim
       (map wire_of (p_out a) @ [W_Window lim])"
      using g(4) m(1) by (fastforce simp: credit_ok_def)
    then show "half_inv b (a\<lparr>p_machine := s', p_out := p_out a @ [m]\<rparr>)"
      using g e by (intro half_invI) (simp_all add: m)
  qed (simp add: m)
qed

lemma link_emit_closed:
  assumes inv: "link_inv (a, b)" and n: "next_message (p_machine a) = (Some m, s')"
    and live: "\<not> stream_terminal (p_machine a)" and e: "emit_closed (p_machine a) = Some (m, s')"
  shows "link_inv (a\<lparr>p_machine := s', p_out := p_out a @ [m]\<rparr>, b)"
proof -
  note l = link_invD [OF inv] and h = half_invD [OF link_invD(4) [OF inv]] and g = half_invD [OF link_invD(5) [OF inv]]
  obtain c where m: "sm_close_pending (p_machine a) = Some c" "wire_of m = W_Closed c"
      "s' = touch ((p_machine a)\<lparr>sm_close_pending := None, sm_completed := Some
             \<lparr>cr_disposition = closed_disposition c,
              cr_unread_response_discarded = closed_unread_response_discarded c,
              cr_facts = closed_facts c\<rparr>\<rparr>)"
    using e by (auto simp: emit_closed_Some)
  have p: "sm_close_received (p_machine a)" "sm_end_sent (p_machine a)" "cfg_side (sm_config (p_machine a)) = Side_Endpoint"
    using sm_invD(5,6) [OF l(2)] m(1) by (auto simp: close_inv_def pending_inv_def)
  have e: "stream_terminal s'" "sm_failed s' = sm_failed (p_machine a)" "sink_offset s' = sink_offset (p_machine a)"
    by (auto simp: m(3) sm_failed_def stream_terminal_iff sink_offset_def)
  have f: "flow_step mx (st, sm_end_sent (p_machine a)) (wire_of m) = Some (st, sm_end_sent (p_machine a))" for mx st
    by (simp add: m p)
  have u: "sm_completed (p_machine a) = None" using live by (simp add: stream_terminal_iff)
  have "credit_ok True (sm_peer_limit (p_machine a)) (sm_advertised_limit (p_machine b)) (map wire_of (p_out b))"
    using h(4) fail_ok(2) by blast
  moreover have "barrier_ok True (sm_flush (p_machine a)) (sm_flush_serial (p_machine a))
       (map wire_of (p_out a)) (sm_peer_flush (p_machine b)) (sm_peer_flush_serial (p_machine b)) (map wire_of (p_out b))"
    using h(5) by (simp add: barrier_ok_def)
  moreover have "close_ok Side_Endpoint (sm_close_sent (p_machine a)) True (sm_completed s')
       (map wire_of (p_out a) @ [W_Closed c]) (sm_close_sent (p_machine b)) (sm_completed (p_machine b))"
    using h(6) p(1,3) u by (auto simp: close_ok_def m(3))
  moreover have "flow_ok (cfg_max_payload (sm_config (p_machine a))) True (sm_received (p_machine a))
       (sm_end_received (p_machine a)) (map wire_of (p_out b)) (sm_sent (p_machine b)) (sm_end_sent (p_machine b))"
    using g(3) fail_ok(1) by blast
  moreover have "close_ok (cfg_side (sm_config (p_machine b))) (sm_close_sent (p_machine b)) (sm_close_received (p_machine b))
      (sm_completed (p_machine b)) (map wire_of (p_out b)) (sm_close_sent (p_machine a)) (sm_completed s')"
    using g(6) u by (auto simp: close_ok_def)
  ultimately show ?thesis
    using h g e p emit_out [OF inv n] flow_ok_append [OF h(3) f]
    by (intro link_emit [OF inv n] half_invI) (simp_all add: m)
qed

lemma barrier_flush:
  assumes "barrier_ok False (Some f) n q h hn r" "\<not> pf_sent f" "pf_id f = n"
  shows "barrier_ok False (Some (f\<lparr>pf_sent := True\<rparr>)) n (q @ [W_Flush (pf_id f) (pf_offset f)]) h hn r"
  using assms barrier_none [OF assms(1)] by (cases f) (auto simp: barrier_ok_def)

lemma link_emit_flush:
  assumes inv: "link_inv (a, b)" and n: "next_message (p_machine a) = (Some m, s')"
    and live: "\<not> stream_terminal (p_machine a)" and e: "emit_flush (p_machine a) = Some (m, s')"
  shows "link_inv (a\<lparr>p_machine := s', p_out := p_out a @ [m]\<rparr>, b)"
proof -
  note l = link_invD [OF inv] and h = half_invD [OF link_invD(4) [OF inv]] and g = half_invD [OF link_invD(5) [OF inv]]
  obtain fl where m: "sm_flush (p_machine a) = Some fl" "\<not> pf_sent fl" "sm_sent (p_machine a) = pf_offset fl"
      "wire_of m = W_Flush (pf_id fl) (pf_offset fl)"
      "s' = touch ((p_machine a)\<lparr>sm_flush := Some (fl\<lparr>pf_sent := True\<rparr>)\<rparr>)"
    using e by (auto simp: emit_flush_Some)
  have p: "\<not> sm_end_sent (p_machine a)" "pf_id fl = sm_flush_serial (p_machine a)"
    using sm_invD(4) [OF l(2)] m(1,2) by (auto simp: flush_inv_def)
  have e: "stream_terminal s' = stream_terminal (p_machine a)" "sm_failed s' = sm_failed (p_machine a)"
      "sink_offset s' = sink_offset (p_machine a)"
    by (auto simp: m sm_failed_def stream_terminal_iff sink_offset_def)
  have f: "flow_step mx (sm_sent (p_machine a), sm_end_sent (p_machine a)) (wire_of m)
      = Some (sm_sent (p_machine a), sm_end_sent (p_machine a))" for mx
    by (simp add: m p)
  have "barrier_ok (stream_terminal (p_machine a)) (Some (fl\<lparr>pf_sent := True\<rparr>)) (sm_flush_serial (p_machine a))
       (map wire_of (p_out a) @ [W_Flush (pf_id fl) (pf_offset fl)]) (sm_peer_flush (p_machine b))
       (sm_peer_flush_serial (p_machine b)) (map wire_of (p_out b))"
    using barrier_flush h(5) m(1,2) p(2) live by simp
  moreover have "ack_ok (sm_failed (p_machine a)) (Some (fl\<lparr>pf_sent := True\<rparr>)) (sm_flush_serial (p_machine a))
       (sm_flush_acked (p_machine a)) (p_barriers a) (sink_offset (p_machine b)) (map wire_of (p_out b))"
    using h(8) m(1) by (simp add: ack_ok_def)
  ultimately show ?thesis
    using h g e emit_out [OF inv n] flow_ok_append [OF h(3) f]
    by (intro link_emit [OF inv n] half_invI) (simp_all add: m)
qed

lemma bytes_send:
  assumes "bytes_ok False sn st False q dc rc rv w rd" "k \<le> length sn"
  shows "bytes_ok False (drop k sn) (st + int k) False (q @ [W_Data st (take k sn)]) dc rc rv w rd"
proof -
  have l: "0 \<le> st" "st \<le> int (length w)" "sn = drop (nat st) w" using assms(1) by (simp_all add: bytes_ok_def)
  have "k + nat st = nat (st + int k)" using l(1) by simp
  then have "drop k sn = drop (nat (st + int k)) w" using l(3) by simp
  moreover have "st + int k \<le> int (length w)" using bytes_total [OF assms(1)] assms(2) by linarith
  moreover have "length (take k sn) = k" using assms(2) by simp
  ultimately show ?thesis using assms(1) l(3) by (fastforce simp: bytes_ok_def)
qed

lemma link_emit_data:
  assumes inv: "link_inv (a, b)" and n: "next_message (p_machine a) = (Some m, s')"
    and live: "\<not> stream_terminal (p_machine a)" and e: "emit_data (p_machine a) = Some (m, s')"
  shows "link_inv (a\<lparr>p_machine := s', p_out := p_out a @ [m]\<rparr>, b)"
proof -
  note l = link_invD [OF inv] and h = half_invD [OF link_invD(4) [OF inv]] and g = half_invD [OF link_invD(5) [OF inv]]
  note v = sm_invD [OF l(2)]
  obtain k where k: "0 < k" "k \<le> length (sm_send (p_machine a))" "k \<le> cfg_max_payload (sm_config (p_machine a))"
      "wire_of m = W_Data (sm_sent (p_machine a)) (take k (sm_send (p_machine a)))" "s' = touch (send_drain k (p_machine a))"
    using emit_data_Some [OF v(2,1) e] by (metis wire_of_simps(1) data_msg.select_convs(1,2))
  have p: "\<not> sm_end_sent (p_machine a)" "sm_send (p_machine a) \<noteq> []" "\<not> sm_failed (p_machine a)"
    using v(2) k(1,2) live by (auto simp: send_inv_def sm_failed_def stream_terminal_iff)
  have e: "stream_terminal s' = stream_terminal (p_machine a)" "sm_failed s' = sm_failed (p_machine a)"
      "sink_offset s' = sink_offset (p_machine a)"
    by (auto simp: k(5) sm_failed_def stream_terminal_iff sink_offset_def)
  have f: "flow_step (cfg_max_payload (sm_config (p_machine b))) (sm_sent (p_machine a), sm_end_sent (p_machine a)) (wire_of m)
      = Some (sm_sent (p_machine a) + int k, sm_end_sent (p_machine a))"
    using k p l(1) by (simp add: peers_def)
  have "bytes_ok False (drop k (sm_send (p_machine a))) (sm_sent (p_machine a) + int k) False
      (map wire_of (p_out a) @ [W_Data (sm_sent (p_machine a)) (take k (sm_send (p_machine a)))])
      (sm_discarding (p_machine b)) (sm_recv (p_machine b)) (sm_received (p_machine b)) (p_written a) (p_read b)"
    using bytes_send h(7) p k(2) by simp
  then show ?thesis
    using h g e p emit_out [OF inv n] flow_ok_append [OF h(3) f]
    by (intro link_emit [OF inv n] half_invI) (simp_all add: k)
qed

lemma link_emit_end_write:
  assumes inv: "link_inv (a, b)" and n: "next_message (p_machine a) = (Some m, s')"
    and live: "\<not> stream_terminal (p_machine a)" and e: "emit_end_write (p_machine a) = Some (m, s')"
  shows "link_inv (a\<lparr>p_machine := s', p_out := p_out a @ [m]\<rparr>, b)"
proof -
  note l = link_invD [OF inv] and h = half_invD [OF link_invD(4) [OF inv]] and g = half_invD [OF link_invD(5) [OF inv]]
  have m: "\<not> sm_end_sent (p_machine a)" "sm_send (p_machine a) = []" "wire_of m = W_EndWrite (sm_sent (p_machine a))"
      "s' = touch ((p_machine a)\<lparr>sm_end_sent := True\<rparr>)"
    using e by (auto simp: emit_end_write_Some)
  have e: "stream_terminal s' = stream_terminal (p_machine a)" "sm_failed s' = sm_failed (p_machine a)"
      "sink_offset s' = sink_offset (p_machine a)" "\<not> sm_failed (p_machine a)"
    using live by (auto simp: m sm_failed_def stream_terminal_iff sink_offset_def)
  have f: "flow_step mx (sm_sent (p_machine a), sm_end_sent (p_machine a)) (wire_of m) = Some (sm_sent (p_machine a), True)" for mx
    by (simp add: m)
  have "sm_sent (p_machine a) = int (length (p_written a))"
    using bytes_total h(7) e(4) m(2) by fastforce
  then have "bytes_ok False [] (sm_sent (p_machine a)) True (map wire_of (p_out a))
      (sm_discarding (p_machine b)) (sm_recv (p_machine b)) (sm_received (p_machine b)) (p_written a) (p_read b)"
    using h(7) m(2) e(4) by (simp add: bytes_ok_def)
  then show ?thesis
    using h g e emit_out [OF inv n] flow_ok_append [OF h(3) f]
    by (intro link_emit [OF inv n] half_invI) (simp_all add: m)
qed

lemma link_emit_close:
  assumes inv: "link_inv (a, b)" and n: "next_message (p_machine a) = (Some m, s')"
    and e: "emit_close (p_machine a) = Some (m, s')"
  shows "link_inv (a\<lparr>p_machine := s', p_out := p_out a @ [m]\<rparr>, b)"
proof -
  note l = link_invD [OF inv] and h = half_invD [OF link_invD(4) [OF inv]] and g = half_invD [OF link_invD(5) [OF inv]]
  have m: "sm_end_sent (p_machine a)" "cfg_side (sm_config (p_machine a)) = Side_Initiator"
      "wire_of m = W_Close (sm_sent (p_machine a))" "s' = touch ((p_machine a)\<lparr>sm_close_sent := True\<rparr>)"
    using e by (auto simp: emit_close_Some)
  have e: "stream_terminal s' = stream_terminal (p_machine a)" "sm_failed s' = sm_failed (p_machine a)"
      "sink_offset s' = sink_offset (p_machine a)"
    by (auto simp: m sm_failed_def stream_terminal_iff sink_offset_def)
  have f: "flow_step mx (sm_sent (p_machine a), sm_end_sent (p_machine a)) (wire_of m)
      = Some (sm_sent (p_machine a), sm_end_sent (p_machine a))" for mx
    by (simp add: m)
  have "close_ok Side_Initiator True (sm_close_received (p_machine a)) (sm_completed (p_machine a))
      (map wire_of (p_out a) @ [W_Close (sm_sent (p_machine a))]) (sm_close_sent (p_machine b)) (sm_completed (p_machine b))"
    using h(6) m(2) by (auto simp: close_ok_def)
  moreover have "close_ok (cfg_side (sm_config (p_machine b))) (sm_close_sent (p_machine b)) (sm_close_received (p_machine b))
      (sm_completed (p_machine b)) (map wire_of (p_out b)) True (sm_completed (p_machine a))"
    using g(6) by (auto simp: close_ok_def)
  ultimately show ?thesis
    using h g e emit_out [OF inv n] flow_ok_append [OF h(3) f]
    by (intro link_emit [OF inv n] half_invI) (simp_all add: m)
qed

lemma link_next:
  assumes inv: "link_inv (a, b)" and n: "next_message (p_machine a) = (Some m, s')"
  shows "link_inv (a\<lparr>p_machine := s', p_out := p_out a @ [m]\<rparr>, b)"
  using link_notice [OF assms] link_emit_flushed [OF assms] link_emit_window [OF assms] link_emit_closed [OF assms]
    link_emit_flush [OF assms] link_emit_data [OF assms] link_emit_end_write [OF assms] link_emit_close [OF assms] n
  by (cases rule: next_message_form [of "p_machine a"]) simp_all

lemma pop_ok:
  "barrier_ok d f n (w # q) h hn r \<Longrightarrow> barrier_ok d f n q h hn r"
  "barrier_ok d f n q h hn (w # r) \<Longrightarrow> barrier_ok d f n q h hn r"
  "close_ok sd cs rc c (w # q) ps pc \<Longrightarrow> close_ok sd cs rc c q ps pc"
  "bytes_ok x sn st es (w # q) dc rv rn wr rd \<Longrightarrow> bytes_ok x sn st es q dc rv rn wr rd"
  "ack_ok x f n k bars sk (w # r) \<Longrightarrow> ack_ok x f n k bars sk r"
  "credit_ok True l ad (w # r) \<Longrightarrow> credit_ok True l ad r"
  "\<not> is_window w \<Longrightarrow> credit_ok d l ad (w # r) \<Longrightarrow> credit_ok d l ad r"
  "flow_ok mx True pos e (w # q) st es \<Longrightarrow> flow_ok mx True pos e q st es"
  by (auto simp: credit_ok_def barrier_ok_def close_ok_def bytes_ok_def ack_ok_def flow_ok_def split: if_splits)

lemma flow_ok_pop:
  assumes "flow_ok mx False pos e (w # q) st es"
  obtains pos' e' where "flow_step mx (pos, e) w = Some (pos', e')" "flow_ok mx False pos' e' q st es"
proof -
  obtain pos' e' where f: "flow_step mx (pos, e) w = Some (pos', e')" "flow mx (pos', e') q = Some (st, es)"
    using assms by (auto simp: flow_ok_def bind_eq_Some_conv)
  then show thesis using flow_mono [OF f(2)] by (intro that [OF f(1)]) (simp add: flow_ok_def)
qed

lemma link_pop_dead:
  assumes inv: "link_inv (a, b)" and out: "p_out a = m # q" and dead: "stream_terminal (p_machine b)"
  shows "link_inv (a\<lparr>p_out := q\<rparr>, b)"
proof -
  note l = link_invD [OF inv] and h = half_invD [OF link_invD(4) [OF inv]] and g = half_invD [OF link_invD(5) [OF inv]]
  have "half_inv (a\<lparr>p_out := q\<rparr>) b"
    using h(1,2,4,8) pop_ok(1) [of _ _ _ "wire_of m"] pop_ok(3) [of _ _ _ _ "wire_of m"] pop_ok(4) [of _ _ _ _ "wire_of m"]
      pop_ok(8) [of _ _ _ "wire_of m"] h(3,5-7) dead
    by (intro half_invI) (simp_all add: out)
  moreover have "half_inv b (a\<lparr>p_out := q\<rparr>)"
    using g(1-3,6,7) pop_ok(2) [of _ _ _ _ _ _ "wire_of m"] pop_ok(5) [of _ _ _ _ _ _ "wire_of m"]
      pop_ok(6) [of _ _ "wire_of m"] g(4,5,8) dead
    by (intro half_invI) (simp_all add: out)
  ultimately show ?thesis using l(1-3) by (intro link_invI) simp_all
qed

lemma link_fail_pop:
  assumes inv: "link_inv (a, b)" and out: "p_out a = m # q" and f: "failed_view (p_machine b) t'"
    and t': "sm_inv t'" "outbox_ok t'"
  shows "link_inv (a\<lparr>p_out := q\<rparr>, b\<lparr>p_machine := t'\<rparr>)"
proof -
  have "link_inv (a, b\<lparr>p_machine := t'\<rparr>)" using link_inv_sym link_fail [OF link_inv_sym [OF inv] f t'] by blast
  then show ?thesis by (rule link_pop_dead [OF _ out]) (use f in \<open>simp add: failed_view_def stream_terminal_iff\<close>)
qed

lemma wire_of_kind:
  "wire_of m = W_Data off p \<Longrightarrow> env_kind m = Kind_Data \<and> env_data m = Some \<lparr>data_offset = off, data_payload = p\<rparr>"
  "wire_of m = W_Window l \<Longrightarrow> env_kind m = Kind_Window \<and> env_window m = Some \<lparr>window_max_offset = l\<rparr>"
  "wire_of m = W_Flush i off \<Longrightarrow> env_kind m = Kind_Flush \<and> env_flush m = Some \<lparr>barrier_barrier_id = i, barrier_offset = off\<rparr>"
  "wire_of m = W_Flushed i off \<Longrightarrow>
     env_kind m = Kind_Flushed \<and> env_flushed m = Some \<lparr>barrier_barrier_id = i, barrier_offset = off\<rparr>"
  "wire_of m = W_EndWrite off \<Longrightarrow> env_kind m = Kind_EndWrite \<and> env_end_write m = Some \<lparr>endw_final_offset = off\<rparr>"
  "wire_of m = W_Close off \<Longrightarrow> env_kind m = Kind_Close \<and> env_close m = Some \<lparr>close_final_offset = off\<rparr>"
  "wire_of m = W_Closed c \<Longrightarrow> env_kind m = Kind_Closed \<and> env_closed m = Some c"
  "wire_of m = W_Cancel r \<Longrightarrow> env_kind m = Kind_Cancel \<and> env_cancel m = Some \<lparr>cancel_reason = r\<rparr>"
  "wire_of m = W_Failed f \<Longrightarrow> env_kind m = Kind_Failed \<and> env_failed m = Some f"
  by (cases "env_kind m"; force simp: wire_of_def split: option.splits)+

lemma accept_head:
  assumes "sendable c m" "peers c (sm_config t)"
  shows "stream_accept m t = accept_body m t"
  using assms by (simp add: stream_accept_def sendable_def peers_def)

lemma deliverI:
  assumes inv: "link_inv (a, b)" and live: "\<not> stream_terminal (p_machine b)" "\<not> io_expired (p_machine b)"
    and out: "p_out a = m # q" and acc: "accept_body m (p_machine b) = Inr t'"
    and h: "outbox_ok t' \<Longrightarrow> sm_config t' = sm_config (p_machine b) \<Longrightarrow> half_inv (a\<lparr>p_out := q\<rparr>) (b\<lparr>p_machine := t'\<rparr>)"
    and g: "outbox_ok t' \<Longrightarrow> sm_config t' = sm_config (p_machine b) \<Longrightarrow> half_inv (b\<lparr>p_machine := t'\<rparr>) (a\<lparr>p_out := q\<rparr>)"
  shows "stream_accept m (p_machine b) = Inr t' \<and> link_inv (a\<lparr>p_out := q\<rparr>, b\<lparr>p_machine := t'\<rparr>)"
proof -
  note l = link_invD [OF inv]
  have "sendable (sm_config (p_machine a)) m" using half_invD(2) [OF l(4)] out by simp
  then have a: "stream_accept m (p_machine b) = Inr t'" using accept_head [OF _ l(1)] acc by simp
  have k: "sm_config t' = sm_config (p_machine b)" "outbox_ok t'"
    using accept_keeps [OF a] outbox_weaken [OF half_invD(1) [OF l(5)]] by simp_all
  have "sm_inv t'" using accept_inv [OF l(3) live a] .
  then have "link_inv (a\<lparr>p_out := q\<rparr>, b\<lparr>p_machine := t'\<rparr>)" using l h g k by (intro link_invI) simp_all
  then show ?thesis using a by simp
qed

lemma data_taken_fields [simp]:
  "sm_send (data_taken d s) = sm_send s" "sm_sent (data_taken d s) = sm_sent s" "sm_end_sent (data_taken d s) = sm_end_sent s"
  "sm_peer_limit (data_taken d s) = sm_peer_limit s" "sm_advertised_limit (data_taken d s) = sm_advertised_limit s"
  "sm_end_received (data_taken d s) = sm_end_received s" "sm_flush (data_taken d s) = sm_flush s"
  "sm_flush_serial (data_taken d s) = sm_flush_serial s" "sm_flush_acked (data_taken d s) = sm_flush_acked s"
  "sm_peer_flush (data_taken d s) = sm_peer_flush s" "sm_peer_flush_serial (data_taken d s) = sm_peer_flush_serial s"
  "sm_close_sent (data_taken d s) = sm_close_sent s" "sm_close_received (data_taken d s) = sm_close_received s"
  "sm_discarding (data_taken d s) = sm_discarding s" "sm_completed (data_taken d s) = sm_completed s"
  "sm_error (data_taken d s) = sm_error s" "sm_received (data_taken d s) = data_offset d + int (length (data_payload d))"
  "sm_recv (data_taken d s) = (if sm_discarding s then sm_recv s else sm_recv s @ data_payload d)"
  by (simp_all add: data_taken_def Let_def)

lemma bytes_receive:
  assumes "bytes_ok x sn st es (W_Data rv p # q) dc rc rv w rd"
  shows "bytes_ok x sn st es q dc (if dc then rc else rc @ p) (rv + int (length p)) w rd"
proof -
  have l: "0 \<le> rv" "p = take (length p) (drop (nat rv) w)" using assms by (simp_all add: bytes_ok_def)
  have "take (nat rv) w @ p = take (nat (rv + int (length p))) w"
    using l by (simp add: nat_add_distrib take_add)
  then show ?thesis using assms by (auto simp: bytes_ok_def simp flip: append_assoc)
qed

lemma popped:
  assumes inv: "link_inv (a, b)" and out: "p_out a = m # q"
  shows "\<forall>x\<in>set q. sendable (sm_config (p_machine a)) x"
    "barrier_ok (stream_terminal (p_machine a)) (sm_flush (p_machine a)) (sm_flush_serial (p_machine a))
       (map wire_of q) (sm_peer_flush (p_machine b)) (sm_peer_flush_serial (p_machine b)) (map wire_of (p_out b))"
    "close_ok (cfg_side (sm_config (p_machine a))) (sm_close_sent (p_machine a)) (sm_close_received (p_machine a))
       (sm_completed (p_machine a)) (map wire_of q) (sm_close_sent (p_machine b)) (sm_completed (p_machine b))"
    "bytes_ok (sm_failed (p_machine a)) (sm_send (p_machine a)) (sm_sent (p_machine a)) (sm_end_sent (p_machine a))
       (map wire_of q) (sm_discarding (p_machine b)) (sm_recv (p_machine b)) (sm_received (p_machine b))
       (p_written a) (p_read b)"
    "barrier_ok (stream_terminal (p_machine b)) (sm_flush (p_machine b)) (sm_flush_serial (p_machine b))
       (map wire_of (p_out b)) (sm_peer_flush (p_machine a)) (sm_peer_flush_serial (p_machine a)) (map wire_of q)"
    "ack_ok (sm_failed (p_machine b)) (sm_flush (p_machine b)) (sm_flush_serial (p_machine b))
       (sm_flush_acked (p_machine b)) (p_barriers b) (sink_offset (p_machine a)) (map wire_of q)"
    "\<not> is_window (wire_of m) \<Longrightarrow>
       credit_ok (stream_terminal (p_machine b)) (sm_peer_limit (p_machine b)) (sm_advertised_limit (p_machine a)) (map wire_of q)"
proof -
  note h = half_invD [OF link_invD(4) [OF inv], unfolded out list.map]
    and g = half_invD [OF link_invD(5) [OF inv], unfolded out list.map]
  show "\<forall>x\<in>set q. sendable (sm_config (p_machine a)) x" using h(2) by simp
  show "barrier_ok (stream_terminal (p_machine a)) (sm_flush (p_machine a)) (sm_flush_serial (p_machine a))
       (map wire_of q) (sm_peer_flush (p_machine b)) (sm_peer_flush_serial (p_machine b)) (map wire_of (p_out b))"
    using h(5) by (rule pop_ok(1))
  show "close_ok (cfg_side (sm_config (p_machine a))) (sm_close_sent (p_machine a)) (sm_close_received (p_machine a))
       (sm_completed (p_machine a)) (map wire_of q) (sm_close_sent (p_machine b)) (sm_completed (p_machine b))"
    using h(6) by (rule pop_ok(3))
  show "bytes_ok (sm_failed (p_machine a)) (sm_send (p_machine a)) (sm_sent (p_machine a)) (sm_end_sent (p_machine a))
       (map wire_of q) (sm_discarding (p_machine b)) (sm_recv (p_machine b)) (sm_received (p_machine b))
       (p_written a) (p_read b)"
    using h(7) by (rule pop_ok(4))
  show "barrier_ok (stream_terminal (p_machine b)) (sm_flush (p_machine b)) (sm_flush_serial (p_machine b))
       (map wire_of (p_out b)) (sm_peer_flush (p_machine a)) (sm_peer_flush_serial (p_machine a)) (map wire_of q)"
    using g(5) by (rule pop_ok(2))
  show "ack_ok (sm_failed (p_machine b)) (sm_flush (p_machine b)) (sm_flush_serial (p_machine b))
       (sm_flush_acked (p_machine b)) (p_barriers b) (sink_offset (p_machine a)) (map wire_of q)"
    using g(8) by (rule pop_ok(5))
  show "credit_ok (stream_terminal (p_machine b)) (sm_peer_limit (p_machine b)) (sm_advertised_limit (p_machine a)) (map wire_of q)"
    if "\<not> is_window (wire_of m)"
    using that g(4) by (rule pop_ok(7))
qed

lemma popped_flow:
  assumes inv: "link_inv (a, b)" and out: "p_out a = m # q" and live: "\<not> stream_terminal (p_machine b)"
  shows "\<exists>pos e. flow_step (cfg_max_payload (sm_config (p_machine b)))
        (sm_received (p_machine b), sm_end_received (p_machine b)) (wire_of m) = Some (pos, e)
      \<and> flow_ok (cfg_max_payload (sm_config (p_machine b))) False pos e (map wire_of q)
          (sm_sent (p_machine a)) (sm_end_sent (p_machine a))"
proof -
  have "flow_ok (cfg_max_payload (sm_config (p_machine b))) False (sm_received (p_machine b)) (sm_end_received (p_machine b))
      (wire_of m # map wire_of q) (sm_sent (p_machine a)) (sm_end_sent (p_machine a))"
    using half_invD(3) [OF link_invD(4) [OF inv]] out live by simp
  then show ?thesis by (rule flow_ok_pop) blast
qed

lemma deliver_data:
  assumes inv: "link_inv (a, b)" and live: "\<not> stream_terminal (p_machine b)" "\<not> io_expired (p_machine b)"
    and out: "p_out a = m # q" and w: "wire_of m = W_Data off p"
  shows "\<exists>t'. stream_accept m (p_machine b) = Inr t' \<and> link_inv (a\<lparr>p_out := q\<rparr>, b\<lparr>p_machine := t'\<rparr>)"
proof -
  note l = link_invD [OF inv] and h = half_invD [OF link_invD(4) [OF inv]] and g = half_invD [OF link_invD(5) [OF inv]]
  let ?t = "p_machine b"
  define d where "d = \<lparr>data_offset = off, data_payload = p\<rparr>"
  obtain pos e where f: "flow_step (cfg_max_payload (sm_config ?t)) (sm_received ?t, sm_end_received ?t) (W_Data off p) = Some (pos, e)"
      "flow_ok (cfg_max_payload (sm_config ?t)) False pos e (map wire_of q) (sm_sent (p_machine a)) (sm_end_sent (p_machine a))"
    using popped_flow [OF inv out live(1)] unfolding w by blast
  then have c: "\<not> sm_end_received ?t" "off = sm_received ?t" "p \<noteq> []" "length p \<le> cfg_max_payload (sm_config ?t)"
      "pos = off + int (length p)" "e = sm_end_received ?t" by (auto split: if_splits)
  have b: "0 \<le> off" "off + int (length p) \<le> sm_sent (p_machine a)" using h(7) out w by (auto simp: bytes_ok_def)
  have lim: "sm_sent (p_machine a) \<le> sm_advertised_limit ?t"
    using sm_invD(2) [OF l(2)] h(4) by (auto simp: send_inv_def credit_ok_def)
  note r = sm_invD(3) [OF l(3), unfolded recv_inv_def]
  have i: "in_i64 (off + int (length p))" "length (sm_recv ?t) + length p \<le> cfg_receive_window (sm_config ?t)"
    using b lim r c(2) by (auto simp: in_i64_def i64_min_def)
  have "accept_data m ?t = Inr (data_taken d ?t)"
    unfolding accept_data_ok using c b lim i wire_of_kind(1) [OF w] by (simp add: d_def)
  then have acc: "accept_body m ?t = Inr (data_taken d ?t)" using wire_of_kind(1) [OF w] by (simp add: accept_body_def)
  have t: "stream_terminal (data_taken d ?t) = stream_terminal ?t" "sm_failed (data_taken d ?t) = sm_failed ?t"
      "sink_offset ?t \<le> sink_offset (data_taken d ?t)"
    using c(2) r by (auto simp: stream_terminal_iff sm_failed_def sink_offset_def data_taken_def d_def Let_def)
  have "bytes_ok (sm_failed (p_machine a)) (sm_send (p_machine a)) (sm_sent (p_machine a)) (sm_end_sent (p_machine a))
       (W_Data (sm_received ?t) p # map wire_of q) (sm_discarding ?t) (sm_recv ?t) (sm_received ?t) (p_written a) (p_read b)"
    using h(7) out w c(2) by simp
  from bytes_receive [OF this]
  have "bytes_ok (sm_failed (p_machine a)) (sm_send (p_machine a)) (sm_sent (p_machine a)) (sm_end_sent (p_machine a))
       (map wire_of q) (sm_discarding ?t) (sm_recv (data_taken d ?t)) (sm_received (data_taken d ?t)) (p_written a) (p_read b)"
    using c(2) by (cases "sm_discarding ?t") (simp_all add: d_def)
  moreover have "flow_ok (cfg_max_payload (sm_config ?t)) False (sm_received (data_taken d ?t)) (sm_end_received ?t)
      (map wire_of q) (sm_sent (p_machine a)) (sm_end_sent (p_machine a))"
    using f(2) c(5,6) by (simp add: d_def)
  ultimately show ?thesis
    using h(1,4) ack_mono [OF h(8) t(3)] g(1-3,6,7) t(1,2) popped [OF inv out] w live(1)
    by (intro exI [of _ "data_taken d ?t"] deliverI [OF inv live out acc] half_invI) (simp_all del: data_taken_fields(17,18))
qed

lemma view_ok [simp]:
  "stream_terminal (s\<lparr>sm_peer_limit := x1\<rparr>) = stream_terminal s" "sm_failed (s\<lparr>sm_peer_limit := x1\<rparr>) = sm_failed s"
  "sink_offset (s\<lparr>sm_peer_limit := x1\<rparr>) = sink_offset s"
  "stream_terminal (s\<lparr>sm_peer_flush_serial := x2, sm_peer_flush := x3\<rparr>) = stream_terminal s"
  "sm_failed (s\<lparr>sm_peer_flush_serial := x2, sm_peer_flush := x3\<rparr>) = sm_failed s"
  "sink_offset (s\<lparr>sm_peer_flush_serial := x2, sm_peer_flush := x3\<rparr>) = sink_offset s"
  "stream_terminal (s\<lparr>sm_flush_acked := x4, sm_flush := x5\<rparr>) = stream_terminal s"
  "sm_failed (s\<lparr>sm_flush_acked := x4, sm_flush := x5\<rparr>) = sm_failed s"
  "sink_offset (s\<lparr>sm_flush_acked := x4, sm_flush := x5\<rparr>) = sink_offset s"
  "stream_terminal (s\<lparr>sm_end_received := x6\<rparr>) = stream_terminal s" "sm_failed (s\<lparr>sm_end_received := x6\<rparr>) = sm_failed s"
  "sink_offset (s\<lparr>sm_end_received := x6\<rparr>) = sink_offset s"
  "sm_failed (touch s) = sm_failed s" "sink_offset (touch s) = sink_offset s"
  by (simp_all add: stream_terminal_iff sm_failed_def sink_offset_def)

lemma deliver_window:
  assumes inv: "link_inv (a, b)" and live: "\<not> stream_terminal (p_machine b)" "\<not> io_expired (p_machine b)"
    and out: "p_out a = m # q" and w: "wire_of m = W_Window lim"
  shows "\<exists>t'. stream_accept m (p_machine b) = Inr t' \<and> link_inv (a\<lparr>p_out := q\<rparr>, b\<lparr>p_machine := t'\<rparr>)"
proof -
  note l = link_invD [OF inv] and h = half_invD [OF link_invD(4) [OF inv]] and g = half_invD [OF link_invD(5) [OF inv]]
  let ?t = "p_machine b"
  note k = popped [OF inv out]
  have f: "flow_ok (cfg_max_payload (sm_config ?t)) False (sm_received ?t) (sm_end_received ?t) (map wire_of q)
      (sm_sent (p_machine a)) (sm_end_sent (p_machine a))"
    using popped_flow [OF inv out live(1)] w by auto
  have cr: "credit_ok False (sm_peer_limit ?t) (sm_advertised_limit (p_machine a)) (W_Window lim # map wire_of q)"
    using g(4) out w live(1) by simp
  show ?thesis
  proof (cases "lim \<le> sm_peer_limit ?t")
    case True
    then have "accept_window m ?t = Inr ?t" unfolding accept_window_ok using wire_of_kind(2) [OF w] by simp
    then have acc: "accept_body m ?t = Inr ?t" using wire_of_kind(2) [OF w] by (simp add: accept_body_def)
    have "credit_ok False (sm_peer_limit ?t) (sm_advertised_limit (p_machine a)) (map wire_of q)"
      using cr True by (auto simp: credit_ok_def)
    then show ?thesis
      using h(1,4,8) g(1-3,6,7) f k(1-6) live(1)
      by (intro exI [of _ ?t] deliverI [OF inv live out acc] half_invI) simp_all
  next
    case False
    let ?t' = "touch (?t\<lparr>sm_peer_limit := lim\<rparr>)"
    have "lim \<le> sm_advertised_limit (p_machine a)" using cr by (simp add: credit_ok_def)
    moreover have "sm_advertised_limit (p_machine a) \<le> sm_received (p_machine a) + int (cfg_peer_receive_window (sm_config ?t))"
        "sm_advertised_limit (p_machine a) \<le> i64_max"
      using sm_invD(3) [OF l(2)] l(1) by (simp_all add: recv_inv_def peers_def)
    moreover have "sm_received (p_machine a) \<le> sm_sent ?t" using g(3) by (simp add: flow_ok_def)
    ultimately have "lim \<le> saturating_add_i64 (sm_sent ?t) (int (cfg_peer_receive_window (sm_config ?t)))"
      by (simp add: saturating_add_i64_def)
    then have "accept_window m ?t = Inr ?t'" unfolding accept_window_ok using wire_of_kind(2) [OF w] False by simp
    then have acc: "accept_body m ?t = Inr ?t'" using wire_of_kind(2) [OF w] by (simp add: accept_body_def)
    have "credit_ok False lim (sm_advertised_limit (p_machine a)) (map wire_of q)"
      using cr False by (auto simp: credit_ok_def)
    then show ?thesis
      using h(1,4,8) g(1-3,6,7) f k(1-6) live(1)
      by (intro exI [of _ ?t'] deliverI [OF inv live out acc] half_invI) simp_all
  qed
qed

lemma barrier_head:
  assumes "barrier_ok d f n (W_Flush i off # q) h hn r"
  shows "h = None" "hn < i"
  using assms by (auto simp: barrier_ok_def split: if_splits)

lemma barrier_take:
  assumes "barrier_ok d f n (W_Flush i off # q) h hn r" "\<And>g. f = Some g \<Longrightarrow> \<not> pf_sent g \<Longrightarrow> \<not> d"
  shows "barrier_ok d f n q (Some \<lparr>barrier_barrier_id = i, barrier_offset = off\<rparr>) i r"
proof -
  have q: "filter is_flush q = []" using assms(1) by (auto simp: barrier_ok_def split: if_splits)
  have r: "filter is_flushed r = []" using assms(1) by (auto simp: barrier_ok_def split: if_splits)
  have q': "W_Flush j o' \<notin> set q" "W_Flushed j o' \<notin> set r" for j o' using q r by (auto simp: filter_empty_conv)
  have "\<not> d \<Longrightarrow> f = Some \<lparr>pf_id = i, pf_offset = off, pf_sent = True\<rparr>"
    using assms(1) by (simp add: barrier_ok_def)
  then have "\<And>g. f = Some g \<Longrightarrow> pf_sent g" using assms(2) by force
  then show ?thesis using assms(1) q q' by (auto simp: barrier_ok_def split: if_splits)
qed

lemma unsent_live:
  assumes "sm_inv s" "sm_flush s = Some f" "\<not> pf_sent f"
  shows "\<not> stream_terminal s"
  using sm_invD(4,7,8) [OF assms(1)] assms(2,3)
  by (auto simp: flush_inv_def done_inv_def dead_inv_def stream_terminal_iff split: if_splits)

lemma deliver_flush:
  assumes inv: "link_inv (a, b)" and live: "\<not> stream_terminal (p_machine b)" "\<not> io_expired (p_machine b)"
    and out: "p_out a = m # q" and w: "wire_of m = W_Flush i off"
  shows "\<exists>t'. stream_accept m (p_machine b) = Inr t' \<and> link_inv (a\<lparr>p_out := q\<rparr>, b\<lparr>p_machine := t'\<rparr>)"
proof -
  note l = link_invD [OF inv] and h = half_invD [OF link_invD(4) [OF inv]] and g = half_invD [OF link_invD(5) [OF inv]]
  let ?t = "p_machine b" and ?b = "\<lparr>barrier_barrier_id = i, barrier_offset = off\<rparr>"
  let ?t' = "touch (?t\<lparr>sm_peer_flush_serial := i, sm_peer_flush := Some ?b\<rparr>)"
  note k = popped [OF inv out]
  have f: "flow_ok (cfg_max_payload (sm_config ?t)) False (sm_received ?t) (sm_end_received ?t) (map wire_of q)
      (sm_sent (p_machine a)) (sm_end_sent (p_machine a))" "\<not> sm_end_received ?t" "off = sm_received ?t"
    using popped_flow [OF inv out live(1)] w by (auto split: if_splits)
  have br: "barrier_ok (stream_terminal (p_machine a)) (sm_flush (p_machine a)) (sm_flush_serial (p_machine a))
       (W_Flush i off # map wire_of q) (sm_peer_flush ?t) (sm_peer_flush_serial ?t) (map wire_of (p_out b))"
    using h(5) out w by simp
  note br' = barrier_take [OF br unsent_live [OF l(2)]]
  have "accept_flush m ?t = Inr ?t'"
    unfolding accept_flush_ok using wire_of_kind(3) [OF w] barrier_head [OF br] f(2,3) by simp
  then have acc: "accept_body m ?t = Inr ?t'" using wire_of_kind(3) [OF w] by (simp add: accept_body_def)
  show ?thesis
    using h(1,4,8) g(1-3,6,7) f(1) br' k(1,3-7) w live(1)
    by (intro exI [of _ ?t'] deliverI [OF inv live out acc] half_invI) simp_all
qed

lemma ack_take:
  assumes "ack_ok False (Some f) n k bars sk (W_Flushed (pf_id f) (pf_offset f) # r)" "pf_id f = n" "0 \<le> pf_offset f"
  shows "ack_ok False None n (pf_id f) bars sk r"
proof -
  have k: "k + 1 = n" "bars n = Some (nat (pf_offset f))" "pf_offset f \<le> sk"
      "\<forall>i off. W_Flushed i off \<in> set r \<longrightarrow> off \<le> sk"
      "\<And>t v. bars t = Some v \<Longrightarrow> t \<le> n \<and> (t \<le> k \<longrightarrow> int v \<le> sk)"
    using assms(1,2) by (simp_all add: ack_ok_def)
  have "int v \<le> sk" if "bars t = Some v" for t v
  proof (cases "t = n")
    case True
    then show ?thesis using that k(2,3) assms(3) by simp
  next
    case False
    then have "t \<le> k" using k(1) k(5) [OF that] by simp
    then show ?thesis using k(5) [OF that] by simp
  qed
  then show ?thesis using k(4,5) assms(2) by (simp add: ack_ok_def)
qed

lemma barrier_done:
  assumes "barrier_ok False (Some f) n q h hn (W_Flushed i off # r)"
  shows "barrier_ok False None n q h hn r" "f = \<lparr>pf_id = i, pf_offset = off, pf_sent = True\<rparr>"
proof -
  have z: "filter is_flush q = []" "filter is_flushed r = []" "h = None"
    using assms by (auto simp: barrier_ok_def split: if_splits)
  then have "W_Flush j o' \<notin> set q" "W_Flushed j o' \<notin> set r" for j o' by (auto simp: filter_empty_conv)
  then show "barrier_ok False None n q h hn r" using assms z by (auto simp: barrier_ok_def)
  show "f = \<lparr>pf_id = i, pf_offset = off, pf_sent = True\<rparr>" using assms by (simp add: barrier_ok_def)
qed

lemma deliver_flushed:
  assumes inv: "link_inv (a, b)" and live: "\<not> stream_terminal (p_machine b)" "\<not> io_expired (p_machine b)"
    and out: "p_out a = m # q" and w: "wire_of m = W_Flushed i off"
  shows "\<exists>t'. stream_accept m (p_machine b) = Inr t' \<and> link_inv (a\<lparr>p_out := q\<rparr>, b\<lparr>p_machine := t'\<rparr>)"
proof -
  note l = link_invD [OF inv] and h = half_invD [OF link_invD(4) [OF inv]] and g = half_invD [OF link_invD(5) [OF inv]]
  let ?t = "p_machine b"
  let ?t' = "touch (?t\<lparr>sm_flush_acked := i, sm_flush := None\<rparr>)"
  note k = popped [OF inv out]
  have f: "flow_ok (cfg_max_payload (sm_config ?t)) False (sm_received ?t) (sm_end_received ?t) (map wire_of q)
      (sm_sent (p_machine a)) (sm_end_sent (p_machine a))"
    using popped_flow [OF inv out live(1)] w by auto
  have br: "barrier_ok False (sm_flush ?t) (sm_flush_serial ?t) (map wire_of (p_out b)) (sm_peer_flush (p_machine a))
      (sm_peer_flush_serial (p_machine a)) (W_Flushed i off # map wire_of q)"
    using g(5) out w live(1) by simp
  then obtain fl where fl: "sm_flush ?t = Some fl" by (auto simp: barrier_ok_def)
  note br' = barrier_done [OF br [unfolded fl]]
  have fi: "pf_id fl = sm_flush_serial ?t" "0 \<le> pf_offset fl"
    using sm_invD(2,4) [OF l(3)] fl by (auto simp: flush_inv_def send_inv_def)
  have "\<not> sm_failed ?t" using live(1) by (simp add: sm_failed_def stream_terminal_iff)
  then have ak: "ack_ok False (Some fl) (sm_flush_serial ?t) (sm_flush_acked ?t) (p_barriers b) (sink_offset (p_machine a))
      (W_Flushed (pf_id fl) (pf_offset fl) # map wire_of q)" "\<not> sm_failed ?t"
    using g(8) out w fl br'(2) by simp_all
  have "ack_ok False None (sm_flush_serial ?t) i (p_barriers b) (sink_offset (p_machine a)) (map wire_of q)"
    using ack_take [OF ak(1) fi] br'(2) by simp
  moreover have "accept_flushed m ?t = Inr ?t'"
    unfolding accept_flushed_ok using wire_of_kind(4) [OF w] fl br'(2) by simp
  then have acc: "accept_body m ?t = Inr ?t'" using wire_of_kind(4) [OF w] by (simp add: accept_body_def)
  ultimately show ?thesis
    using h(1,4,8) g(1-3,6,7) f(1) br'(1) k(1-4,7) w live(1) ak(2)
    by (intro exI [of _ ?t'] deliverI [OF inv live out acc] half_invI) simp_all
qed

lemma deliver_end_write:
  assumes inv: "link_inv (a, b)" and live: "\<not> stream_terminal (p_machine b)" "\<not> io_expired (p_machine b)"
    and out: "p_out a = m # q" and w: "wire_of m = W_EndWrite off"
  shows "\<exists>t'. stream_accept m (p_machine b) = Inr t' \<and> link_inv (a\<lparr>p_out := q\<rparr>, b\<lparr>p_machine := t'\<rparr>)"
proof -
  note h = half_invD [OF link_invD(4) [OF inv]] and g = half_invD [OF link_invD(5) [OF inv]]
  let ?t = "p_machine b"
  let ?t' = "touch (?t\<lparr>sm_end_received := True\<rparr>)"
  note k = popped [OF inv out]
  have f: "flow_ok (cfg_max_payload (sm_config ?t)) False (sm_received ?t) True (map wire_of q)
      (sm_sent (p_machine a)) (sm_end_sent (p_machine a))" "off = sm_received ?t"
    using popped_flow [OF inv out live(1)] w by (auto split: if_splits)
  have "accept_end_write m ?t = Inr ?t'"
    unfolding accept_end_write_ok using wire_of_kind(5) [OF w] f(2) by simp
  then have acc: "accept_body m ?t = Inr ?t'" using wire_of_kind(5) [OF w] by (simp add: accept_body_def)
  show ?thesis
    using h(1,4,8) g(1-3,6,7) f(1) k w live(1)
    by (intro exI [of _ ?t'] deliverI [OF inv live out acc] half_invI) simp_all
qed

lemma deliver_close:
  assumes inv: "link_inv (a, b)" and live: "\<not> stream_terminal (p_machine b)" "\<not> io_expired (p_machine b)"
    and out: "p_out a = m # q" and w: "wire_of m = W_Close off"
  shows "\<exists>t'. stream_accept m (p_machine b) = Inr t' \<and> link_inv (a\<lparr>p_out := q\<rparr>, b\<lparr>p_machine := t'\<rparr>)"
proof -
  note l = link_invD [OF inv] and h = half_invD [OF link_invD(4) [OF inv]] and g = half_invD [OF link_invD(5) [OF inv]]
  let ?t = "p_machine b"
  define t' where "t' = touch (if sm_close_received ?t then ?t
             else (stop_io_clock (?t\<lparr>sm_close_received := True\<rparr>))
               \<lparr>sm_close_deadline := Some (saturating_add_u64 (sm_now ?t) (cfg_close_timeout_ms (sm_config ?t)))\<rparr>)"
  note k = popped [OF inv out]
  have f: "flow_ok (cfg_max_payload (sm_config ?t)) False (sm_received ?t) (sm_end_received ?t) (map wire_of q)
      (sm_sent (p_machine a)) (sm_end_sent (p_machine a))" "off = sm_received ?t" "sm_end_received ?t"
    using popped_flow [OF inv out live(1)] w by (auto split: if_splits)
  have c: "cfg_side (sm_config (p_machine a)) = Side_Initiator" "sm_close_sent (p_machine a)"
    using h(6) out w by (auto simp: close_ok_def)
  then have sd: "cfg_side (sm_config ?t) = Side_Endpoint" using l(1) by (cases "cfg_side (sm_config ?t)") (auto simp: peers_def)
  have "accept_close m ?t = Inr t'"
    unfolding accept_close_ok t'_def using wire_of_kind(6) [OF w] f(2,3) sd by simp
  then have acc: "accept_body m ?t = Inr t'" using wire_of_kind(6) [OF w] by (simp add: accept_body_def)
  have v: "sm_close_received t'" "kept (?t\<lparr>sm_close_received := True\<rparr>) t'" "sm_error t' = sm_error ?t"
      "sm_send t' = sm_send ?t" "sm_flush t' = sm_flush ?t" "sm_peer_flush t' = sm_peer_flush ?t"
    by (auto simp: t'_def kept_def)
  have e: "stream_terminal t' = stream_terminal ?t" "sm_failed t' = sm_failed ?t" "sink_offset t' = sink_offset ?t"
    using v by (simp_all add: stream_terminal_iff sm_failed_def sink_offset_def kept_def)
  have "close_ok (cfg_side (sm_config ?t)) (sm_close_sent ?t) True
       (sm_completed ?t) (map wire_of (p_out b)) (sm_close_sent (p_machine a)) (sm_completed (p_machine a))"
    using g(6) c(2) by (simp add: close_ok_def)
  then show ?thesis
    using h(1,4,8) g(1-3,7) f(1) k w live(1) v(1,3-6) v(2) [unfolded kept_def] e
    by (intro exI [of _ t'] deliverI [OF inv live out acc] half_invI) simp_all
qed

lemma fail_keeps:
  assumes inv: "link_inv (a, b)" and live: "\<not> stream_terminal (p_machine b)" "\<not> io_expired (p_machine b)"
    and out: "p_out a = m # q" and acc: "accept_body m (p_machine b) = Inr t'" and f: "failed_view (p_machine b) t'"
  shows "\<exists>t'. stream_accept m (p_machine b) = Inr t' \<and> link_inv (a\<lparr>p_out := q\<rparr>, b\<lparr>p_machine := t'\<rparr>)"
proof -
  note l = link_invD [OF inv]
  have "sendable (sm_config (p_machine a)) m" using half_invD(2) [OF l(4)] out by simp
  then have a: "stream_accept m (p_machine b) = Inr t'" using accept_head [OF _ l(1)] acc by simp
  have "outbox_ok t'" using accept_keeps [OF a] outbox_weaken [OF half_invD(1) [OF l(5)]] by simp
  then show ?thesis using a link_fail_pop [OF inv out f accept_inv [OF l(3) live a]] by blast
qed

lemma fail_after: "\<not> stream_terminal s \<Longrightarrow> failed_view s (touch ((stream_fail e b (s\<lparr>sm_failure_facts := x\<rparr>))\<lparr>sm_retained_failure := y\<rparr>))"
  by (simp add: failed_view_def kept_def)

lemma deliver_closed:
  assumes inv: "link_inv (a, b)" and live: "\<not> stream_terminal (p_machine b)" "\<not> io_expired (p_machine b)"
    and out: "p_out a = m # q" and w: "wire_of m = W_Closed c"
  shows "\<exists>t'. stream_accept m (p_machine b) = Inr t' \<and> link_inv (a\<lparr>p_out := q\<rparr>, b\<lparr>p_machine := t'\<rparr>)"
proof -
  note l = link_invD [OF inv] and h = half_invD [OF link_invD(4) [OF inv]] and g = half_invD [OF link_invD(5) [OF inv]]
  let ?t = "p_machine b"
  note k = popped [OF inv out]
  have er: "sm_end_received ?t"
    using popped_flow [OF inv out live(1)] w by (auto split: if_splits)
  obtain x where x: "cfg_side (sm_config (p_machine a)) = Side_Endpoint" "sm_close_sent ?t" "sm_completed (p_machine a) = Some x"
      "cr_disposition x = closed_disposition c" "cr_facts x = closed_facts c"
    using h(6) out w by (auto simp: close_ok_def)
  then have sd: "cfg_side (sm_config ?t) = Side_Initiator" using l(1) by (cases "cfg_side (sm_config ?t)") (auto simp: peers_def)
  have "accept_closed m ?t = Inr (closed_taken c ?t)"
    unfolding accept_closed_ok using wire_of_kind(7) [OF w] er x(2) sd by simp
  then have acc: "accept_body m ?t = Inr (closed_taken c ?t)" using wire_of_kind(7) [OF w] by (simp add: accept_body_def)
  show ?thesis
  proof (cases "closed_failure c")
    case (Some fl)
    then show ?thesis using fail_keeps [OF inv live out acc] fail_after [OF live(1)] by (simp add: closed_taken_def)
  next
    case None
    let ?r = "\<lparr>cr_disposition = closed_disposition c,
        cr_unread_response_discarded = (sm_discarded ?t \<or> closed_unread_response_discarded c), cr_facts = closed_facts c\<rparr>"
    define t' where "t' = touch (?t\<lparr>sm_completed := Some ?r\<rparr>)"
    have t: "closed_taken c ?t = t'" using None by (simp add: closed_taken_def t'_def)
    have e: "stream_terminal t'" "sm_failed t' = sm_failed ?t" "sink_offset t' = sink_offset ?t"
      by (simp_all add: t'_def stream_terminal_iff sm_failed_def sink_offset_def)
    have fl: "flow_ok (cfg_max_payload (sm_config ?t)) True (sm_received ?t) (sm_end_received ?t) (map wire_of q)
        (sm_sent (p_machine a)) (sm_end_sent (p_machine a))"
      using h(3) by (simp add: flow_ok_def)
    have "close_ok (cfg_side (sm_config ?t)) (sm_close_sent ?t) (sm_close_received ?t) (Some ?r)
         (map wire_of (p_out b)) (sm_close_sent (p_machine a)) (sm_completed (p_machine a))"
      using g(6) x sd by (simp add: close_ok_def)
    moreover have "close_ok (cfg_side (sm_config (p_machine a))) (sm_close_sent (p_machine a)) (sm_close_received (p_machine a))
       (sm_completed (p_machine a)) (map wire_of q) (sm_close_sent ?t) (Some ?r)"
      using k(3) x(1) by (simp add: close_ok_def)
    moreover have "credit_ok True (sm_peer_limit ?t) (sm_advertised_limit (p_machine a)) (map wire_of q)"
      using k(7) w fail_ok(2) by fastforce
    moreover have "barrier_ok True (sm_flush ?t) (sm_flush_serial ?t)
       (map wire_of (p_out b)) (sm_peer_flush (p_machine a)) (sm_peer_flush_serial (p_machine a)) (map wire_of q)"
      using k(5) by (simp add: barrier_ok_def)
    ultimately show ?thesis
      using h(1,4,8) g(1-3,7) fl k(1,2,4,6) e
      by (intro exI [of _ t'] deliverI [OF inv live out acc [unfolded t]] half_invI) (simp_all add: t'_def)
  qed
qed

lemma link_deliver:
  assumes inv: "link_inv (a, b)" and out: "p_out a = m # q"
  shows "link_inv (a\<lparr>p_out := q\<rparr>, b\<lparr>p_machine := snd (stream_receive m (p_machine b))\<rparr>)
    \<and> fst (stream_receive m (p_machine b)) \<in> {Inr (), Inl Stream_Timeout}"
proof -
  let ?t = "p_machine b"
  have acc: "\<exists>t'. stream_accept m ?t = Inr t' \<and> link_inv (a\<lparr>p_out := q\<rparr>, b\<lparr>p_machine := t'\<rparr>)"
    if live: "\<not> stream_terminal ?t" "\<not> io_expired ?t"
  proof (cases "wire_of m")
    case (W_Cancel r)
    from wire_of_kind(8) [OF this] obtain e where "accept_body m ?t = Inr (touch (stream_fail e False ?t))"
      by (simp add: accept_body_def accept_cancel_def)
    moreover have "failed_view ?t (touch (stream_fail e False ?t))" using live(1) by (simp add: failed_view_def kept_def)
    ultimately show ?thesis using fail_keeps [OF inv live out] by blast
  next
    case (W_Failed f)
    from wire_of_kind(9) [OF this] have "accept_body m ?t = Inr (touch ((stream_fail (Stream_PeerFailed (fail_code f) (fail_effect f)) False
        (?t\<lparr>sm_failure_facts := fail_facts f\<rparr>))\<lparr>sm_retained_failure := Some f\<rparr>))"
      by (simp add: accept_body_def accept_failed_def)
    then show ?thesis using fail_keeps [OF inv live out] fail_after [OF live(1)] by blast
  next
    case W_Other
    then show ?thesis using popped_flow [OF inv out live(1)] by simp
  qed (use deliver_data [OF inv live out] deliver_window [OF inv live out] deliver_flush [OF inv live out]
      deliver_flushed [OF inv live out] deliver_end_write [OF inv live out] deliver_close [OF inv live out]
      deliver_closed [OF inv live out] in blast)+
  show ?thesis
  proof (cases rule: receive_form [of ?t m])
    case dead then show ?thesis using link_pop_dead [OF inv out] by simp
  next
    case times_out
    note l = link_invD [OF inv]
    show ?thesis
      using link_fail_pop [OF inv out fail_view [OF times_out(1)]] fail_inv [OF l(3)]
        fail_outbox [OF l(3) half_invD(1) [OF l(5)]] times_out(3) by simp
  next
    case (refused e) then show ?thesis using acc by simp
  next
    case (accepted t') then show ?thesis using acc by auto
  qed
qed

end
