(* ===== verification/Stream_Link_Properties.thy ===== *)
theory Stream_Link_Properties
  imports Stream_Link_Steps
begin

text \<open>
  What two connected machines guarantee: no message is refused, each direction is a pipe of
  bytes, the end of the stream is exact, a completed flush means delivery, the two sides agree
  on the close, flow control cannot deadlock, and a machine asked for messages runs dry.
\<close>

section \<open>Runs, pipes and draining\<close>

datatype link_event = Act stream_op | Emit | Deliver

fun half_run :: "link_event \<Rightarrow> party \<Rightarrow> party \<Rightarrow> party \<times> party" where
  "half_run (Act op) a b = (if local_op op then party_apply op a else a, b)"
| "half_run Emit a b =
     (case next_message (p_machine a) of
       (Some m, s) \<Rightarrow> (a\<lparr>p_machine := s, p_out := p_out a @ [m]\<rparr>, b)
     | (None, s) \<Rightarrow> (a, b))"
| "half_run Deliver a b =
     (case p_out a of
       m # q \<Rightarrow> (a\<lparr>p_out := q\<rparr>, b\<lparr>p_machine := snd (stream_receive m (p_machine b))\<rparr>)
     | [] \<Rightarrow> (a, b))"

definition link_apply :: "bool \<times> link_event \<Rightarrow> party \<times> party \<Rightarrow> party \<times> party" where
  "link_apply e l =
     (if fst e then half_run (snd e) (fst l) (snd l) else prod.swap (half_run (snd e) (snd l) (fst l)))"

definition link_run :: "(bool \<times> link_event) list \<Rightarrow> party \<times> party \<Rightarrow> party \<times> party" where
  "link_run evs l = fold link_apply evs l"

definition sample_link :: "party \<times> party" where
  "sample_link = (party_new (sample_machine Side_Initiator), party_new (sample_machine Side_Endpoint))"

definition sample_env :: "message_kind \<Rightarrow> side \<Rightarrow> envelope" where
  "sample_env k sd = stream_envelope k (sample_machine sd)"

record pipe =
  pipe_written :: "byte list"
  pipe_read :: "byte list"

inductive pipe_step :: "pipe \<Rightarrow> pipe \<Rightarrow> bool" where
  idle: "pipe_step p p"
| put: "pipe_step p (p\<lparr>pipe_written := pipe_written p @ bs\<rparr>)"
| get: "prefix (pipe_read p @ bs) (pipe_written p) \<Longrightarrow> pipe_step p (p\<lparr>pipe_read := pipe_read p @ bs\<rparr>)"

definition pipe_of :: "party \<Rightarrow> party \<Rightarrow> pipe" where
  "pipe_of a b = \<lparr>pipe_written = p_written a, pipe_read = p_read b\<rparr>"

text \<open>Messages until the machine has none.\<close>

partial_function (option) drain :: "stream_machine \<Rightarrow> (envelope list \<times> stream_machine) option" where
  "drain s = (case next_message s of
       (None, s') \<Rightarrow> Some ([], s')
     | (Some m, s') \<Rightarrow> Option.bind (drain s') (\<lambda>r. Some (m # fst r, snd r)))"

definition flag :: "bool \<Rightarrow> nat" where
  "flag b = (if b then 1 else 0)"

definition pending_messages :: "stream_machine \<Rightarrow> nat" where
  "pending_messages s = length (sm_send s)
     + flag (sm_terminal_message s \<noteq> None) + flag (sm_peer_flush s \<noteq> None)
     + flag (sm_advertised_limit s < saturating_add_i64 (sm_consumed s) (int (cfg_receive_window (sm_config s))))
     + flag (sm_close_pending s \<noteq> None) + flag (\<exists>f. sm_flush s = Some f \<and> \<not> pf_sent f)
     + flag (\<not> sm_end_sent s) + flag (\<not> sm_close_sent s)"

definition sample_facts :: facts where
  "sample_facts = \<lparr>facts_method = Method_None, facts_credential_offered = False, facts_authenticated = None,
     facts_key_fingerprint = None, facts_http_status = None, facts_ssh_exit_status = None, facts_native = None\<rparr>"

section \<open>Runs and their outcome\<close>

lemma link_step_inv:
  assumes "link_inv l" "link_step l l'"
  shows "link_inv l'"
proof -
  have "link_inv (a', b')" if "half_step a b a' b'" "link_inv (a, b)" for a b a' b'
    using that(1) by (cases rule: half_step.cases) (use that(2) link_act link_next link_deliver in blast)+
  then show ?thesis
    using assms link_inv_sym unfolding link_step_def by (metis prod.collapse)
qed

interpretation links: invariant_system link_start link_step link_inv
  by unfold_locales (fact start_link_inv, fact link_step_inv)

lemma half_run_step: "half_run ev a b = (a, b) \<or> half_step a b (fst (half_run ev a b)) (snd (half_run ev a b))"
proof (cases ev)
  case (Act op) then show ?thesis by (auto intro: half_step.act)
next
  case Emit
  obtain o' s where n: "next_message (p_machine a) = (o', s)" by fastforce
  then show ?thesis using Emit half_step.emit [of a _ s b] by (cases o') simp_all
next
  case Deliver then show ?thesis by (cases "p_out a") (auto intro: half_step.deliver)
qed

lemma link_apply_step: "link_apply e l = l \<or> link_step l (link_apply e l)"
  using half_run_step [of "snd e" "fst l" "snd l"] half_run_step [of "snd e" "snd l" "fst l"]
  by (elim disjE) (simp_all add: link_apply_def link_step_def)

lemma link_run_steps: "link_step\<^sup>*\<^sup>* l (link_run evs l)"
  unfolding link_run_def
proof (induction evs arbitrary: l)
  case (Cons e evs)
  have "link_step\<^sup>*\<^sup>* l (link_apply e l)" using link_apply_step [of e l] by auto
  then show ?case using Cons [of "link_apply e l"] by simp
qed simp

lemma sample_machine_eq:
  "sample_machine sd = \<lparr>sm_config = config_new ''s'' 1 sd, sm_send = [], sm_recv = [], sm_now = 0,
        sm_io = io_new 3000 120000,
        sm_batch_deadline = None, sm_force_send = False, sm_sent = 0, sm_received = 0,
        sm_consumed = 0, sm_peer_limit = 65536,
        sm_advertised_limit = 65536, sm_end_requested = False,
        sm_end_sent = False, sm_end_received = False, sm_flush = None, sm_flush_serial = 0,
        sm_flush_acked = 0, sm_peer_flush = None, sm_peer_flush_serial = 0,
        sm_close_deadline = None, sm_close_sent = False, sm_close_received = False,
        sm_discarding = False, sm_discarded = False, sm_close_pending = None,
        sm_completed = None, sm_error = None, sm_failure_facts = None,
        sm_retained_failure = None, sm_terminal_message = None, sm_peak_send = 0,
        sm_peak_recv = 0, sm_revision = 0\<rparr>"
  by (simp add: sample_machine_def stream_new_def sample_config_valid) (simp add: config_new_def)

lemma sample_link_start: "link_start sample_link"
proof -
  have "peers (config_new ''s'' 1 Side_Initiator) (config_new ''s'' 1 Side_Endpoint)"
    by (simp add: peers_def config_new_def)
  then show ?thesis using sample_machine_new unfolding link_start_def sample_link_def by blast
qed

lemma sample_config_simps: "cfg_side (config_new a i sd) = sd" "cfg_max_payload (config_new a i sd) = 16384"
 "cfg_send_buffer (config_new a i sd) = 65536" "cfg_receive_window (config_new a i sd) = 65536"
 "cfg_peer_receive_window (config_new a i sd) = 65536" "cfg_session_id (config_new a i sd) = a"
 "cfg_stream_id (config_new a i sd) = i" "cfg_profile_version (config_new a i sd) = 1"
 "cfg_coalesce_delay_ms  (config_new a i sd) = 100" 
 "cfg_close_timeout_ms  (config_new a i sd) = 5000" 
  by (simp_all add: config_new_def)

lemma sample_env_simps [simp]:
  "env_kind (sample_env k sd) = k" "env_session_id (sample_env k sd) = ''s''" "env_stream_id (sample_env k sd) = 1"
  "env_version (sample_env k sd) = 1"
  by (simp_all add: sample_env_def sample_config_simps)

lemma to_sample_env: "sm_config s = config_new ''s'' 1 sd \<Longrightarrow> stream_envelope k s = sample_env k sd"
  unfolding sample_env_def by (rule stream_envelope_cong) simp

lemma sample_limits: "cfg_receive_limits (config_new a i sd) = default_limits" "cfg_peer_limits (config_new a i sd) = default_limits"
  by (simp_all add: config_new_def)

lemma sample_machine_valid: "validate_config (sm_config (sample_machine sd)) = Inr ()"
  using sample_config_valid by simp

lemma sample_message_admitted:
  "0 \<le> off \<Longrightarrow> off + int (length p) \<le> i64_max \<Longrightarrow> length p \<le> 16384 \<Longrightarrow>
   admit_limited ((sample_env Kind_Data sd)\<lparr>env_data := Some \<lparr>data_offset = off, data_payload = p\<rparr>\<rparr>) default_limits = Inr ()"
  "0 \<le> off \<Longrightarrow>
   admit_limited ((sample_env Kind_EndWrite sd)\<lparr>env_end_write := Some \<lparr>endw_final_offset = off\<rparr>\<rparr>) default_limits = Inr ()"
  "0 \<le> barrier_offset b \<Longrightarrow> 0 < barrier_barrier_id b \<Longrightarrow>
   admit_limited ((sample_env Kind_Flush sd)\<lparr>env_flush := Some b\<rparr>) default_limits = Inr ()"
  "0 \<le> barrier_offset b \<Longrightarrow> 0 < barrier_barrier_id b \<Longrightarrow>
   admit_limited ((sample_env Kind_Flushed sd)\<lparr>env_flushed := Some b\<rparr>) default_limits = Inr ()"
  "0 \<le> off \<Longrightarrow>
   admit_limited ((sample_env Kind_Close sd)\<lparr>env_close := Some \<lparr>close_final_offset = off\<rparr>\<rparr>) default_limits = Inr ()"
proof -
  show "0 \<le> off \<Longrightarrow> off + int (length p) \<le> i64_max \<Longrightarrow> length p \<le> 16384 \<Longrightarrow>
   admit_limited ((sample_env Kind_Data sd)\<lparr>env_data := Some \<lparr>data_offset = off, data_payload = p\<rparr>\<rparr>) default_limits = Inr ()"
    using data_sendable [OF sample_machine_valid, of off p] by (simp add: sendable_def sample_env_def sample_limits sample_config_simps)
qed (use control_valid [OF sample_machine_valid] control_sendable [OF sample_machine_valid] in \<open>auto simp: sendable_def sample_env_def sample_limits sample_config_simps flow_kind_def\<close>)

lemmas run_simps = link_run_def link_apply_def sample_link_def party_apply_def party_new_def Let_def sample_machine_eq stream_terminal_iff sample_config_simps
    checked_add_i64_def in_i64_def i64_min_def i64_max_def touch_def stream_live_def saturating_add_u64_def u64_max_def
   stream_write_def end_write_def stream_read_def start_flush_def

lemmas emit_simps = next_message_def emit_flushed_def emit_window_def emit_closed_def emit_flush_def emit_data_def emit_end_write_def emit_close_def
   saturating_add_i64_def  i64_as_usize_numeral is_some_and_def is_some_def send_eligible_def send_drain_def to_sample_env

lemmas receive_simps = stream_receive_def expire_io_if_due_def io_expired_def io_due_def io_new_def stream_accept_def
  accept_body_def accept_data_def accept_flush_def accept_flushed_def accept_end_write_def sample_limits sample_message_admitted  sink_offset_def

lemma flag_simps [simp]: "flag True = 1" "flag False = 0"
  by (simp_all add: flag_def)

lemma next_message_pending:
  assumes "sm_inv s" "next_message s = (Some m, s')"
  shows "pending_messages s' < pending_messages s"
proof -
  have f1: "pending_messages s' < pending_messages s" if "emit_data s = Some (m, s')"
  proof (rule emit_data_Some [OF sm_invD(2,1) [OF assms(1)] that])
    fix n assume "0 < n" "n \<le> length (sm_send s)" "s' = touch (send_drain n s)"
    then show "pending_messages s' < pending_messages s" by (simp add: pending_messages_def)
  qed
  have f2: "pending_messages s' < pending_messages s" if "emit_flushed s = Some (m, s')"
    using that by (clarsimp simp: emit_flushed_Some pending_messages_def)
  have f3: "pending_messages s' < pending_messages s" if "emit_window s = Some (m, s')"
    using that by (clarsimp simp: emit_window_Some pending_messages_def)
  have f4: "pending_messages s' < pending_messages s" if "emit_closed s = Some (m, s')"
    using that by (clarsimp simp: emit_closed_Some pending_messages_def)
  have f5: "pending_messages s' < pending_messages s" if "emit_flush s = Some (m, s')"
    using that by (clarsimp simp: emit_flush_Some pending_messages_def)
  have f6: "pending_messages s' < pending_messages s" if "emit_end_write s = Some (m, s')"
    using that by (clarsimp simp: emit_end_write_Some pending_messages_def)
  have f7: "pending_messages s' < pending_messages s" if "emit_close s = Some (m, s')"
    using that by (clarsimp simp: emit_close_Some pending_messages_def)
  have f8: "pending_messages (touch (s\<lparr>sm_terminal_message := None\<rparr>)) < pending_messages s"
    if "sm_terminal_message s = Some m'" for m'
    using that by (simp add: pending_messages_def)
  show ?thesis
    by (cases rule: next_message_form [of s]) (use assms(2) f1 f2 f3 f4 f5 f6 f7 f8 in simp_all)
qed

lemma drain_total:
  assumes "sm_inv s"
  shows "\<exists>ms t. drain s = Some (ms, t) \<and> length ms \<le> pending_messages s \<and> fst (next_message t) = None"
  using assms
proof (induction "pending_messages s" arbitrary: s rule: less_induct)
  case less
  show ?case
  proof (cases "fst (next_message s)")
    case None
    then have "next_message s = (None, s)" by (cases rule: next_message_form [of s]) simp_all
    then show ?thesis by (simp add: drain.simps [of s])
  next
    case (Some m)
    then obtain s' where n: "next_message s = (Some m, s')" by (metis prod.collapse)
    note p = next_message_pending [OF less.prems n]
    have "sm_inv s'" using apply_inv [OF less.prems, of Op_NextMessage] n by simp
    then obtain ms t where d: "drain s' = Some (ms, t)" "length ms \<le> pending_messages s'" "fst (next_message t) = None"
      using less.hyps [OF p] by blast
    then have "drain s = Some (m # ms, t)" using n by (simp add: drain.simps [of s])
    then show ?thesis using d p by auto
  qed
qed

lemma pending_messages_le: "pending_messages s \<le> length (sm_send s) + 7"
proof -
  have b: "n + flag x \<le> m + (k + 1)" if "n \<le> m + k" for n m k :: nat and x using that by (cases x) simp_all
  show ?thesis unfolding pending_messages_def
    using b [OF b [OF b [OF b [OF b [OF b [OF b [of "length (sm_send s)" "length (sm_send s)" 0]]]]]]] by simp
qed

lemma half_step_pipes:
  assumes "half_step a b a' b'" "link_inv (a', b')"
  shows "pipe_step (pipe_of a b) (pipe_of a' b') \<and> pipe_step (pipe_of b a) (pipe_of b' a')"
  using assms(1)
proof (cases rule: half_step.cases)
  case (act op)
  define w r where "w = (case op of Op_Write i \<Rightarrow> (case fst (stream_write i (p_machine a)) of Inr n \<Rightarrow> take n i | Inl _ \<Rightarrow> []) | _ \<Rightarrow> [])"
    and "r = (case op of Op_Read k \<Rightarrow> (case fst (stream_read k (p_machine a)) of Inr bs \<Rightarrow> bs | Inl _ \<Rightarrow> []) | _ \<Rightarrow> [])"
  have e: "p_written a' = p_written a @ w" "p_read a' = p_read a @ r" "b' = b"
    using act by (auto simp: w_def r_def party_apply_def Let_def split: stream_op.splits sum.splits)
  have "prefix (p_read a') (p_written b)"
    using bytes_prefix half_invD(7) [OF link_invD(5) [OF assms(2)]] e(3) by blast
  then show ?thesis
    using pipe_step.put [of "pipe_of a b" w] pipe_step.get [of "pipe_of b a" r] e by (simp add: pipe_of_def)
next
  case (emit m s) then show ?thesis by (simp add: pipe_of_def pipe_step.idle)
next
  case (deliver m q) then show ?thesis by (simp add: pipe_of_def pipe_step.idle)
qed

lemma link_step_pipes:
  assumes "link_step (a, b) (a', b')" "link_inv (a', b')"
  shows "pipe_step (pipe_of a b) (pipe_of a' b') \<and> pipe_step (pipe_of b a) (pipe_of b' a')"
  using assms half_step_pipes link_inv_sym unfolding link_step_def by (metis fst_conv snd_conv)

lemma delivered_all:
  assumes inv: "link_inv (a, b)" and e: "sm_end_received (p_machine b)"
  shows "sm_end_sent (p_machine a)" "sm_received (p_machine b) = int (length (p_written a))"
    "\<not> sm_discarding (p_machine b) \<Longrightarrow> sm_recv (p_machine b) = [] \<Longrightarrow> p_read b = p_written a"
proof -
  note h = half_invD [OF link_invD(4) [OF inv]]
  show s: "sm_end_sent (p_machine a)" "sm_received (p_machine b) = int (length (p_written a))"
    using h(3,7) e by (auto simp: flow_ok_def bytes_ok_def)
  then show "p_read b = p_written a" if "\<not> sm_discarding (p_machine b)" "sm_recv (p_machine b) = []"
    using h(7) that by (simp add: bytes_ok_def)
qed

lemma sink_is_read:
  assumes inv: "link_inv (a, b)" and s: "cfg_side (sm_config (p_machine b)) = Side_Endpoint"
  shows "sink_offset (p_machine b) = int (length (p_read b))"
proof -
  note h = half_invD [OF link_invD(4) [OF inv]] and g = sm_invD [OF link_invD(3) [OF inv]]
  have "\<not> sm_discarding (p_machine b)" using g(5) s by (auto simp: close_inv_def)
  then have "length (p_read b @ sm_recv (p_machine b)) = length (take (nat (sm_received (p_machine b))) (p_written a))"
    using h(7) by (simp add: bytes_ok_def)
  moreover have "sm_received (p_machine b) \<le> int (length (p_written a))"
    using h(3,7) by (auto simp: flow_ok_def bytes_ok_def)
  ultimately show ?thesis using g(3) s by (auto simp: recv_inv_def sink_offset_def)
qed

lemma credit_stuck:
  assumes inv: "link_inv (a, b)" and q: "p_out a = []" "p_out b = []"
    and live: "\<not> stream_terminal (p_machine a)" "\<not> stream_terminal (p_machine b)"
    and n: "fst (next_message (p_machine a)) = None" "fst (next_message (p_machine b)) = None"
    and s: "sm_send (p_machine a) \<noteq> []" "send_eligible (p_machine a)"
  shows "sm_recv (p_machine b) \<noteq> []"
proof -
  note l = link_invD [OF inv] and h = half_invD [OF link_invD(4) [OF inv]]
  let ?s = "p_machine a" and ?t = "p_machine b"
  have d: "emit_data ?s = None" using n(1) live(1) by (cases rule: next_message_form [of ?s]) simp_all
  have w: "emit_window ?t = None" using n(2) live(2) by (cases rule: next_message_form [of ?t]) simp_all
  have "i64_as_usize (sm_peer_limit ?s - sm_sent ?s) = 0"
    using d s by (simp add: emit_data_def Let_def split: if_splits)
  then have "sm_peer_limit ?s = sm_sent ?s"
    using sm_invD(2) [OF l(2)] by (simp add: send_inv_def i64_as_usize_nonneg)
  moreover have "sm_advertised_limit ?t = sm_peer_limit ?s" using h(4) live(1) q(2) by (simp add: credit_ok_def)
  moreover have r: "sm_received ?t = sm_sent ?s" using h(3) live(2) q(1) by (simp add: flow_ok_def)
  moreover have "saturating_add_i64 (sm_consumed ?t) (int (cfg_receive_window (sm_config ?t))) \<le> sm_advertised_limit ?t"
    using w by (simp add: emit_window_def Let_def split: if_splits)
  ultimately have "saturating_add_i64 (sm_consumed ?t) (int (cfg_receive_window (sm_config ?t))) \<le> sm_received ?t" by simp
  moreover have "sm_received ?t < i64_max"
    using sm_invD(2) [OF l(2)] s(1) r by (cases "sm_send ?s") (auto simp: send_inv_def)
  moreover have "0 < cfg_receive_window (sm_config ?t)" using validate_config_ok [OF sm_invD(1) [OF l(3)]] by simp
  ultimately show ?thesis
    using sm_invD(3) [OF l(3)] by (auto simp: recv_inv_def saturating_add_i64_def)
qed

lemma sample_closed_admitted:
  "admit_limited ((sample_env Kind_Closed sd)\<lparr>env_closed := Some \<lparr>closed_disposition = Disp_Discarded,
     closed_unread_response_discarded = False, closed_facts = sample_facts, closed_failure = None\<rparr>\<rparr>) default_limits = Inr ()"
  (is "admit_limited ?m _ = _")
proof -
  have m: "?m = (stream_envelope Kind_Closed (sample_machine sd))\<lparr>env_closed := Some \<lparr>closed_disposition = Disp_Discarded,
     closed_unread_response_discarded = False, closed_facts = sample_facts, closed_failure = None\<rparr>\<rparr>"
    by (simp add: sample_env_def)
  have v: "validate_envelope ?m = Inr ()"
    unfolding m by (simp add: validate_simps sample_config_simps sample_facts_def validate_native_facts_def)
  show ?thesis
    unfolding admit_limited_def v validate_default and_then_Inr admit_envelope_ok admissible_iff
    unfolding m by (simp add: envelope_to_cbor_def stream_envelope_def default_envelope_def sample_config_simps closed_msg_to_cbor_def facts_to_cbor_def sample_facts_def
     budget_head_def node_charge_def i64_as_usize_numeral i64_as_usize_one max_metadata_def)
qed

lemmas close_simps = sample_closed_admitted start_close_def close_discard_def complete_close_with_failure_def accept_close_def accept_closed_def stop_io_clock_def
   io_stop_def io_account_def

section \<open>Properties\<close>

text \<open>
  C5: two machines of one negotiated stream never break the protocol. Whatever the two
  applications and hosts do and however sending and delivery interleave, a delivered message is
  accepted or finds the receiver's own activity timer expired; no message is refused.
\<close>

theorem link_accepts:
  assumes "link_start l" "link_step\<^sup>*\<^sup>* l (a, b)" "p_out a = m # q"
  shows "fst (stream_receive m (p_machine b)) \<in> {Inr (), Inl Stream_Timeout}"
  using link_deliver [OF links.reachable_inv [OF assms(1,2)] assms(3)] by blast

theorem link_accepts_witness:
  "fst (stream_receive ((sample_env Kind_Data Side_Initiator)\<lparr>env_data := Some \<lparr>data_offset = 0, data_payload = [7]\<rparr>\<rparr>)
     (sample_machine Side_Endpoint)) \<in> {Inr (), Inl Stream_Timeout}"
proof -
  let ?l = "link_run [(True, Act (Op_Write [7])), (True, Act Op_EndWrite), (True, Emit)] sample_link"
  have "p_out (fst ?l) = (sample_env Kind_Data Side_Initiator)\<lparr>env_data := Some \<lparr>data_offset = 0, data_payload = [7]\<rparr>\<rparr> # []"
      "p_machine (snd ?l) = sample_machine Side_Endpoint"
    by (simp_all add: run_simps emit_simps)
  then show ?thesis using link_accepts [OF sample_link_start, of "fst ?l" "snd ?l"] link_run_steps [of sample_link] by simp
qed

text \<open>
  C6: a link implements two pipes. Every step of the two machines and the messages between them
  is, for each direction, a step of a pipe into which the writer puts bytes and from which the
  reader gets the next bytes not yet read, or leaves the pipe as it is.
\<close>

theorem link_refines_pipes:
  assumes "link_start l" "link_step\<^sup>*\<^sup>* l (a, b)" "link_step (a, b) (a', b')"
  shows "pipe_step (pipe_of a b) (pipe_of a' b') \<and> pipe_step (pipe_of b a) (pipe_of b' a')"
  using link_step_pipes [OF assms(3)] links.reachable_inv [OF assms(1)] assms(2,3) rtranclp.rtrancl_into_rtrancl
  by metis

theorem link_refines_pipes_witness:
  "pipe_step \<lparr>pipe_written = [], pipe_read = []\<rparr> \<lparr>pipe_written = [7], pipe_read = []\<rparr>"
proof -
  let ?e = "(True, Act (Op_Write [7]))"
  have "link_apply ?e sample_link \<noteq> sample_link"
    by (simp add: run_simps)
  then have "link_step sample_link (link_apply ?e sample_link)" using link_apply_step by blast
  then have "pipe_step (pipe_of (fst sample_link) (snd sample_link))
      (pipe_of (fst (link_apply ?e sample_link)) (snd (link_apply ?e sample_link)))"
    using link_refines_pipes [OF sample_link_start] by (metis prod.collapse rtranclp.rtrancl_refl)
  then show ?thesis by (simp add: run_simps pipe_of_def)
qed

text \<open>
  C7: the end of the stream is exact. When a read into a nonempty buffer returns no bytes, the
  peer has ended its writes and everything it ever wrote has been read.
\<close>

theorem link_eof:
  assumes "link_start l" "link_step\<^sup>*\<^sup>* l (a, b)" "0 < k" "fst (stream_read k (p_machine b)) = Inr []"
  shows "sm_end_sent (p_machine a) \<and> p_read b = p_written a"
proof -
  have "sm_end_received (p_machine b)" "\<not> sm_discarding (p_machine b)" "sm_recv (p_machine b) = []"
    using assms(3,4) by (auto simp: stream_read_def Let_def min_def split: if_splits option.splits)
  then show ?thesis using delivered_all [OF links.reachable_inv [OF assms(1,2)]] by blast
qed

theorem link_eof_witness:
  "let l = link_run [(True, Act (Op_Write [7])), (True, Act Op_EndWrite), (True, Emit), (True, Emit),
       (True, Deliver), (True, Deliver), (False, Act (Op_Read 4))] sample_link
   in fst (stream_read 4 (p_machine (snd l))) = Inr [] \<and> p_read (snd l) = [7] \<and> p_read (snd l) = p_written (fst l)"
proof -
  let ?l = "link_run [(True, Act (Op_Write [7])), (True, Act Op_EndWrite), (True, Emit), (True, Emit),
       (True, Deliver), (True, Deliver), (False, Act (Op_Read 4))] sample_link"
  have "fst (stream_read 4 (p_machine (snd ?l))) = Inr []" "p_read (snd ?l) = [7]"
    by (simp_all add: run_simps emit_simps receive_simps)
  then show ?thesis
    using link_eof [OF sample_link_start, of "fst ?l" "snd ?l" 4] link_run_steps [of sample_link] by simp
qed

text \<open>
  C8: a completed flush means delivery. When a flush ticket is complete, every byte written
  before the flush was started has reached the peer: its initiator has received it, its
  endpoint has read it.
\<close>

theorem link_flush:
  assumes "link_start l" "link_step\<^sup>*\<^sup>* l (a, b)"
    and "p_barriers a ticket = Some n" "flush_complete ticket (p_machine a) = Inr True"
  shows "if cfg_side (sm_config (p_machine b)) = Side_Endpoint then n \<le> length (p_read b)
    else int n \<le> sm_received (p_machine b)"
proof -
  note inv = links.reachable_inv [OF assms(1,2)]
  have "ticket \<le> sm_flush_acked (p_machine a)"
    using assms(4) by (auto simp: flush_complete_def split: option.splits)
  then have "int n \<le> sink_offset (p_machine b)"
    using half_invD(8) [OF link_invD(4) [OF inv]] assms(3) by (auto simp: ack_ok_def)
  then show ?thesis
    using sink_is_read [OF inv] by (cases "cfg_side (sm_config (p_machine b))") (auto simp: sink_offset_def)
qed

theorem link_flush_witness:
  "let l = link_run [(True, Act (Op_Write [7])), (True, Act Op_StartFlush), (True, Emit), (True, Emit), (True, Deliver),
       (True, Deliver), (False, Act (Op_Read 4)), (False, Emit), (False, Deliver)] sample_link
   in flush_complete 1 (p_machine (fst l)) = Inr True \<and> 1 \<le> length (p_read (snd l))"
proof -
  let ?l = "link_run [(True, Act (Op_Write [7])), (True, Act Op_StartFlush), (True, Emit), (True, Emit), (True, Deliver),
       (True, Deliver), (False, Act (Op_Read 4)), (False, Emit), (False, Deliver)] sample_link"
  have "flush_complete 1 (p_machine (fst ?l)) = Inr True" "p_barriers (fst ?l) 1 = Some 1"
      "cfg_side (sm_config (p_machine (snd ?l))) = Side_Endpoint"
    by (simp_all add: run_simps emit_simps receive_simps flush_complete_def)
  then show ?thesis
    using link_flush [OF sample_link_start, of "fst ?l" "snd ?l" 1 1] link_run_steps [of sample_link] by simp
qed

text \<open>
  C9: the two sides agree on the close. When the initiator's stream has completed, the
  endpoint's has completed too, with the same disposition and facts, the endpoint has read all
  the initiator wrote, and all the endpoint wrote has arrived at the initiator.
\<close>

theorem link_close:
  assumes "link_start l" "link_step\<^sup>*\<^sup>* l (a, b)"
    and "cfg_side (sm_config (p_machine a)) = Side_Initiator" "sm_completed (p_machine a) = Some x"
  shows "(\<exists>y. sm_completed (p_machine b) = Some y \<and> cr_disposition y = cr_disposition x \<and> cr_facts y = cr_facts x)
    \<and> p_read b = p_written a \<and> sm_received (p_machine a) = int (length (p_written b))"
proof -
  note inv = links.reachable_inv [OF assms(1,2)]
  note l = link_invD [OF inv]
  obtain y where y: "sm_completed (p_machine b) = Some y" "cr_disposition y = cr_disposition x" "cr_facts y = cr_facts x"
    using half_invD(6) [OF l(4)] assms(3,4) by (auto simp: close_ok_def)
  have sb: "cfg_side (sm_config (p_machine b)) = Side_Endpoint"
    using l(1) assms(3) by (cases "cfg_side (sm_config (p_machine b))") (auto simp: peers_def)
  then have b: "sm_end_received (p_machine b)" "sm_recv (p_machine b) = []" "\<not> sm_discarding (p_machine b)"
    using sm_invD(5,7) [OF l(3)] y(1) by (auto simp: done_inv_def close_inv_def)
  have "sm_end_received (p_machine a)" using sm_invD(7) [OF l(2)] assms(4) by (auto simp: done_inv_def)
  then show ?thesis
    using y delivered_all(3) [OF inv b(1,3,2)] delivered_all(2) [OF link_inv_sym [OF inv]] by simp
qed

theorem link_close_witness:
  "let l = link_run [(True, Act Op_StartClose), (True, Emit), (True, Emit), (True, Deliver), (True, Deliver),
       (False, Act Op_EndWrite), (False, Emit), (False, Act (Op_CompleteClose Disp_Discarded sample_facts None)), (False, Emit),
       (False, Deliver), (False, Deliver)] sample_link
   in sm_completed (p_machine (fst l)) \<noteq> None \<and> sm_completed (p_machine (snd l)) \<noteq> None"
proof -
  let ?l = "link_run [(True, Act Op_StartClose), (True, Emit), (True, Emit), (True, Deliver), (True, Deliver),
       (False, Act Op_EndWrite), (False, Emit), (False, Act (Op_CompleteClose Disp_Discarded sample_facts None)), (False, Emit),
       (False, Deliver), (False, Deliver)] sample_link"
  have "cfg_side (sm_config (p_machine (fst ?l))) = Side_Initiator" "sm_completed (p_machine (fst ?l))
      = Some \<lparr>cr_disposition = Disp_Discarded, cr_unread_response_discarded = False, cr_facts = sample_facts\<rparr>"
    by (simp_all add: run_simps emit_simps receive_simps close_simps)
  then show ?thesis
    using link_close [OF sample_link_start, of "fst ?l" "snd ?l"] link_run_steps [of sample_link] by (auto simp: Let_def)
qed

text \<open>
  C10: flow control cannot deadlock. When two live machines have nothing in flight and nothing
  to send while bytes are due in one send buffer, the other side's application has bytes to read:
  exhausted credit is always the reader's to give back.
\<close>

theorem link_credit:
  assumes "link_start l" "link_step\<^sup>*\<^sup>* l (a, b)" "p_out a = []" "p_out b = []"
    and "\<not> stream_terminal (p_machine a)" "\<not> stream_terminal (p_machine b)"
    and "fst (next_message (p_machine a)) = None" "fst (next_message (p_machine b)) = None"
    and "sm_send (p_machine a) \<noteq> []" "send_eligible (p_machine a)"
  shows "sm_recv (p_machine b) \<noteq> []"
  by (rule credit_stuck [OF links.reachable_inv [OF assms(1,2)] assms(3-10)])

theorem link_credit_witness:
  "sm_recv (p_machine (snd (link_run [(True, Act (Op_Write (replicate 65536 0))), (True, Emit), (True, Emit), (True, Emit),
     (True, Emit), (True, Deliver), (True, Deliver), (True, Deliver), (True, Deliver), (True, Act (Op_Write [1])),
     (True, Act Op_StartFlush)] sample_link))) \<noteq> []"
proof -
  define xs :: "byte list" where "xs = replicate 65536 0"
  have len: "length xs = 65536" unfolding xs_def by (rule length_replicate)
  then have xs: "length xs = 65536" "xs \<noteq> []" by auto
  let ?l = "link_run [(True, Act (Op_Write xs)), (True, Emit), (True, Emit), (True, Emit),
     (True, Emit), (True, Deliver), (True, Deliver), (True, Deliver), (True, Deliver), (True, Act (Op_Write [1])),
     (True, Act Op_StartFlush)] sample_link"
  have "p_out (fst ?l) = []" "p_out (snd ?l) = []" "\<not> stream_terminal (p_machine (fst ?l))" "\<not> stream_terminal (p_machine (snd ?l))"
    "fst (next_message (p_machine (fst ?l))) = None" "fst (next_message (p_machine (snd ?l))) = None"
    "sm_send (p_machine (fst ?l)) \<noteq> []" "send_eligible (p_machine (fst ?l))"
    by (simp_all add: run_simps emit_simps receive_simps xs i64_as_usize_nonneg [of 0])
  then show ?thesis
    using link_credit [OF sample_link_start, of "fst ?l" "snd ?l"] link_run_steps [of sample_link] unfolding xs_def by simp
qed

text \<open>
  C11: asking a machine for messages until it has none always ends. From every reachable state
  the loop returns, after at most one message for each buffered byte and seven more.
\<close>

theorem drain_terminates:
  assumes "stream_start s0" "stream_step\<^sup>*\<^sup>* s0 s"
  shows "\<exists>ms t. drain s = Some (ms, t) \<and> length ms \<le> length (sm_send s) + 7 \<and> fst (next_message t) = None"
  using drain_total [OF stream_machines.reachable_inv [OF assms]] pending_messages_le [of s] le_trans by blast

theorem drain_terminates_witness:
  "\<exists>ms t. drain (stream_apply (Op_Write [1, 2, 3]) (sample_machine Side_Initiator)) = Some (ms, t)
     \<and> length ms \<le> 10 \<and> fst (next_message t) = None"
proof -
  let ?s = "stream_apply (Op_Write [1, 2, 3]) (sample_machine Side_Initiator)"
  have "length (sm_send ?s) = 3" by (simp add: run_simps)
  then show ?thesis using drain_terminates [OF sample_machine_start stream_one_step [of "sample_machine Side_Initiator"], of "Op_Write [1, 2, 3]"] by simp
qed

end
