(* ===== verification/Spec2Isabelle.thy ===== *)
theory Spec2Isabelle
  imports Preflight Stream_Clock Stream_Link_Properties
begin

text \<open>
  A verification development for the Git transport of the repository.
\<close>

end
